(* ===== verification/Prelude.thy ===== *)
theory Prelude
  imports Main "HOL-Library.AList" "HOL-Library.Code_Target_Numeral"
begin

text \<open>
  Generic vocabulary of the development: Python strings as code point lists, dictionaries as
  insertion-ordered association lists, exceptions as values, results, and the lemma collections
  the component theories extend.
\<close>

named_theorems dict_simps "lookup and update laws of insertion-ordered dictionaries"
named_theorems res_simps "laws of results (an exception or a value)"

section \<open>Strings\<close>

text \<open>
  A Python \<open>str\<close> is a sequence of code points, lone surrogates included (a transport reads a
  body with \<open>surrogateescape\<close>), so it is a list of naturals. The function \<open>u\<close> turns an ASCII
  literal into one.
\<close>

type_synonym pystr = "nat list"

definition u :: "string \<Rightarrow> pystr" where
  "u s = map of_char s"

lemma u_eq_iff [simp]: "u s = u t \<longleftrightarrow> s = t"
  by (auto simp: u_def inj_map_eq_map [OF inj_of_char])

lemma u_eq_Nil [simp]: "u s = [] \<longleftrightarrow> s = []" and Nil_eq_u [simp]: "[] = u s \<longleftrightarrow> s = []"
  by (auto simp: u_def)

lemma u_Nil [simp]: "u [] = []"
  by (simp add: u_def)

lemma length_u [simp]: "length (u s) = length s"
  by (simp add: u_def)

lemma u_append: "u (s @ t) = u s @ u t"
  by (simp add: u_def)

definition starts_with :: "pystr \<Rightarrow> pystr \<Rightarrow> bool" where
  "starts_with p s \<longleftrightarrow> take (length p) s = p"

definition ends_with :: "pystr \<Rightarrow> pystr \<Rightarrow> bool" where
  "ends_with p s \<longleftrightarrow> starts_with (rev p) (rev s)"

lemma starts_with_append [simp]: "starts_with p (p @ s)"
  by (simp add: starts_with_def)

lemma starts_with_iff: "starts_with p s \<longleftrightarrow> (\<exists>t. s = p @ t)"
  by (metis append_eq_conv_conj append_take_drop_id starts_with_append starts_with_def)

lemma ends_with_append [simp]: "ends_with p (s @ p)"
  by (simp add: ends_with_def)

text \<open>\<open>s.strip(chars)\<close>: drop the characters of \<open>cs\<close> at both ends.\<close>

definition lstrip :: "nat list \<Rightarrow> pystr \<Rightarrow> pystr" where
  "lstrip cs s = dropWhile (\<lambda>c. c \<in> set cs) s"

definition strip :: "nat list \<Rightarrow> pystr \<Rightarrow> pystr" where
  "strip cs s = rev (lstrip cs (rev (lstrip cs s)))"

lemma dropWhile_twice: "dropWhile P (dropWhile P xs) = dropWhile P xs"
  by (induction xs) auto

lemma strip_Nil [simp]: "strip cs [] = []"
  by (simp add: strip_def lstrip_def)

lemma strip_eq_Nil: "strip cs s = [] \<longleftrightarrow> set s \<subseteq> set cs"
proof -
  have "set (dropWhile (\<lambda>c. c \<in> set cs) s) \<subseteq> set cs \<longleftrightarrow> set s \<subseteq> set cs"
    by (induction s) auto
  then show ?thesis
    by (auto simp: strip_def lstrip_def dropWhile_eq_Nil_conv)
qed

lemma dropWhile_stops: "dropWhile P xs \<noteq> [] \<Longrightarrow> \<not> P (hd (dropWhile P xs))"
  by (simp add: hd_dropWhile)

lemma strip_idem [simp]: "strip cs (strip cs s) = strip cs s"
proof -
  let ?P = "\<lambda>c. c \<in> set cs"
  define a where "a = dropWhile ?P s"
  define b where "b = rev (dropWhile ?P (rev a))"
  have "dropWhile ?P b = b"
  proof (cases "b = []")
    case False
    have "a = b @ rev (takeWhile ?P (rev a))"
      unfolding b_def by (metis rev_append rev_rev_ident takeWhile_dropWhile_id)
    then obtain z where z: "a = b @ z"
      by blast
    with False have "hd b = hd a" "a \<noteq> []"
      by auto
    moreover have "\<not> ?P (hd a)"
      using dropWhile_stops [of ?P s] \<open>a \<noteq> []\<close> a_def by simp
    ultimately have "\<not> ?P (hd b)"
      by simp
    with False show ?thesis
      by (cases b) auto
  qed auto
  then show ?thesis
    by (simp add: strip_def lstrip_def a_def [symmetric] b_def [symmetric])
       (simp add: b_def dropWhile_twice)
qed

section \<open>Decimal numerals\<close>

text \<open>\<open>str(n)\<close> of an integer, and the value of a run of decimal digits.\<close>

fun nat_str :: "nat \<Rightarrow> pystr" where
  "nat_str n = (if n < 10 then [48 + n] else nat_str (n div 10) @ [48 + n mod 10])"

declare nat_str.simps [simp del]

definition int_str :: "int \<Rightarrow> pystr" where
  "int_str i = (if i < 0 then 45 # nat_str (nat (- i)) else nat_str (nat i))"

definition is_digit :: "nat \<Rightarrow> bool" where
  "is_digit c \<longleftrightarrow> 48 \<le> c \<and> c \<le> 57"

definition digits_val :: "pystr \<Rightarrow> nat" where
  "digits_val s = foldl (\<lambda>a c. 10 * a + (c - 48)) 0 s"

lemma digits_val_snoc: "digits_val (s @ [c]) = 10 * digits_val s + (c - 48)"
  by (simp add: digits_val_def)

lemma digits_val_nat_str [simp]: "digits_val (nat_str n) = n"
proof (induction n rule: nat_str.induct)
  case (1 n)
  show ?case
  proof (cases "n < 10")
    case True
    then show ?thesis by (simp add: nat_str.simps [of n] digits_val_def)
  next
    case False
    with 1 show ?thesis by (subst nat_str.simps) (simp add: digits_val_snoc)
  qed
qed

lemma nat_str_digits: "\<forall>c \<in> set (nat_str n). is_digit c"
proof (induction n rule: nat_str.induct)
  case (1 n)
  show ?case
  proof (cases "n < 10")
    case True
    then show ?thesis by (simp add: nat_str.simps [of n] is_digit_def)
  next
    case False
    moreover have "n mod 10 \<le> 9"
      using mod_less_divisor [of 10 n] by linarith
    ultimately show ?thesis using 1 by (subst nat_str.simps) (auto simp: is_digit_def)
  qed
qed

lemma nat_str_not_Nil [simp]: "nat_str n \<noteq> []"
  by (subst nat_str.simps) simp

lemma nat_str_hd: "n \<noteq> 0 \<Longrightarrow> hd (nat_str n) \<noteq> 48"
proof (induction n rule: nat_str.induct)
  case (1 n)
  show ?case
  proof (cases "n < 10")
    case True
    with 1 show ?thesis by (simp add: nat_str.simps [of n])
  next
    case False
    then have "n div 10 \<noteq> 0" by (simp add: div_eq_0_iff)
    with False 1 show ?thesis by (subst nat_str.simps) simp
  qed
qed

lemma nat_str_0 [simp]: "nat_str 0 = [48]"
  by (simp add: nat_str.simps)

lemma nat_str_inject [simp]: "nat_str m = nat_str n \<longleftrightarrow> m = n"
  by (metis digits_val_nat_str)

section \<open>Exceptions and results\<close>

text \<open>
  An exception is its class and the text \<open>str(exc)\<close> gives. \<open>EnvelopeKeyError\<close> carries its
  \<open>pointer\<close>; \<open>UserError\<close> stands for whatever class a user's handler, a client library or a
  broker raises. The last two are \<open>BaseException\<close>s: an \<open>except Exception\<close> does not catch them.
\<close>

datatype exc_class =
    ValueError | TypeError | RecursionError | OverflowError | AttributeError | UnicodeEncodeError | UnicodeDecodeError
  | BabelQueueError | EnvelopeKeyError pystr | UnknownUrnError | InvalidPayloadError pystr pystr
  | DecryptError | KafkaDeliveryError | UserError pystr
  | KeyboardInterrupt | ShutdownDeadline

datatype exc = Exc (exc_class_of: exc_class) (exc_str: pystr)

definition is_Exception :: "exc \<Rightarrow> bool" where
  "is_Exception e \<longleftrightarrow> exc_class_of e \<noteq> KeyboardInterrupt \<and> exc_class_of e \<noteq> ShutdownDeadline"

text \<open>\<open>type(exc).__name__\<close>.\<close>

fun exc_name :: "exc_class \<Rightarrow> pystr" where
  "exc_name ValueError = u ''ValueError''"
| "exc_name TypeError = u ''TypeError''"
| "exc_name RecursionError = u ''RecursionError''"
| "exc_name OverflowError = u ''OverflowError''"
| "exc_name AttributeError = u ''AttributeError''"
| "exc_name UnicodeEncodeError = u ''UnicodeEncodeError''"
| "exc_name UnicodeDecodeError = u ''UnicodeDecodeError''"
| "exc_name BabelQueueError = u ''BabelQueueError''"
| "exc_name (EnvelopeKeyError p) = u ''EnvelopeKeyError''"
| "exc_name UnknownUrnError = u ''UnknownUrnError''"
| "exc_name (InvalidPayloadError x y) = u ''InvalidPayloadError''"
| "exc_name DecryptError = u ''DecryptError''"
| "exc_name KafkaDeliveryError = u ''KafkaDeliveryError''"
| "exc_name (UserError n) = n"
| "exc_name KeyboardInterrupt = u ''KeyboardInterrupt''"
| "exc_name ShutdownDeadline = u ''_ShutdownDeadline''"

type_synonym 'a res = "exc + 'a"

definition bind_res :: "'a res \<Rightarrow> ('a \<Rightarrow> 'b res) \<Rightarrow> 'b res" where
  "bind_res r f = (case r of Inl e \<Rightarrow> Inl e | Inr x \<Rightarrow> f x)"

lemma bind_res_simps [simp, res_simps]:
  "bind_res (Inl e) f = Inl e" "bind_res (Inr x) f = f x"
  by (simp_all add: bind_res_def)

lemma bind_res_Inr [res_simps]: "bind_res r f = Inr y \<longleftrightarrow> (\<exists>x. r = Inr x \<and> f x = Inr y)"
  by (cases r) auto

lemma bind_res_cong [fundef_cong]:
  "r = r' \<Longrightarrow> (\<And>x. r' = Inr x \<Longrightarrow> f x = g x) \<Longrightarrow> bind_res r f = bind_res r' g"
  by (cases r') auto

text \<open>Evaluate a list of results from the left, stopping at the first exception.\<close>

fun seq_res :: "'a res list \<Rightarrow> 'a list res" where
  "seq_res [] = Inr []"
| "seq_res (r # rs) = bind_res r (\<lambda>x. bind_res (seq_res rs) (\<lambda>xs. Inr (x # xs)))"

lemma seq_res_map_Inr [res_simps]:
  "seq_res (map f xs) = Inr ys \<longleftrightarrow> list_all2 (\<lambda>x y. f x = Inr y) xs ys"
  by (induction xs arbitrary: ys) (auto simp: bind_res_Inr list_all2_Cons1)

section \<open>Dictionaries\<close>

text \<open>
  A Python \<open>dict\<close> keeps the insertion order of its keys: an association list with distinct keys.
  Setting a present key keeps its place, a new key goes last (\<open>AList.update\<close>); \<open>del\<close> removes it.
\<close>

type_synonym 'v dict = "(pystr \<times> 'v) list"

abbreviation dget :: "'v dict \<Rightarrow> pystr \<Rightarrow> 'v option" where
  "dget d k \<equiv> map_of d k"

abbreviation dset :: "pystr \<Rightarrow> 'v \<Rightarrow> 'v dict \<Rightarrow> 'v dict" where
  "dset k v d \<equiv> AList.update k v d"

abbreviation ddel :: "pystr \<Rightarrow> 'v dict \<Rightarrow> 'v dict" where
  "ddel k d \<equiv> AList.delete k d"

definition dhas :: "pystr \<Rightarrow> 'v dict \<Rightarrow> bool" where
  "dhas k d \<longleftrightarrow> map_of d k \<noteq> None"

text \<open>\<open>d.update(e)\<close>, and the dictionary \<open>json\<close> builds from the pairs of an object.\<close>

definition dupdate :: "'v dict \<Rightarrow> 'v dict \<Rightarrow> 'v dict" where
  "dupdate d e = fold (\<lambda>p. dset (fst p) (snd p)) e d"

definition dict_of_pairs :: "(pystr \<times> 'v) list \<Rightarrow> 'v dict" where
  "dict_of_pairs ps = dupdate [] ps"

abbreviation wf_keys :: "'v dict \<Rightarrow> bool" where
  "wf_keys d \<equiv> distinct (map fst d)"

lemma dget_dset [simp, dict_simps]: "dget (dset k v d) k' = (if k' = k then Some v else dget d k')"
  by (simp add: update_conv')

lemma dget_ddel [simp, dict_simps]: "dget (ddel k d) k' = (if k' = k then None else dget d k')"
  by (simp add: AList.delete_conv')

lemma dhas_dset [simp, dict_simps]: "dhas k' (dset k v d) \<longleftrightarrow> k' = k \<or> dhas k' d"
  by (simp add: dhas_def)

lemma dhas_ddel [simp, dict_simps]: "dhas k' (ddel k d) \<longleftrightarrow> k' \<noteq> k \<and> dhas k' d"
  by (simp add: dhas_def)

lemma dhas_keys: "dhas k d \<longleftrightarrow> k \<in> fst ` set d"
  by (simp add: dhas_def map_of_eq_None_iff)

lemma wf_keys_dset [simp]: "wf_keys d \<Longrightarrow> wf_keys (dset k v d)"
  by (simp add: distinct_update)

lemma wf_keys_ddel [simp]: "wf_keys d \<Longrightarrow> wf_keys (ddel k d)"
  by (simp add: distinct_delete)

lemma dset_new: "k \<notin> fst ` set d \<Longrightarrow> dset k v d = d @ [(k, v)]"
  by (induction d) auto

lemma dset_append: "k \<notin> fst ` set d \<Longrightarrow> dset k v (d @ e) = d @ dset k v e"
  by (induction d) auto

lemma ddel_absent: "k \<notin> fst ` set d \<Longrightarrow> ddel k d = d"
  by (simp add: AList.delete_eq filter_id_conv image_iff) fastforce

lemma set_dset: "(k, v) \<in> set (dset a b d) \<Longrightarrow> (k, v) \<in> set d \<or> k = a \<and> v = b"
  by (induction d) (auto split: if_splits)

lemma set_ddel: "(k, v) \<in> set (ddel a d) \<Longrightarrow> (k, v) \<in> set d"
  by (simp add: AList.delete_eq)

lemma set_dupdate: "(k, v) \<in> set (dupdate d e) \<Longrightarrow> (k, v) \<in> set d \<or> (k, v) \<in> set e"
proof (induction e arbitrary: d)
  case (Cons p e)
  with set_dset show ?case
    by (fastforce simp: dupdate_def)
qed (simp add: dupdate_def)

lemma set_dict_of_pairs: "(k, v) \<in> set (dict_of_pairs ps) \<Longrightarrow> (k, v) \<in> set ps"
  unfolding dict_of_pairs_def by (drule set_dupdate) simp

lemma wf_keys_dupdate [simp]: "wf_keys d \<Longrightarrow> wf_keys (dupdate d e)"
  by (induction e arbitrary: d) (auto simp: dupdate_def)

lemma wf_keys_dict_of_pairs [simp]: "wf_keys (dict_of_pairs ps)"
  by (simp add: dict_of_pairs_def)

lemma dupdate_append: "wf_keys (d @ e) \<Longrightarrow> dupdate d e = d @ e"
proof (induction e arbitrary: d)
  case Nil
  then show ?case by (simp add: dupdate_def)
next
  case (Cons p e)
  obtain k v where p: "p = (k, v)" by force
  with Cons.prems have "dset k v d = d @ [(k, v)]"
    by (intro dset_new) auto
  with Cons.IH [of "d @ [(k, v)]"] Cons.prems p show ?case
    by (simp add: dupdate_def)
qed

lemma dict_of_pairs_id [simp]: "wf_keys ps \<Longrightarrow> dict_of_pairs ps = ps"
  by (simp add: dict_of_pairs_def dupdate_append)

lemma dget_dupdate [dict_simps]:
  "wf_keys e \<Longrightarrow> dget (dupdate d e) k = (case dget e k of None \<Rightarrow> dget d k | Some v \<Rightarrow> Some v)"
proof (induction e arbitrary: d)
  case Nil
  then show ?case by (simp add: dupdate_def)
next
  case (Cons p e)
  obtain a b where p: "p = (a, b)" by force
  have "dget (dupdate d (p # e)) k = dget (dupdate (dset a b d) e) k"
    by (simp add: dupdate_def p)
  also have "\<dots> = (case dget e k of None \<Rightarrow> dget (dset a b d) k | Some v \<Rightarrow> Some v)"
    using Cons by simp
  finally have unfolded: "dget (dupdate d (p # e)) k = (case dget e k of None \<Rightarrow> dget (dset a b d) k | Some v \<Rightarrow> Some v)" .
  show ?case
  proof (cases "k = a")
    case True
    with Cons.prems p have "dget e k = None" by (simp add: map_of_eq_None_iff)
    with True p unfolded show ?thesis by simp
  next
    case False
    with p unfolded show ?thesis by (simp split: option.splits)
  qed
qed

end
