(* ===== verification/Effects.thy ===== *)
theory Effects
  imports Prelude
begin

text \<open>
  Operations that read and change a state and may raise: the shape of every method of the runtime,
  the transports and the stores. Sequencing stops at the first exception; \<open>catch_exc\<close> is
  \<open>except Exception\<close> (a \<open>BaseException\<close> passes through it), \<open>finally_op\<close> is \<open>finally\<close>. Total and
  partial correctness of such operations is stated with \<open>valid\<close>, one rule per construct.
\<close>

type_synonym ('s, 'a) op = "'s \<Rightarrow> 'a res \<times> 's"

definition ret :: "'a \<Rightarrow> ('s, 'a) op" where
  "ret x = (\<lambda>s. (Inr x, s))"

definition raise_op :: "exc \<Rightarrow> ('s, 'a) op" where
  "raise_op e = (\<lambda>s. (Inl e, s))"

definition lift_res :: "'a res \<Rightarrow> ('s, 'a) op" where
  "lift_res r = (\<lambda>s. (r, s))"

definition bind_op :: "('s, 'a) op \<Rightarrow> ('a \<Rightarrow> ('s, 'b) op) \<Rightarrow> ('s, 'b) op" where
  "bind_op m f = (\<lambda>s. case m s of (Inl e, s') \<Rightarrow> (Inl e, s') | (Inr x, s') \<Rightarrow> f x s')"

definition then_op :: "('s, 'a) op \<Rightarrow> ('s, 'b) op \<Rightarrow> ('s, 'b) op" where
  "then_op m k = bind_op m (\<lambda>x. k)"

definition modify :: "('s \<Rightarrow> 's) \<Rightarrow> ('s, unit) op" where
  "modify f = (\<lambda>s. (Inr (), f s))"

definition catch_exc :: "('s, 'a) op \<Rightarrow> (exc \<Rightarrow> ('s, 'a) op) \<Rightarrow> ('s, 'a) op" where
  "catch_exc m h =
     (\<lambda>s. case m s of
            (Inl e, s') \<Rightarrow> if is_Exception e then h e s' else (Inl e, s')
          | (Inr x, s') \<Rightarrow> (Inr x, s'))"

definition finally_op :: "('s, 'a) op \<Rightarrow> ('s \<Rightarrow> 's) \<Rightarrow> ('s, 'a) op" where
  "finally_op m f = (\<lambda>s. case m s of (r, s') \<Rightarrow> (r, f s'))"

text \<open>\<open>m\<close> from a state of \<open>P\<close> ends in \<open>Q\<close> when it returns and in \<open>E\<close> when it raises.\<close>

definition valid :: "('s \<Rightarrow> bool) \<Rightarrow> ('s, 'a) op \<Rightarrow> ('a \<Rightarrow> 's \<Rightarrow> bool) \<Rightarrow> (exc \<Rightarrow> 's \<Rightarrow> bool) \<Rightarrow> bool" where
  "valid P m Q E \<longleftrightarrow>
     (\<forall>s. P s \<longrightarrow> (case m s of (Inl e, s') \<Rightarrow> E e s' | (Inr x, s') \<Rightarrow> Q x s'))"

named_theorems op_rules "one rule per construct of an operation"

lemma valid_ret [op_rules]: "(\<And>s. P s \<Longrightarrow> Q x s) \<Longrightarrow> valid P (ret x) Q E"
  by (simp add: valid_def ret_def)

lemma valid_raise [op_rules]: "(\<And>s. P s \<Longrightarrow> E e s) \<Longrightarrow> valid P (raise_op e) Q E"
  by (simp add: valid_def raise_op_def)

lemma valid_lift:
  "(\<And>s x. P s \<Longrightarrow> r = Inr x \<Longrightarrow> Q x s) \<Longrightarrow> (\<And>s e. P s \<Longrightarrow> r = Inl e \<Longrightarrow> E e s) \<Longrightarrow> valid P (lift_res r) Q E"
  by (auto simp: valid_def lift_res_def split: sum.splits)

lemma valid_modify [op_rules]: "(\<And>s. P s \<Longrightarrow> Q () (f s)) \<Longrightarrow> valid P (modify f) Q E"
  by (simp add: valid_def modify_def)

lemma valid_bind:
  "valid P m R E \<Longrightarrow> (\<And>x. valid (R x) (f x) Q E) \<Longrightarrow> valid P (bind_op m f) Q E"
  by (fastforce simp: valid_def bind_op_def split: prod.splits sum.splits)

lemma valid_then:
  "valid P m (\<lambda>x. R) E \<Longrightarrow> valid R k Q E \<Longrightarrow> valid P (then_op m k) Q E"
  by (simp add: then_op_def valid_bind [where R = "\<lambda>x. R"])

lemma valid_catch:
  "valid P m Q F \<Longrightarrow> (\<And>e. is_Exception e \<Longrightarrow> valid (F e) (h e) Q E) \<Longrightarrow>
     (\<And>e s. \<not> is_Exception e \<Longrightarrow> F e s \<Longrightarrow> E e s) \<Longrightarrow> valid P (catch_exc m h) Q E"
  by (fastforce simp: valid_def catch_exc_def split: prod.splits sum.splits)

lemma valid_finally:
  "valid P m (\<lambda>x s. Q x (f s)) (\<lambda>e s. E e (f s)) \<Longrightarrow> valid P (finally_op m f) Q E"
  by (fastforce simp: valid_def finally_op_def split: prod.splits sum.splits)

lemma valid_weaken:
  "valid P m Q E \<Longrightarrow> (\<And>s. P' s \<Longrightarrow> P s) \<Longrightarrow> (\<And>x s. Q x s \<Longrightarrow> Q' x s) \<Longrightarrow> (\<And>e s. E e s \<Longrightarrow> E' e s) \<Longrightarrow>
     valid P' m Q' E'"
  by (fastforce simp: valid_def split: prod.splits sum.splits)

lemma valid_assume: "(C \<Longrightarrow> valid P m Q E) \<Longrightarrow> valid (\<lambda>s. C \<and> P s) m Q E"
  by (auto simp: valid_def)

lemma valid_if:
  "(c \<Longrightarrow> valid P m Q E) \<Longrightarrow> (\<not> c \<Longrightarrow> valid P k Q E) \<Longrightarrow> valid P (if c then m else k) Q E"
  by simp

lemma validD:
  "valid P m Q E \<Longrightarrow> P s \<Longrightarrow> m s = (Inr x, s') \<Longrightarrow> Q x s'"
  "valid P m Q E \<Longrightarrow> P s \<Longrightarrow> m s = (Inl e, s') \<Longrightarrow> E e s'"
  by (fastforce simp: valid_def)+

end
