(* ===== verification/PyValue.thy ===== *)
theory PyValue
  imports Prelude
begin

text \<open>
  Python values as the program handles them: \<open>None\<close>, booleans, unbounded integers, IEEE-754
  doubles, strings, lists and dictionaries with string keys, plus \<open>POther\<close> for any other object
  (one \<open>json\<close> cannot serialise). Doubles are modelled exactly: correctly rounded decimal
  conversion and the shortest representation \<open>float.__repr__\<close> prints.
\<close>

section \<open>Doubles\<close>

text \<open>\<open>FFin s m e\<close> is \<open>(-1)^s * m * 2^e\<close>, with \<open>m < 2^53\<close> and \<open>e\<close> at least \<open>-1074\<close>.\<close>

datatype pyfloat = FNan | FInf bool | FFin bool nat int

fun bitlen :: "nat \<Rightarrow> nat" where
  "bitlen n = (if n = 0 then 0 else Suc (bitlen (n div 2)))"

declare bitlen.simps [simp del]

text \<open>Division rounded to the nearest integer, ties to even.\<close>

definition round_div :: "nat \<Rightarrow> nat \<Rightarrow> nat" where
  "round_div n d =
     (let q = n div d; r = n mod d
      in if d < 2 * r \<or> (2 * r = d \<and> odd q) then Suc q else q)"

definition scale_div :: "nat \<Rightarrow> nat \<Rightarrow> nat \<Rightarrow> int \<Rightarrow> nat" where
  "scale_div b n d e =
     (if 0 \<le> e then round_div n (d * b ^ nat e) else round_div (n * b ^ nat (- e)) d)"

text \<open>The double nearest to \<open>n / d\<close>, with the sign \<open>s\<close>; infinity when it is out of range.\<close>

definition round_ratio :: "bool \<Rightarrow> nat \<Rightarrow> nat \<Rightarrow> pyfloat" where
  "round_ratio s n d =
     (if n = 0 then FFin s 0 (- 1074)
      else let e0 = max (int (bitlen n) - int (bitlen d) - 53) (- 1074);
               fits = (if 0 \<le> e0 then n < d * 2 ^ nat e0 * 2 ^ 53 else n * 2 ^ nat (- e0) < d * 2 ^ 53);
               e = (if fits then e0 else e0 + 1);
               m = scale_div 2 n d e;
               m' = (if m = 2 ^ 53 then 2 ^ 52 else m);
               e' = (if m = 2 ^ 53 then e + 1 else e)
           in if 971 < e' then FInf s else FFin s m' e')"

text \<open>\<open>float(i)\<close> of an integer raises \<open>OverflowError\<close> out of range.\<close>

definition float_of_int :: "int \<Rightarrow> pyfloat res" where
  "float_of_int i =
     (case round_ratio (i < 0) (nat \<bar>i\<bar>) 1 of
        FInf s \<Rightarrow> Inl (Exc OverflowError (u ''int too large to convert to float''))
      | f \<Rightarrow> Inr f)"

definition float_isfinite :: "pyfloat \<Rightarrow> bool" where
  "float_isfinite f = (case f of FFin s m e \<Rightarrow> True | _ \<Rightarrow> False)"

text \<open>\<open>int(f)\<close> truncates towards zero; infinities and NaN raise.\<close>

definition trunc_mag :: "nat \<Rightarrow> int \<Rightarrow> nat" where
  "trunc_mag m e = (if 0 \<le> e then m * 2 ^ nat e else m div 2 ^ nat (- e))"

fun int_of_float :: "pyfloat \<Rightarrow> int res" where
  "int_of_float FNan = Inl (Exc ValueError (u ''cannot convert float NaN to integer''))"
| "int_of_float (FInf s) = Inl (Exc OverflowError (u ''cannot convert float infinity to integer''))"
| "int_of_float (FFin s m e) = Inr (if s then - int (trunc_mag m e) else int (trunc_mag m e))"

fun float_is_integer :: "pyfloat \<Rightarrow> bool" where
  "float_is_integer (FFin s m e) = (0 \<le> e \<or> m mod 2 ^ nat (- e) = 0)"
| "float_is_integer f = False"

text \<open>Order and equality of doubles (\<open>NaN\<close> compares false, the two zeros are equal).\<close>

definition signed_mant :: "bool \<Rightarrow> nat \<Rightarrow> int" where
  "signed_mant s m = (if s then - int m else int m)"

definition cmp_scaled :: "(int \<Rightarrow> int \<Rightarrow> bool) \<Rightarrow> bool \<Rightarrow> nat \<Rightarrow> int \<Rightarrow> bool \<Rightarrow> nat \<Rightarrow> int \<Rightarrow> bool" where
  "cmp_scaled r s m e t n f =
     (let g = min e f
      in r (signed_mant s m * 2 ^ nat (e - g)) (signed_mant t n * 2 ^ nat (f - g)))"

fun float_less :: "pyfloat \<Rightarrow> pyfloat \<Rightarrow> bool" where
  "float_less FNan g = False"
| "float_less f FNan = False"
| "float_less (FInf s) (FInf t) = (s \<and> \<not> t)"
| "float_less (FInf s) (FFin t n f) = s"
| "float_less (FFin s m e) (FInf t) = (\<not> t)"
| "float_less (FFin s m e) (FFin t n f) = cmp_scaled (<) s m e t n f"

fun float_eq :: "pyfloat \<Rightarrow> pyfloat \<Rightarrow> bool" where
  "float_eq (FInf s) (FInf t) = (s = t)"
| "float_eq (FFin s m e) (FFin t n f) = cmp_scaled (=) s m e t n f"
| "float_eq f g = False"

definition float_eq_int :: "pyfloat \<Rightarrow> int \<Rightarrow> bool" where
  "float_eq_int f i = (case f of FFin s m e \<Rightarrow> cmp_scaled (=) s m e (i < 0) (nat \<bar>i\<bar>) 0 | _ \<Rightarrow> False)"

section \<open>Decimal text of doubles\<close>

text \<open>The sign, the integer digits, the fraction digits and the exponent of a float literal.\<close>

definition scan_sign :: "pystr \<Rightarrow> bool \<times> pystr" where
  "scan_sign s = (case s of [] \<Rightarrow> (False, s) | c # cs \<Rightarrow> if c = 45 then (True, cs) else (False, s))"

definition frac_part :: "pystr \<Rightarrow> pystr" where
  "frac_part s = (case s of [] \<Rightarrow> [] | c # cs \<Rightarrow> if c = 46 then takeWhile is_digit cs else [])"

definition exp_part :: "pystr \<Rightarrow> int" where
  "exp_part s =
     (case s of
        [] \<Rightarrow> 0
      | c # cs \<Rightarrow>
          if c = 101 \<or> c = 69
          then (case cs of
                  [] \<Rightarrow> 0
                | d # ds \<Rightarrow> if d = 45 then - int (digits_val ds)
                           else if d = 43 then int (digits_val ds)
                           else int (digits_val cs))
          else 0)"

definition float_of_decimal :: "bool \<Rightarrow> nat \<Rightarrow> int \<Rightarrow> pyfloat" where
  "float_of_decimal s d p =
     (if 0 \<le> p then round_ratio s (d * 10 ^ nat p) 1 else round_ratio s d (10 ^ nat (- p)))"

definition float_of_literal :: "pystr \<Rightarrow> pyfloat" where
  "float_of_literal lit =
     (let (s, r) = scan_sign lit;
          ip = takeWhile is_digit r;
          r' = dropWhile is_digit r;
          fp = frac_part r';
          r'' = (if r' \<noteq> [] \<and> hd r' = 46 then dropWhile is_digit (tl r') else r')
      in float_of_decimal s (digits_val (ip @ fp)) (exp_part r'' - int (length fp)))"

text \<open>
  \<open>float.__repr__\<close>: the shortest decimal (1 to 17 significant digits) that rounds back to the
  double, in fixed notation for exponents between \<open>-4\<close> and \<open>15\<close>, else in scientific notation.
\<close>

definition ratio_of :: "nat \<Rightarrow> int \<Rightarrow> nat \<times> nat" where
  "ratio_of m e = (if 0 \<le> e then (m * 2 ^ nat e, 1) else (m, 2 ^ nat (- e)))"

definition dec_expo :: "nat \<Rightarrow> nat \<Rightarrow> int" where
  "dec_expo n d =
     (let g = int (length (nat_str n)) - int (length (nat_str d))
      in if (if 0 \<le> g then d * 10 ^ nat g \<le> n else d \<le> n * 10 ^ nat (- g)) then g else g - 1)"

definition dec_digits :: "nat \<Rightarrow> nat \<Rightarrow> int \<Rightarrow> nat \<times> int" where
  "dec_digits k m e =
     (let (n, d) = ratio_of m e;
          q = dec_expo n d - int k + 1;
          x = scale_div 10 n d q
      in if x = 10 ^ k then (10 ^ (k - 1), q + 1) else (x, q))"

definition shortest :: "nat \<Rightarrow> int \<Rightarrow> nat \<times> int" where
  "shortest m e =
     (case find (\<lambda>k. let (x, q) = dec_digits k m e in float_of_decimal False x q = FFin False m e) [1..<17] of
        Some k \<Rightarrow> dec_digits k m e
      | None \<Rightarrow> dec_digits 17 m e)"

definition exp_str :: "int \<Rightarrow> pystr" where
  "exp_str p =
     (if p < 0 then [45] else [43]) @
     (if \<bar>p\<bar> < 10 then 48 # nat_str (nat \<bar>p\<bar>) else nat_str (nat \<bar>p\<bar>))"

definition mag_repr :: "nat \<Rightarrow> int \<Rightarrow> pystr" where
  "mag_repr x q =
     (let ds = nat_str x; n = length ds; p = int n + q
      in if p \<le> - 4 \<or> 16 < p
         then hd ds # (if tl ds = [] then [] else 46 # tl ds) @ [101] @ exp_str (p - 1)
         else if p \<le> 0 then [48, 46] @ replicate (nat (- p)) 48 @ ds
         else if int n \<le> p then ds @ replicate (nat p - n) 48 @ [46, 48]
         else take (nat p) ds @ [46] @ drop (nat p) ds)"

fun float_repr :: "pyfloat \<Rightarrow> pystr" where
  "float_repr FNan = u ''nan''"
| "float_repr (FInf s) = (if s then u ''-inf'' else u ''inf'')"
| "float_repr (FFin s m e) =
     (if s then [45] else []) @
     (if m = 0 then [48, 46, 48] else (let (x, q) = shortest m e in mag_repr x q))"

section \<open>Values\<close>

datatype pyval =
    PNone
  | PBool bool
  | PInt int
  | PFloat pyfloat
  | PStr pystr
  | PList "pyval list"
  | PDict "(pystr \<times> pyval) list"
  | POther nat

text \<open>Truthiness, \<open>isinstance\<close> tests and \<open>d.get(k)\<close> with its default \<open>None\<close>.\<close>

fun truthy :: "pyval \<Rightarrow> bool" where
  "truthy PNone = False"
| "truthy (PBool b) = b"
| "truthy (PInt i) = (i \<noteq> 0)"
| "truthy (PFloat f) = (case f of FFin s m e \<Rightarrow> m \<noteq> 0 | _ \<Rightarrow> True)"
| "truthy (PStr s) = (s \<noteq> [])"
| "truthy (PList xs) = (xs \<noteq> [])"
| "truthy (PDict d) = (d \<noteq> [])"
| "truthy (POther n) = True"

fun as_dict :: "pyval option \<Rightarrow> pyval dict option" where
  "as_dict (Some (PDict d)) = Some d"
| "as_dict v = None"

fun as_str :: "pyval option \<Rightarrow> pystr option" where
  "as_str (Some (PStr s)) = Some s"
| "as_str v = None"

text \<open>\<open>isinstance(v, int) and not isinstance(v, bool)\<close>.\<close>

fun as_int :: "pyval option \<Rightarrow> int option" where
  "as_int (Some (PInt i)) = Some i"
| "as_int v = None"

definition get_or_none :: "pyval dict \<Rightarrow> pystr \<Rightarrow> pyval" where
  "get_or_none d k = (case dget d k of None \<Rightarrow> PNone | Some v \<Rightarrow> v)"

lemma as_dict_Some [simp]: "as_dict v = Some d \<longleftrightarrow> v = Some (PDict d)"
  by (cases v rule: as_dict.cases) auto

lemma as_str_Some [simp]: "as_str v = Some s \<longleftrightarrow> v = Some (PStr s)"
  by (cases v rule: as_str.cases) auto

lemma as_int_Some [simp]: "as_int v = Some i \<longleftrightarrow> v = Some (PInt i)"
  by (cases v rule: as_int.cases) auto

text \<open>Python's \<open>v == n\<close> for an integer \<open>n\<close>: \<open>True == 1\<close> and \<open>1.0 == 1\<close>.\<close>

fun py_eq_int :: "pyval \<Rightarrow> int \<Rightarrow> bool" where
  "py_eq_int (PInt i) n = (i = n)"
| "py_eq_int (PBool b) n = ((if b then 1 else 0) = n)"
| "py_eq_int (PFloat f) n = float_eq_int f n"
| "py_eq_int v n = False"

text \<open>
  \<open>int(v)\<close>. A string is an optional sign and decimal digits (single underscores allowed between
  digits) between white space; only ASCII digits are modelled. Text of more than 4300 digits is
  refused, as by the interpreter's default limit.
\<close>

definition py_whitespace :: "nat list" where
  "py_whitespace = [9, 10, 11, 12, 13, 28, 29, 30, 31, 32, 133, 160, 5760] @ [8192..<8203]
     @ [8232, 8233, 8239, 8287, 12288]"

definition int_max_str_digits :: nat where
  "int_max_str_digits = 4300"

fun underscores_ok :: "bool \<Rightarrow> pystr \<Rightarrow> bool" where
  "underscores_ok after_digit [] = after_digit"
| "underscores_ok after_digit (c # cs) =
     (if c = 95 then after_digit \<and> underscores_ok False cs else is_digit c \<and> underscores_ok True cs)"

definition int_of_str :: "pystr \<Rightarrow> int res" where
  "int_of_str s =
     (let t = strip py_whitespace s;
          neg = (t \<noteq> [] \<and> hd t = 45);
          body = (if t \<noteq> [] \<and> (hd t = 45 \<or> hd t = 43) then tl t else t);
          ds = filter is_digit body
      in if underscores_ok False body \<and> length ds \<le> int_max_str_digits
         then Inr (if neg then - int (digits_val ds) else int (digits_val ds))
         else Inl (Exc ValueError (u ''invalid literal for int() with base 10'')))"

fun py_int :: "pyval \<Rightarrow> int res" where
  "py_int (PInt i) = Inr i"
| "py_int (PBool b) = Inr (if b then 1 else 0)"
| "py_int (PFloat f) = int_of_float f"
| "py_int (PStr s) = int_of_str s"
| "py_int v = Inl (Exc TypeError (u ''int() argument must be a string, a bytes-like object or a real number''))"

text \<open>Well-formed values: every dictionary in them has distinct keys.\<close>

fun wf_val :: "pyval \<Rightarrow> bool" where
  "wf_val (PList xs) = (\<forall>x \<in> set xs. wf_val x)"
| "wf_val (PDict d) = (wf_keys d \<and> (\<forall>p \<in> set d. wf_val (snd p)))"
| "wf_val v = True"

end
