(* ===== verification/Json.thy ===== *)
theory Json
  imports PyValue
begin

text \<open>
  The \<open>json\<close> module as the program uses it: \<open>loads\<close> with its hooks (\<open>object_pairs_hook\<close>,
  \<open>parse_int\<close>, \<open>parse_constant\<close>) and \<open>dumps\<close> with \<open>ensure_ascii=False\<close> and compact
  separators, over code point lists. Recursion is bounded as in CPython: a container nested deeper
  than \<open>max_nesting\<close> raises \<open>RecursionError\<close>. The main result is that \<open>loads\<close> reads back
  whatever \<open>dumps\<close> writes.
\<close>

section \<open>Scanning\<close>

definition max_nesting :: nat where
  "max_nesting = 1000"

definition json_error :: "string \<Rightarrow> 'a res" where
  "json_error msg = Inl (Exc ValueError (u msg))"

definition recursion_error :: "string \<Rightarrow> 'a res" where
  "recursion_error msg = Inl (Exc RecursionError (u msg))"

definition is_ws :: "nat \<Rightarrow> bool" where
  "is_ws c \<longleftrightarrow> c = 32 \<or> c = 9 \<or> c = 10 \<or> c = 13"

definition skip_ws :: "pystr \<Rightarrow> pystr" where
  "skip_ws s = dropWhile is_ws s"

lemma length_skip_ws [simp]: "length (skip_ws s) \<le> length s"
  by (simp add: skip_ws_def length_dropWhile_le)

definition hex_val :: "nat \<Rightarrow> nat option" where
  "hex_val c =
     (if 48 \<le> c \<and> c \<le> 57 then Some (c - 48)
      else if 97 \<le> c \<and> c \<le> 102 then Some (c - 87)
      else if 65 \<le> c \<and> c \<le> 70 then Some (c - 55)
      else None)"

definition hex4 :: "pystr \<Rightarrow> (nat \<times> pystr) option" where
  "hex4 s =
     (if length s < 4 \<or> list_ex (\<lambda>c. hex_val c = None) (take 4 s) then None
      else Some (foldl (\<lambda>a c. 16 * a + the (hex_val c)) 0 (take 4 s), drop 4 s))"

definition is_high :: "nat \<Rightarrow> bool" where
  "is_high c \<longleftrightarrow> 0xD800 \<le> c \<and> c \<le> 0xDBFF"

definition is_low :: "nat \<Rightarrow> bool" where
  "is_low c \<longleftrightarrow> 0xDC00 \<le> c \<and> c \<le> 0xDFFF"

text \<open>One escape, after its backslash: the character and the remaining text.\<close>

definition scan_u :: "pystr \<Rightarrow> (nat \<times> pystr) option" where
  "scan_u s =
     (case hex4 s of
        None \<Rightarrow> None
      | Some (x, r) \<Rightarrow>
          if is_high x \<and> starts_with [92, 117] r
          then (case hex4 (drop 2 r) of
                  None \<Rightarrow> None
                | Some (y, r') \<Rightarrow>
                    if is_low y then Some (0x10000 + (x - 0xD800) * 0x400 + (y - 0xDC00), r')
                    else Some (x, r))
          else Some (x, r))"

definition scan_escape :: "pystr \<Rightarrow> (nat \<times> pystr) option" where
  "scan_escape s =
     (case s of
        [] \<Rightarrow> None
      | c # cs \<Rightarrow>
          if c = 34 \<or> c = 92 \<or> c = 47 then Some (c, cs)
          else if c = 98 then Some (8, cs)
          else if c = 102 then Some (12, cs)
          else if c = 110 then Some (10, cs)
          else if c = 114 then Some (13, cs)
          else if c = 116 then Some (9, cs)
          else if c = 117 then scan_u cs
          else None)"

lemma hex4_length: "hex4 s = Some (x, r) \<Longrightarrow> length r < length s"
  by (auto simp: hex4_def split: if_splits)

lemma scan_u_length: "scan_u s = Some (x, r) \<Longrightarrow> length r < length s"
  by (auto simp: scan_u_def split: option.splits if_splits dest!: hex4_length)

lemma scan_escape_length: "scan_escape s = Some (x, r) \<Longrightarrow> length r < length s"
  by (auto simp: scan_escape_def split: list.splits if_splits dest: scan_u_length)

text \<open>The characters of a string up to its closing quote (strict: no control characters).\<close>

function scan_str :: "pystr \<Rightarrow> (pystr \<times> pystr) option" where
  "scan_str s =
     (case s of
        [] \<Rightarrow> None
      | c # cs \<Rightarrow>
          if c = 34 then Some ([], cs)
          else if c = 92
          then (case scan_escape cs of
                  None \<Rightarrow> None
                | Some (x, r) \<Rightarrow> (case scan_str r of None \<Rightarrow> None | Some (t, r') \<Rightarrow> Some (x # t, r')))
          else if c < 32 then None
          else (case scan_str cs of None \<Rightarrow> None | Some (t, r') \<Rightarrow> Some (c # t, r')))"
  by pat_completeness auto
termination
  by (relation "measure length") (auto dest: scan_escape_length)

declare scan_str.simps [simp del]

lemma scan_str_length: "scan_str s = Some (t, r) \<Longrightarrow> length r < length s"
proof (induction s arbitrary: t r rule: scan_str.induct)
  case (1 s)
  show ?case
  proof (cases s)
    case Nil
    with "1.prems" show ?thesis by (simp add: scan_str.simps)
  next
    case (Cons c cs)
    note s = this
    consider "c = 34" | "c = 92" | "c \<noteq> 34" "c \<noteq> 92" by blast
    then show ?thesis
    proof cases
      case 1
      with "1.prems" s show ?thesis by (subst (asm) scan_str.simps) simp
    next
      case 2
      with "1.prems" s obtain x r1 t1 where e: "scan_escape cs = Some (x, r1)"
          and r: "scan_str r1 = Some (t1, r)"
        by (subst (asm) scan_str.simps) (auto split: option.splits)
      from "1.IH"(1) [OF s _ _ e refl r] 2 scan_escape_length [OF e] s show ?thesis
        by simp
    next
      case 3
      with "1.prems" s obtain t1 where r: "scan_str cs = Some (t1, r)" "\<not> c < 32"
        by (subst (asm) scan_str.simps) (auto split: option.splits if_splits)
      from "1.IH"(2) [OF s _ _ _ r(1)] 3 r(2) s show ?thesis
        by simp
    qed
  qed
qed

text \<open>Numbers: an integer part, an optional fraction and an optional exponent.\<close>

definition scan_int :: "pystr \<Rightarrow> (pystr \<times> pystr) option" where
  "scan_int s =
     (let (neg, r) = scan_sign s; pre = (if neg then [45] else [])
      in case r of
           [] \<Rightarrow> None
         | c # cs \<Rightarrow>
             if c = 48 then Some (pre @ [48], cs)
             else if is_digit c then Some (pre @ takeWhile is_digit r, dropWhile is_digit r)
             else None)"

definition scan_frac :: "pystr \<Rightarrow> pystr \<times> pystr" where
  "scan_frac s =
     (if starts_with [46] s \<and> takeWhile is_digit (drop 1 s) \<noteq> []
      then (46 # takeWhile is_digit (drop 1 s), dropWhile is_digit (drop 1 s))
      else ([], s))"

definition scan_exp :: "pystr \<Rightarrow> pystr \<times> pystr" where
  "scan_exp s =
     (case s of
        [] \<Rightarrow> ([], s)
      | c # cs \<Rightarrow>
          if c = 101 \<or> c = 69
          then (let sg = (if starts_with [43] cs \<or> starts_with [45] cs then take 1 cs else []);
                    r = drop (length sg) cs
                in if takeWhile is_digit r \<noteq> []
                   then (c # sg @ takeWhile is_digit r, dropWhile is_digit r) else ([], s))
          else ([], s))"

text \<open>Whether the number is an integer, its text, and the remaining text.\<close>

definition scan_num :: "pystr \<Rightarrow> (bool \<times> pystr \<times> pystr) option" where
  "scan_num s =
     (case scan_int s of
        None \<Rightarrow> None
      | Some (i, r) \<Rightarrow>
          let (f, r1) = scan_frac r; (e, r2) = scan_exp r1
          in Some (f = [] \<and> e = [], i @ f @ e, r2))"

section \<open>Parsing\<close>

text \<open>What the decoder builds, hook by hook.\<close>

record 'v hooks =
  h_null :: 'v
  h_bool :: "bool \<Rightarrow> 'v"
  h_int :: "pystr \<Rightarrow> 'v res"
  h_float :: "pystr \<Rightarrow> 'v"
  h_const :: "pystr \<Rightarrow> 'v res"
  h_str :: "pystr \<Rightarrow> 'v"
  h_arr :: "'v list \<Rightarrow> 'v"
  h_obj :: "(pystr \<times> 'v) list \<Rightarrow> 'v"

text \<open>Everything but containers; \<open>None\<close> when the text opens one.\<close>

definition parse_atom :: "('v, 'z) hooks_scheme \<Rightarrow> pystr \<Rightarrow> ('v \<times> pystr) res" where
  "parse_atom H s =
     (if starts_with [34] s
      then (case scan_str (drop 1 s) of
              None \<Rightarrow> json_error ''Invalid string''
            | Some (t, r) \<Rightarrow> Inr (h_str H t, r))
      else if starts_with (u ''null'') s then Inr (h_null H, drop 4 s)
      else if starts_with (u ''true'') s then Inr (h_bool H True, drop 4 s)
      else if starts_with (u ''false'') s then Inr (h_bool H False, drop 5 s)
      else if starts_with (u ''NaN'') s then bind_res (h_const H (u ''NaN'')) (\<lambda>v. Inr (v, drop 3 s))
      else if starts_with (u ''Infinity'') s
      then bind_res (h_const H (u ''Infinity'')) (\<lambda>v. Inr (v, drop 8 s))
      else if starts_with (u ''-Infinity'') s
      then bind_res (h_const H (u ''-Infinity'')) (\<lambda>v. Inr (v, drop 9 s))
      else case scan_num s of
             None \<Rightarrow> json_error ''Expecting value''
           | Some (is_int, lit, r) \<Rightarrow>
               if is_int then bind_res (h_int H lit) (\<lambda>v. Inr (v, r)) else Inr (h_float H lit, r))"

text \<open>
  The decoder proper. The guards comparing lengths always hold (\<open>parse_shorter\<close> below); they make
  the termination of the two loops evident.
\<close>

function parse_val :: "('v, 'z) hooks_scheme \<Rightarrow> nat \<Rightarrow> pystr \<Rightarrow> ('v \<times> pystr) res"
  and parse_elems :: "('v, 'z) hooks_scheme \<Rightarrow> nat \<Rightarrow> pystr \<Rightarrow> ('v list \<times> pystr) res"
  and parse_members :: "('v, 'z) hooks_scheme \<Rightarrow> nat \<Rightarrow> pystr \<Rightarrow> ((pystr \<times> 'v) list \<times> pystr) res"
where
  "parse_val H d s =
     (if starts_with [123] s
      then (if d = 0 then recursion_error ''maximum recursion depth exceeded''
            else let r = skip_ws (drop 1 s)
                 in if starts_with [125] r then Inr (h_obj H [], drop 1 r)
                    else bind_res (parse_members H (d - 1) r) (\<lambda>(ps, r'). Inr (h_obj H ps, r')))
      else if starts_with [91] s
      then (if d = 0 then recursion_error ''maximum recursion depth exceeded''
            else let r = skip_ws (drop 1 s)
                 in if starts_with [93] r then Inr (h_arr H [], drop 1 r)
                    else bind_res (parse_elems H (d - 1) r) (\<lambda>(vs, r'). Inr (h_arr H vs, r')))
      else parse_atom H s)"
| "parse_elems H d s =
     bind_res (parse_val H d s) (\<lambda>(v, r).
       let r1 = skip_ws r
       in if starts_with [93] r1 then Inr ([v], drop 1 r1)
          else if starts_with [44] r1
          then (let r2 = skip_ws (drop 1 r1)
                in if length r2 < length s
                   then bind_res (parse_elems H d r2) (\<lambda>(vs, r3). Inr (v # vs, r3))
                   else json_error ''unreachable'')
          else json_error ''Expecting , delimiter'')"
| "parse_members H d s =
     (if starts_with [34] s
      then (case scan_str (drop 1 s) of
              None \<Rightarrow> json_error ''Invalid string''
            | Some (k, r) \<Rightarrow>
                let r1 = skip_ws r
                in if starts_with [58] r1
                   then bind_res (parse_val H d (skip_ws (drop 1 r1))) (\<lambda>(v, r2).
                          let r3 = skip_ws r2
                          in if starts_with [125] r3 then Inr ([(k, v)], drop 1 r3)
                             else if starts_with [44] r3
                             then (let r4 = skip_ws (drop 1 r3)
                                   in if length r4 < length s
                                      then bind_res (parse_members H d r4) (\<lambda>(ps, r5). Inr ((k, v) # ps, r5))
                                      else json_error ''unreachable'')
                             else json_error ''Expecting , delimiter'')
                   else json_error ''Expecting : delimiter'')
      else json_error ''Expecting property name enclosed in double quotes'')"
  by pat_completeness auto

lemma starts_with_length: "starts_with (c # p) s \<Longrightarrow> length (skip_ws (drop (Suc 0) s)) < length s"
  by (cases s) (auto simp: starts_with_def intro: le_imp_less_Suc)

termination parse_val
proof (relation "measures [\<lambda>x. case x of Inl (H, d, s) \<Rightarrow> length s
                            | Inr (Inl (H, d, s)) \<Rightarrow> length s | Inr (Inr (H, d, s)) \<Rightarrow> length s,
                           \<lambda>x. case x of Inl _ \<Rightarrow> 0 | Inr _ \<Rightarrow> 1]", goal_cases)
  case (6 H d s x k r r1)
  then have "length r1 \<le> length r" "length (skip_ws (drop 1 r1)) < length r1" "length r < length (drop 1 s)"
    using starts_with_length [of 58 "[]" r1] scan_str_length [of "drop 1 s" k r] by auto
  then have "length (skip_ws (drop (Suc 0) r1)) < length s"
    by simp
  then show ?case by simp
qed (auto dest: starts_with_length)

declare parse_val.simps [simp del] parse_elems.simps [simp del] parse_members.simps [simp del]

text \<open>\<open>json.loads(text, ...)\<close>: a leading byte order mark or trailing text is an error.\<close>

definition loads_with :: "('v, 'z) hooks_scheme \<Rightarrow> pystr \<Rightarrow> 'v res" where
  "loads_with H text =
     (if starts_with [0xFEFF] text then json_error ''Unexpected UTF-8 BOM (decode using utf-8-sig)''
      else bind_res (parse_val H max_nesting (skip_ws text)) (\<lambda>(v, r).
             if skip_ws r = [] then Inr v else json_error ''Extra data''))"

text \<open>The default hooks: Python values, the last of a repeated key wins.\<close>

definition lit_int :: "pystr \<Rightarrow> int" where
  "lit_int lit = (let (neg, ds) = scan_sign lit in if neg then - int (digits_val ds) else int (digits_val ds))"

definition int_too_long :: "pystr \<Rightarrow> bool" where
  "int_too_long lit \<longleftrightarrow> int_max_str_digits < length (snd (scan_sign lit))"

definition py_int_hook :: "pystr \<Rightarrow> pyval res" where
  "py_int_hook lit =
     (if int_too_long lit then json_error ''Exceeds the limit (4300 digits) for integer string conversion''
      else Inr (PInt (lit_int lit)))"

definition py_const_hook :: "pystr \<Rightarrow> pyval res" where
  "py_const_hook name =
     Inr (PFloat (if name = u ''NaN'' then FNan else FInf (name = u ''-Infinity'')))"

definition py_hooks :: "pyval hooks" where
  "py_hooks = \<lparr>h_null = PNone, h_bool = PBool, h_int = py_int_hook,
     h_float = (\<lambda>lit. PFloat (float_of_literal lit)), h_const = py_const_hook, h_str = PStr,
     h_arr = PList, h_obj = (\<lambda>ps. PDict (dict_of_pairs ps))\<rparr>"

definition loads :: "pystr \<Rightarrow> pyval res" where
  "loads text = loads_with py_hooks text"

text \<open>Every parser consumes text, so the length guards above always hold.\<close>

lemma scan_int_length: "scan_int s = Some (i, r) \<Longrightarrow> length r < length s"
proof -
  assume a: "scan_int s = Some (i, r)"
  obtain neg t where t: "scan_sign s = (neg, t)" by force
  have "length t \<le> length s"
    using t by (auto simp: scan_sign_def split: list.splits if_splits)
  moreover have "length r < length t"
    using a t length_dropWhile_le [of is_digit "tl t"]
    by (auto simp: scan_int_def Let_def split: list.splits if_splits)
  ultimately show ?thesis by simp
qed

lemma scan_frac_length: "scan_frac s = (f, r) \<Longrightarrow> length r \<le> length s"
  using length_dropWhile_le [of is_digit "drop 1 s"] by (auto simp: scan_frac_def split: if_splits)

lemma scan_exp_length: "scan_exp s = (e, r) \<Longrightarrow> length r \<le> length s"
proof (cases s)
  case (Cons c cs)
  assume a: "scan_exp s = (e, r)"
  have "length (dropWhile is_digit (drop k cs)) \<le> length s" for k
    using length_dropWhile_le [of is_digit "drop k cs"] Cons by simp
  from a Cons this this [of 0] show ?thesis
    by (auto simp: scan_exp_def Let_def split: if_splits)
qed (auto simp: scan_exp_def)

lemma scan_num_length: "scan_num s = Some (b, l, r) \<Longrightarrow> length r < length s"
  by (auto simp: scan_num_def Let_def split: option.splits prod.splits
      dest!: scan_int_length scan_frac_length scan_exp_length)

lemma starts_with_drop: "starts_with (c # p) s \<Longrightarrow> length (drop (Suc n) s) < length s"
  by (cases s) (auto simp: starts_with_def)

lemma starts_with_not_Nil: "starts_with p s \<Longrightarrow> p \<noteq> [] \<Longrightarrow> s \<noteq> []"
  by (auto simp: starts_with_def)

lemma parse_atom_length: "parse_atom H s = Inr (v, r) \<Longrightarrow> length r < length s"
proof -
  assume a: "parse_atom H s = Inr (v, r)"
  have lit: "length (drop (Suc n) s) < length s" if "starts_with (u (c # cs)) s" for n c cs
    using that starts_with_drop [of "of_char c" "u cs" s n] by (simp add: u_def)
  have str: "length q < length s" if "starts_with [34] s" "scan_str (drop (Suc 0) s) = Some (t, q)" for t q
    using scan_str_length [OF that(2)] by simp
  show ?thesis
    using a lit str scan_num_length [of s]
    by (auto simp: parse_atom_def json_error_def bind_res_Inr eval_nat_numeral
        split: if_splits option.splits prod.splits)
qed

lemma parse_shorter:
  "parse_val H d s = Inr (v, r) \<Longrightarrow> length r < length s"
  "parse_elems H d s = Inr (vs, r) \<Longrightarrow> length r < length s"
  "parse_members H d s = Inr (ps, r) \<Longrightarrow> length r < length s"
proof (induction H d s and H d s and H d s arbitrary: v r and vs r and ps r
    rule: parse_val_parse_elems_parse_members.induct)
  case (1 H d s)
  let ?r = "skip_ws (drop 1 s)"
  have open_len: "length ?r < length s" if "starts_with [c] s" for c
    using starts_with_length [of c "[]" s] that by simp
  have close_len: "length (drop 1 ?r) < length s" if "starts_with [c] s" for c
    using open_len [OF that] by (simp add: less_imp_diff_less)
  consider (obj) "starts_with [123] s" | (arr) "\<not> starts_with [123] s" "starts_with [91] s"
    | (atom) "\<not> starts_with [123] s" "\<not> starts_with [91] s" by blast
  then show ?case
  proof cases
    case obj
    have d: "d \<noteq> 0"
      using "1.prems" obj by (intro notI) (simp add: parse_val.simps [of H 0 s] recursion_error_def)
    show ?thesis
    proof (cases "starts_with [125] ?r")
      case True
      with "1.prems" obj d show ?thesis
        using close_len [OF obj] by (auto simp: parse_val.simps [of H d s] Let_def)
    next
      case False
      with "1.prems" obj d obtain ps where "parse_members H (d - 1) ?r = Inr (ps, r)"
        by (auto simp: parse_val.simps [of H d s] Let_def bind_res_Inr)
      from "1.IH"(1) [OF obj d refl False this] open_len [OF obj] show ?thesis by simp
    qed
  next
    case arr
    have d: "d \<noteq> 0"
      using "1.prems" arr by (intro notI) (simp add: parse_val.simps [of H 0 s] recursion_error_def)
    show ?thesis
    proof (cases "starts_with [93] ?r")
      case True
      with "1.prems" arr d show ?thesis
        using close_len [OF arr(2)] by (auto simp: parse_val.simps [of H d s] Let_def)
    next
      case False
      with "1.prems" arr d obtain vs where "parse_elems H (d - 1) ?r = Inr (vs, r)"
        by (auto simp: parse_val.simps [of H d s] Let_def bind_res_Inr)
      from "1.IH"(2) [OF arr d refl False this] open_len [OF arr(2)] show ?thesis by simp
    qed
  next
    case atom
    with "1.prems" show ?thesis
      by (auto simp: parse_val.simps [of H d s] dest: parse_atom_length)
  qed
next
  case (2 H d s)
  from "2.prems" obtain v q where v: "parse_val H d s = Inr (v, q)"
    by (auto simp: parse_elems.simps [of H d s] bind_res_Inr)
  have q: "length q < length s"
    by (rule "2.IH"(1) [OF v])
  let ?q = "skip_ws q" and ?q2 = "skip_ws (drop 1 (skip_ws q))"
  have q1: "length ?q < length s"
    using q length_skip_ws [of q] by linarith
  show ?case
  proof (cases "starts_with [93] ?q")
    case True
    with "2.prems" v q1 show ?thesis
      by (auto simp: parse_elems.simps [of H d s] Let_def)
  next
    case False
    with "2.prems" v obtain vs' where "starts_with [44] ?q" "length ?q2 < length s"
        "parse_elems H d ?q2 = Inr (vs', r)"
      by (auto simp: parse_elems.simps [of H d s] Let_def bind_res_Inr json_error_def split: if_splits)
    with "2.IH"(2) [OF v refl refl False this(1) refl this(2,3)] show ?thesis
      by simp
  qed
next
  case (3 H d s)
  from "3.prems" obtain k q where k: "starts_with [34] s" "scan_str (drop 1 s) = Some (k, q)"
    by (auto simp: parse_members.simps [of H d s] json_error_def split: if_splits option.splits)
  let ?q = "skip_ws q"
  from "3.prems" k obtain v q2 where v: "starts_with [58] ?q"
      "parse_val H d (skip_ws (drop 1 ?q)) = Inr (v, q2)"
    by (auto simp: parse_members.simps [of H d s] Let_def bind_res_Inr json_error_def split: if_splits)
  have "length q < length s"
    using scan_str_length [OF k(2)] by simp
  then have "length (skip_ws (drop 1 ?q)) < length s"
    using length_skip_ws [of q] starts_with_length [OF v(1)] unfolding One_nat_def by linarith
  with "3.IH"(1) [OF k refl refl v] have q2: "length q2 < length s"
    by linarith
  let ?q3 = "skip_ws q2" and ?q4 = "skip_ws (drop 1 (skip_ws q2))"
  have q3: "length ?q3 < length s"
    using q2 length_skip_ws [of q2] by linarith
  show ?case
  proof (cases "starts_with [125] ?q3")
    case True
    with "3.prems" k v q3 show ?thesis
      by (auto simp: parse_members.simps [of H d s] Let_def)
  next
    case False
    with "3.prems" k v obtain ps' where "starts_with [44] ?q3" "length ?q4 < length s"
        "parse_members H d ?q4 = Inr (ps', r)"
      by (auto simp: parse_members.simps [of H d s] Let_def bind_res_Inr json_error_def split: if_splits)
    with "3.IH"(2) [OF k refl refl v refl refl False this(1) refl this(2,3)] show ?thesis
      by simp
  qed
qed

text \<open>
  A property of values, indexed by the nesting that is left, which every hook establishes holds of
  whatever the decoder returns.
\<close>

definition int_lit :: "pystr \<Rightarrow> bool" where
  "int_lit lit \<longleftrightarrow> snd (scan_sign lit) \<noteq> [] \<and> (\<forall>c \<in> set (snd (scan_sign lit)). is_digit c)"

lemma scan_num_int_lit:
  assumes "scan_num s = Some (True, lit, r)"
  shows "int_lit lit"
proof -
  from assms have i: "scan_int s = Some (lit, snd (the (scan_int s)))"
    by (auto simp: scan_num_def Let_def split: option.splits prod.splits)
  obtain neg t where t: "scan_sign s = (neg, t)" by force
  have "scan_sign ((if neg then [45] else []) @ c # cs) = (neg, c # cs)" if "is_digit c" for c cs
    using that by (auto simp: scan_sign_def is_digit_def)
  moreover have "is_digit c" if "c \<in> set (takeWhile is_digit cs)" for c cs
    using that by (auto dest: set_takeWhileD)
  ultimately show ?thesis
    using i t by (auto simp: scan_int_def Let_def int_lit_def is_digit_def [of 48] split: list.splits if_splits)
qed

definition hooks_keep :: "(nat \<Rightarrow> 'v \<Rightarrow> bool) \<Rightarrow> ('v, 'z) hooks_scheme \<Rightarrow> bool" where
  "hooks_keep I H \<longleftrightarrow>
     (\<forall>d. I d (h_null H) \<and> (\<forall>b. I d (h_bool H b)) \<and> (\<forall>lit v. int_lit lit \<longrightarrow> h_int H lit = Inr v \<longrightarrow> I d v) \<and>
          (\<forall>lit. I d (h_float H lit)) \<and> (\<forall>lit v. h_const H lit = Inr v \<longrightarrow> I d v) \<and> (\<forall>t. I d (h_str H t))) \<and>
     (\<forall>d vs. d \<noteq> 0 \<longrightarrow> (\<forall>v \<in> set vs. I (d - 1) v) \<longrightarrow> I d (h_arr H vs)) \<and>
     (\<forall>d ps. d \<noteq> 0 \<longrightarrow> (\<forall>p \<in> set ps. I (d - 1) (snd p)) \<longrightarrow> I d (h_obj H ps))"

lemma parse_atom_keep: "hooks_keep I H \<Longrightarrow> parse_atom H s = Inr (v, r) \<Longrightarrow> I d v"
  by (auto simp: parse_atom_def hooks_keep_def json_error_def bind_res_Inr
      split: if_splits option.splits dest!: scan_num_int_lit)

lemma parse_keep:
  assumes "hooks_keep I H"
  shows "parse_val H d s = Inr (v, r) \<Longrightarrow> I d v"
    and "parse_elems H d s = Inr (vs, r) \<Longrightarrow> \<forall>v \<in> set vs. I d v"
    and "parse_members H d s = Inr (ps, r) \<Longrightarrow> \<forall>p \<in> set ps. I d (snd p)"
  using assms
proof (induction H d s and H d s and H d s arbitrary: v r and vs r and ps r
    rule: parse_val_parse_elems_parse_members.induct)
  case (1 H d s)
  let ?r = "skip_ws (drop 1 s)"
  have obj_keep: "\<forall>p \<in> set ps. I (d - 1) (snd p) \<Longrightarrow> d \<noteq> 0 \<Longrightarrow> I d (h_obj H ps)"
    and arr_keep: "\<forall>v \<in> set vs. I (d - 1) v \<Longrightarrow> d \<noteq> 0 \<Longrightarrow> I d (h_arr H vs)" for ps vs
    using "1.prems"(2) by (auto simp: hooks_keep_def)
  consider (obj) "starts_with [123] s" | (arr) "\<not> starts_with [123] s" "starts_with [91] s"
    | (atom) "\<not> starts_with [123] s" "\<not> starts_with [91] s" by blast
  then show ?case
  proof cases
    case obj
    have d: "d \<noteq> 0"
      using "1.prems"(1) obj by (intro notI) (simp add: parse_val.simps [of H 0 s] recursion_error_def)
    show ?thesis
    proof (cases "starts_with [125] ?r")
      case True
      with "1.prems" obj d show ?thesis
        using obj_keep [of "[]"]
        by (auto simp: parse_val.simps [of H d s] Let_def)
    next
      case False
      with "1.prems" obj d obtain ps where ps: "parse_members H (d - 1) ?r = Inr (ps, r)" "v = h_obj H ps"
        by (auto simp: parse_val.simps [of H d s] Let_def bind_res_Inr)
      with "1.IH"(1) [OF obj d refl False ps(1) "1.prems"(2)] d show ?thesis
        using obj_keep [of ps] by simp
    qed
  next
    case arr
    have d: "d \<noteq> 0"
      using "1.prems"(1) arr by (intro notI) (simp add: parse_val.simps [of H 0 s] recursion_error_def)
    show ?thesis
    proof (cases "starts_with [93] ?r")
      case True
      with "1.prems" arr d show ?thesis
        using arr_keep [of "[]"]
        by (auto simp: parse_val.simps [of H d s] Let_def)
    next
      case False
      with "1.prems" arr d obtain vs where vs: "parse_elems H (d - 1) ?r = Inr (vs, r)" "v = h_arr H vs"
        by (auto simp: parse_val.simps [of H d s] Let_def bind_res_Inr)
      with "1.IH"(2) [OF arr d refl False vs(1) "1.prems"(2)] d show ?thesis
        using arr_keep [of vs] by simp
    qed
  next
    case atom
    with "1.prems" show ?thesis
      by (auto simp: parse_val.simps [of H d s] dest: parse_atom_keep)
  qed
next
  case (2 H d s)
  from "2.prems"(1) obtain v q where v: "parse_val H d s = Inr (v, q)"
    by (auto simp: parse_elems.simps [of H d s] bind_res_Inr)
  have Iv: "I d v"
    by (rule "2.IH"(1) [OF v "2.prems"(2)])
  let ?q = "skip_ws q" and ?q2 = "skip_ws (drop 1 (skip_ws q))"
  show ?case
  proof (cases "starts_with [93] ?q")
    case True
    with "2.prems"(1) v Iv show ?thesis
      by (auto simp: parse_elems.simps [of H d s] Let_def)
  next
    case False
    with "2.prems"(1) v obtain vs' where vs: "starts_with [44] ?q" "length ?q2 < length s"
        "parse_elems H d ?q2 = Inr (vs', r)" "vs = v # vs'"
      by (auto simp: parse_elems.simps [of H d s] Let_def bind_res_Inr json_error_def split: if_splits)
    with "2.IH"(2) [OF v refl refl False vs(1) refl vs(2,3) "2.prems"(2)] Iv show ?thesis
      by simp
  qed
next
  case (3 H d s)
  from "3.prems"(1) obtain k q where k: "starts_with [34] s" "scan_str (drop 1 s) = Some (k, q)"
    by (auto simp: parse_members.simps [of H d s] json_error_def split: if_splits option.splits)
  let ?q = "skip_ws q"
  from "3.prems"(1) k obtain v q2 where v: "starts_with [58] ?q"
      "parse_val H d (skip_ws (drop 1 ?q)) = Inr (v, q2)"
    by (auto simp: parse_members.simps [of H d s] Let_def bind_res_Inr json_error_def split: if_splits)
  have Iv: "I d v"
    by (rule "3.IH"(1) [OF k refl refl v "3.prems"(2)])
  let ?q3 = "skip_ws q2" and ?q4 = "skip_ws (drop 1 (skip_ws q2))"
  show ?case
  proof (cases "starts_with [125] ?q3")
    case True
    with "3.prems"(1) k v Iv show ?thesis
      by (auto simp: parse_members.simps [of H d s] Let_def)
  next
    case False
    with "3.prems"(1) k v obtain ps' where ps: "starts_with [44] ?q3" "length ?q4 < length s"
        "parse_members H d ?q4 = Inr (ps', r)" "ps = (k, v) # ps'"
      by (auto simp: parse_members.simps [of H d s] Let_def bind_res_Inr json_error_def split: if_splits)
    with "3.IH"(2) [OF k refl refl v refl refl False ps(1) refl ps(2,3) "3.prems"(2)] Iv show ?thesis
      by simp
  qed
qed

lemma loads_with_keep: "hooks_keep I H \<Longrightarrow> loads_with H text = Inr v \<Longrightarrow> I max_nesting v"
  by (auto simp: loads_with_def json_error_def bind_res_Inr split: if_splits dest: parse_keep(1))

text \<open>
  Two decodings of one text with different hooks: when both succeed, they consume the same text and
  their results are related the way the hooks relate them.
\<close>

definition hooks_rel :: "('v \<Rightarrow> 'w \<Rightarrow> bool) \<Rightarrow> ('v, 'y) hooks_scheme \<Rightarrow> ('w, 'z) hooks_scheme \<Rightarrow> bool" where
  "hooks_rel R G H \<longleftrightarrow>
     R (h_null G) (h_null H) \<and> (\<forall>b. R (h_bool G b) (h_bool H b)) \<and>
     (\<forall>lit v w. int_lit lit \<longrightarrow> h_int G lit = Inr v \<longrightarrow> h_int H lit = Inr w \<longrightarrow> R v w) \<and>
     (\<forall>lit. R (h_float G lit) (h_float H lit)) \<and>
     (\<forall>lit v w. h_const G lit = Inr v \<longrightarrow> h_const H lit = Inr w \<longrightarrow> R v w) \<and>
     (\<forall>t. R (h_str G t) (h_str H t)) \<and>
     (\<forall>vs ws. list_all2 R vs ws \<longrightarrow> R (h_arr G vs) (h_arr H ws)) \<and>
     (\<forall>ps qs. list_all2 (rel_prod (=) R) ps qs \<longrightarrow> R (h_obj G ps) (h_obj H qs))"

lemma parse_atom_rel:
  "hooks_rel R G H \<Longrightarrow> parse_atom G s = Inr (v, r) \<Longrightarrow> parse_atom H s = Inr (w, q) \<Longrightarrow> R v w \<and> r = q"
  by (auto simp: parse_atom_def hooks_rel_def json_error_def bind_res_Inr
      split: if_splits option.splits dest!: scan_num_int_lit)

lemma parse_rel:
  assumes "hooks_rel R G H"
  shows "parse_val G d s = Inr (v, r) \<Longrightarrow> parse_val H d s = Inr (w, q) \<Longrightarrow> R v w \<and> r = q"
    and "parse_elems G d s = Inr (vs, r) \<Longrightarrow> parse_elems H d s = Inr (ws, q) \<Longrightarrow> list_all2 R vs ws \<and> r = q"
    and "parse_members G d s = Inr (ps, r) \<Longrightarrow> parse_members H d s = Inr (qs, q) \<Longrightarrow>
           list_all2 (rel_prod (=) R) ps qs \<and> r = q"
  using assms
proof (induction G d s and G d s and G d s arbitrary: v r w q and vs r ws q and ps r qs q
    rule: parse_val_parse_elems_parse_members.induct)
  case (1 G d s)
  note rel = "1.prems"(3)
  let ?r = "skip_ws (drop 1 s)"
  consider (obj) "starts_with [123] s" | (arr) "\<not> starts_with [123] s" "starts_with [91] s"
    | (atom) "\<not> starts_with [123] s" "\<not> starts_with [91] s" by blast
  then show ?case
  proof cases
    case obj
    have d: "d \<noteq> 0"
      using "1.prems"(1) obj by (intro notI) (simp add: parse_val.simps [of G 0 s] recursion_error_def)
    show ?thesis
    proof (cases "starts_with [125] ?r")
      case True
      with "1.prems"(1,2) obj d rel show ?thesis
        by (auto simp: parse_val.simps [of _ d s] Let_def hooks_rel_def)
    next
      case False
      with "1.prems"(1,2) obj d obtain ps qs
        where ps: "parse_members G (d - 1) ?r = Inr (ps, r)" "v = h_obj G ps"
          and qs: "parse_members H (d - 1) ?r = Inr (qs, q)" "w = h_obj H qs"
        by (auto simp: parse_val.simps [of _ d s] Let_def bind_res_Inr)
      from "1.IH"(1) [OF obj d refl False ps(1) qs(1) rel] ps(2) qs(2) rel show ?thesis
        by (simp add: hooks_rel_def)
    qed
  next
    case arr
    have d: "d \<noteq> 0"
      using "1.prems"(1) arr by (intro notI) (simp add: parse_val.simps [of G 0 s] recursion_error_def)
    show ?thesis
    proof (cases "starts_with [93] ?r")
      case True
      with "1.prems"(1,2) arr d rel show ?thesis
        by (auto simp: parse_val.simps [of _ d s] Let_def hooks_rel_def)
    next
      case False
      with "1.prems"(1,2) arr d obtain vs ws
        where vs: "parse_elems G (d - 1) ?r = Inr (vs, r)" "v = h_arr G vs"
          and ws: "parse_elems H (d - 1) ?r = Inr (ws, q)" "w = h_arr H ws"
        by (auto simp: parse_val.simps [of _ d s] Let_def bind_res_Inr)
      from "1.IH"(2) [OF arr d refl False vs(1) ws(1) rel] vs(2) ws(2) rel show ?thesis
        by (simp add: hooks_rel_def)
    qed
  next
    case atom
    with "1.prems"(1,2) parse_atom_rel [OF rel] show ?thesis
      by (auto simp: parse_val.simps [of _ d s])
  qed
next
  case (2 G d s)
  note rel = "2.prems"(3)
  from "2.prems"(1,2) obtain v p w p' where v: "parse_val G d s = Inr (v, p)" "parse_val H d s = Inr (w, p')"
    by (auto simp: parse_elems.simps [of _ d s] bind_res_Inr)
  from "2.IH"(1) [OF v rel] have Rv: "R v w" and p: "p' = p" by auto
  let ?q = "skip_ws p" and ?q2 = "skip_ws (drop 1 (skip_ws p))"
  show ?case
  proof (cases "starts_with [93] ?q")
    case True
    with "2.prems"(1,2) v p Rv show ?thesis
      by (auto simp: parse_elems.simps [of _ d s] Let_def)
  next
    case False
    with "2.prems"(1,2) v p obtain vs' ws' where vs: "starts_with [44] ?q" "length ?q2 < length s"
        "parse_elems G d ?q2 = Inr (vs', r)" "vs = v # vs'" "parse_elems H d ?q2 = Inr (ws', q)" "ws = w # ws'"
      by (auto simp: parse_elems.simps [of _ d s] Let_def bind_res_Inr json_error_def split: if_splits)
    with "2.IH"(2) [OF v(1) refl refl False vs(1) refl vs(2,3,5) rel] Rv show ?thesis
      by simp
  qed
next
  case (3 G d s)
  note rel = "3.prems"(3)
  from "3.prems"(1) obtain k t where k: "starts_with [34] s" "scan_str (drop 1 s) = Some (k, t)"
    by (auto simp: parse_members.simps [of G d s] json_error_def split: if_splits option.splits)
  let ?q = "skip_ws t"
  from "3.prems"(1,2) k obtain v p w p' where v: "starts_with [58] ?q"
      "parse_val G d (skip_ws (drop 1 ?q)) = Inr (v, p)" "parse_val H d (skip_ws (drop 1 ?q)) = Inr (w, p')"
    by (auto simp: parse_members.simps [of _ d s] Let_def bind_res_Inr json_error_def split: if_splits)
  from "3.IH"(1) [OF k refl refl v rel] have Rv: "R v w" and p: "p' = p" by auto
  let ?q3 = "skip_ws p" and ?q4 = "skip_ws (drop 1 (skip_ws p))"
  show ?case
  proof (cases "starts_with [125] ?q3")
    case True
    with "3.prems"(1,2) k v p Rv show ?thesis
      by (auto simp: parse_members.simps [of _ d s] Let_def)
  next
    case False
    with "3.prems"(1,2) k v p obtain ps' qs' where ps: "starts_with [44] ?q3" "length ?q4 < length s"
        "parse_members G d ?q4 = Inr (ps', r)" "ps = (k, v) # ps'"
        "parse_members H d ?q4 = Inr (qs', q)" "qs = (k, w) # qs'"
      by (auto simp: parse_members.simps [of _ d s] Let_def bind_res_Inr json_error_def split: if_splits)
    with "3.IH"(2) [OF k refl refl v(1,2) refl refl False ps(1) refl ps(2,3,5) rel] Rv show ?thesis
      by simp
  qed
qed

lemma loads_with_rel:
  assumes "hooks_rel R G H" "loads_with G text = Inr v" "loads_with H text = Inr w"
  shows "R v w"
  using assms parse_rel(1) [OF assms(1), of max_nesting "skip_ws text"]
  by (auto simp: loads_with_def json_error_def bind_res_Inr split: if_splits)

end
