(* ===== verification/JsonPrint.thy ===== *)
theory JsonPrint
  imports Json
begin

text \<open>
  \<open>json.dumps\<close> with compact separators, and the theorem that \<open>json.loads\<close> reads its output back.
\<close>

section \<open>Printing\<close>

definition join :: "pystr \<Rightarrow> pystr list \<Rightarrow> pystr" where
  "join sep ss = (case ss of [] \<Rightarrow> [] | x # xs \<Rightarrow> x @ concat (map (\<lambda>s. sep @ s) xs))"

definition hex_digit :: "nat \<Rightarrow> nat" where
  "hex_digit n = (if n < 10 then 48 + n else 87 + n)"

definition u_escape :: "nat \<Rightarrow> pystr" where
  "u_escape c = [92, 117, hex_digit (c div 4096 mod 16), hex_digit (c div 256 mod 16),
     hex_digit (c div 16 mod 16), hex_digit (c mod 16)]"

text \<open>One character of a string: \<open>ascii\<close> is \<open>ensure_ascii\<close>.\<close>

definition esc_char :: "bool \<Rightarrow> nat \<Rightarrow> pystr" where
  "esc_char ascii c =
     (if c = 34 then [92, 34] else if c = 92 then [92, 92]
      else if c = 10 then [92, 110] else if c = 13 then [92, 114] else if c = 9 then [92, 116]
      else if c = 12 then [92, 102] else if c = 8 then [92, 98]
      else if c < 32 then u_escape c
      else if ascii \<and> 126 < c
      then (if c < 0x10000 then u_escape c
            else u_escape (0xD800 + (c - 0x10000) div 0x400) @ u_escape (0xDC00 + (c - 0x10000) mod 0x400))
      else [c])"

definition str_json :: "bool \<Rightarrow> pystr \<Rightarrow> pystr" where
  "str_json ascii s = 34 # concat (map (esc_char ascii) s) @ [34]"

definition int_json :: "int \<Rightarrow> pystr res" where
  "int_json i =
     (if int_max_str_digits < length (nat_str (nat \<bar>i\<bar>))
      then json_error ''Exceeds the limit (4300 digits) for integer string conversion''
      else Inr (int_str i))"

definition float_json :: "pyfloat \<Rightarrow> pystr" where
  "float_json f = (case f of FNan \<Rightarrow> u ''NaN'' | FInf s \<Rightarrow> if s then u ''-Infinity'' else u ''Infinity''
     | FFin s m e \<Rightarrow> float_repr f)"

fun dump_val :: "bool \<Rightarrow> nat \<Rightarrow> pyval \<Rightarrow> pystr res" where
  "dump_val a d PNone = Inr (u ''null'')"
| "dump_val a d (PBool b) = Inr (if b then u ''true'' else u ''false'')"
| "dump_val a d (PInt i) = int_json i"
| "dump_val a d (PFloat f) = Inr (float_json f)"
| "dump_val a d (PStr s) = Inr (str_json a s)"
| "dump_val a d (PList xs) =
     (if d = 0 then recursion_error ''maximum recursion depth exceeded''
      else bind_res (seq_res (map (dump_val a (d - 1)) xs)) (\<lambda>ss. Inr ([91] @ join [44] ss @ [93])))"
| "dump_val a d (PDict ps) =
     (if d = 0 then recursion_error ''maximum recursion depth exceeded''
      else bind_res (seq_res (map (\<lambda>p. bind_res (dump_val a (d - 1) (snd p))
                                        (\<lambda>s. Inr (str_json a (fst p) @ [58] @ s))) ps))
             (\<lambda>ss. Inr ([123] @ join [44] ss @ [125])))"
| "dump_val a d (POther n) = Inl (Exc TypeError (u ''Object is not JSON serializable''))"

text \<open>\<open>json.dumps(v, ensure_ascii=False, separators=(",", ":"))\<close>.\<close>

definition dumps :: "pyval \<Rightarrow> pystr res" where
  "dumps v = dump_val False max_nesting v"

section \<open>Lexical lemmas\<close>

text \<open>Text after which a number cannot continue.\<close>

definition num_stop :: "pystr \<Rightarrow> bool" where
  "num_stop s \<longleftrightarrow> (s = [] \<or> \<not> is_digit (hd s) \<and> hd s \<noteq> 46 \<and> hd s \<noteq> 101 \<and> hd s \<noteq> 69)"

lemma num_stop_simps [simp]:
  "num_stop []" "num_stop (44 # s)" "num_stop (93 # s)" "num_stop (125 # s)" "num_stop (58 # s)"
  by (simp_all add: num_stop_def is_digit_def)

lemma hex_val_hex_digit [simp]: "n < 16 \<Longrightarrow> hex_val (hex_digit n) = Some n"
  by (auto simp: hex_val_def hex_digit_def)

lemma hex4_u:
  assumes "c < 32"
  shows "hex4 (drop 2 (u_escape c @ rest)) = Some (c, rest)"
proof -
  have "c mod 16 < 16" "c div 16 mod 16 < 16" by simp_all
  moreover have "c div 4096 = 0" "c div 256 = 0" using assms by simp_all
  moreover have "16 * (c div 16 mod 16) + c mod 16 = c"
    using assms by simp
  ultimately show ?thesis
    by (simp add: u_escape_def hex4_def)
qed

lemma scan_str_quote: "scan_str (34 # rest) = Some ([], rest)"
  by (simp add: scan_str.simps)

lemma scan_str_esc_char:
  assumes "scan_str rest = Some (t, r)"
  shows "scan_str (esc_char False c @ rest) = Some (c # t, r)"
proof -
  consider "c \<in> {34, 92, 10, 13, 9, 12, 8}" | "c < 32" "c \<notin> {34, 92, 10, 13, 9, 12, 8}"
    | "32 \<le> c" "c \<notin> {34, 92}" by fastforce
  then show ?thesis
  proof cases
    case 1
    then show ?thesis
      using assms by (subst scan_str.simps) (auto simp: esc_char_def scan_escape_def)
  next
    case 2
    then have e: "esc_char False c = u_escape c"
      by (simp add: esc_char_def)
    have "scan_u (drop 2 (u_escape c @ rest)) = Some (c, rest)"
      using 2 hex4_u [of c rest] by (simp add: scan_u_def is_high_def)
    then have "scan_escape (drop 1 (u_escape c @ rest)) = Some (c, rest)"
      by (simp add: u_escape_def scan_escape_def numeral_2_eq_2)
    then show ?thesis
      using assms by (subst scan_str.simps) (simp add: e u_escape_def)
  next
    case 3
    then show ?thesis
      using assms by (subst scan_str.simps) (auto simp: esc_char_def)
  qed
qed

lemma scan_str_chars: "scan_str (concat (map (esc_char False) s) @ 34 # rest) = Some (s, rest)"
  by (induction s) (simp_all add: scan_str_quote scan_str_esc_char)

lemma scan_str_json: "scan_str (drop 1 (str_json False s @ rest)) = Some (s, rest)"
  by (simp add: str_json_def scan_str_chars)

text \<open>A number literal: an optional sign, an integer part, a fraction and an exponent.\<close>

definition digit_run :: "pystr \<Rightarrow> bool" where
  "digit_run s \<longleftrightarrow> s \<noteq> [] \<and> (\<forall>c \<in> set s. is_digit c)"

definition num_lit :: "pystr \<Rightarrow> pystr \<Rightarrow> pystr \<Rightarrow> bool" where
  "num_lit ip fr ex \<longleftrightarrow>
     (ip = [48] \<or> digit_run ip \<and> hd ip \<noteq> 48) \<and>
     (fr = [] \<or> (\<exists>ds. fr = 46 # ds \<and> digit_run ds)) \<and>
     (ex = [] \<or> (\<exists>g ds. ex = 101 # g # ds \<and> (g = 43 \<or> g = 45) \<and> digit_run ds))"

definition sign_text :: "bool \<Rightarrow> pystr" where
  "sign_text neg = (if neg then [45] else [])"

lemma digit_run_nat_str [simp]: "digit_run (nat_str n)"
  by (simp add: digit_run_def nat_str_digits)

lemma digit_run_pad:
  "digit_run s \<Longrightarrow> digit_run (replicate n 48 @ s)" "digit_run s \<Longrightarrow> digit_run (s @ replicate n 48)"
  by (auto simp: digit_run_def is_digit_def)

lemma digit_run_take_drop:
  "digit_run s \<Longrightarrow> 0 < n \<Longrightarrow> digit_run (take n s)" "digit_run s \<Longrightarrow> n < length s \<Longrightarrow> digit_run (drop n s)"
  by (auto simp: digit_run_def dest: in_set_takeD in_set_dropD)

lemma digit_run_scan:
  assumes "digit_run s" "t = [] \<or> \<not> is_digit (hd t)"
  shows "takeWhile is_digit (s @ t) = s" "dropWhile is_digit (s @ t) = t"
proof -
  have "takeWhile is_digit t = []" "dropWhile is_digit t = t"
    using assms(2) by (cases t; simp)+
  with assms(1) show "takeWhile is_digit (s @ t) = s" "dropWhile is_digit (s @ t) = t"
    by (auto simp: digit_run_def)
qed

lemma digit_run_Cons: "digit_run s \<Longrightarrow> \<exists>c cs. s = c # cs \<and> is_digit c \<and> (cs = [] \<or> digit_run cs)"
  by (cases s) (auto simp: digit_run_def)

lemma num_stop_not_digit: "num_stop rest \<Longrightarrow> rest = [] \<or> \<not> is_digit (hd rest)"
  by (auto simp: num_stop_def)

lemma not_digit [simp]: "\<not> is_digit 46" "\<not> is_digit 101" "\<not> is_digit 45" "\<not> is_digit 43" "is_digit 48"
  by (simp_all add: is_digit_def)

lemma scan_exp_lit:
  assumes "ex = [] \<or> (\<exists>g ds. ex = 101 # g # ds \<and> (g = 43 \<or> g = 45) \<and> digit_run ds)" "num_stop rest"
  shows "scan_exp (ex @ rest) = (ex, rest)"
proof (cases "ex = []")
  case True
  with assms(2) show ?thesis
    by (cases rest) (auto simp: scan_exp_def num_stop_def)
next
  case False
  with assms(1) obtain g ds where ex: "ex = 101 # g # ds" "g = 43 \<or> g = 45" "digit_run ds"
    by auto
  have "ds \<noteq> []"
    using ex(3) by (simp add: digit_run_def)
  with ex digit_run_scan [OF ex(3) num_stop_not_digit [OF assms(2)]] show ?thesis
    by (auto simp: scan_exp_def starts_with_def)
qed

lemma scan_frac_lit:
  assumes "fr = [] \<or> (\<exists>ds. fr = 46 # ds \<and> digit_run ds)"
    and "t = [] \<or> \<not> is_digit (hd t) \<and> hd t \<noteq> 46"
  shows "scan_frac (fr @ t) = (fr, t)"
proof (cases "fr = []")
  case True
  with assms(2) show ?thesis
    by (cases t) (auto simp: scan_frac_def starts_with_def)
next
  case False
  with assms(1) obtain ds where fr: "fr = 46 # ds" "digit_run ds"
    by auto
  then have "ds \<noteq> []"
    by (simp add: digit_run_def)
  with fr digit_run_scan [OF fr(2), of t] assms(2) show ?thesis
    by (cases ds) (auto simp: scan_frac_def starts_with_def digit_run_def)
qed

lemma scan_int_lit:
  assumes "ip = [48] \<or> digit_run ip \<and> hd ip \<noteq> 48" "t = [] \<or> \<not> is_digit (hd t)"
  shows "scan_int (sign_text neg @ ip @ t) = Some (sign_text neg @ ip, t)"
proof (cases "ip = [48]")
  case True
  then show ?thesis
    by (cases neg) (auto simp: sign_text_def scan_int_def scan_sign_def)
next
  case False
  with assms(1) have ip: "digit_run ip" "hd ip \<noteq> 48"
    by auto
  from digit_run_Cons [OF ip(1)] obtain c cs where c: "ip = c # cs" "is_digit c"
    by auto
  then have "c \<noteq> 45"
    by auto
  with c ip(2) digit_run_scan [OF ip(1) assms(2)] show ?thesis
    by (cases neg) (auto simp: sign_text_def scan_int_def scan_sign_def)
qed

lemma scan_num_lit:
  assumes "num_lit ip fr ex" "num_stop rest"
  shows "scan_num (sign_text neg @ ip @ fr @ ex @ rest)
           = Some (fr = [] \<and> ex = [], sign_text neg @ ip @ fr @ ex, rest)"
proof -
  have er: "ex @ rest = [] \<or> \<not> is_digit (hd (ex @ rest)) \<and> hd (ex @ rest) \<noteq> 46"
    using assms by (auto simp: num_lit_def num_stop_def)
  have fer: "fr @ ex @ rest = [] \<or> \<not> is_digit (hd (fr @ ex @ rest))"
    using assms er by (auto simp: num_lit_def)
  show ?thesis
    using assms scan_int_lit [of ip "fr @ ex @ rest" neg] fer scan_frac_lit [of fr "ex @ rest"] er
      scan_exp_lit [of ex rest]
    by (simp add: scan_num_def num_lit_def)
qed

lemma digit_run_nonzero: "num_lit ip fr ex \<Longrightarrow> \<exists>c cs. ip = c # cs \<and> is_digit c"
  by (auto simp: num_lit_def dest: digit_run_Cons)

text \<open>A text starting like a number is read by \<open>scan_num\<close>, not as a word, a string or a container.\<close>

lemma parse_val_num:
  assumes "s = sign_text neg @ c # cs" "is_digit c" "scan_num s = Some (b, lit, r)"
  shows "parse_val H d s
           = (if b then bind_res (h_int H lit) (\<lambda>v. Inr (v, r)) else Inr (h_float H lit, r))"
proof -
  have "c \<noteq> 34" "c \<noteq> 123" "c \<noteq> 91" "c \<noteq> 45" "c \<noteq> 110" "c \<noteq> 116" "c \<noteq> 102" "c \<noteq> 78" "c \<noteq> 73"
    using assms(2) by (auto simp: is_digit_def)
  with assms(1,3) show ?thesis
    by (cases neg; subst parse_val.simps) (simp_all add: parse_atom_def starts_with_def sign_text_def u_def)
qed

lemma int_str_lit: "int_str i = sign_text (i < 0) @ nat_str (nat \<bar>i\<bar>)" "num_lit (nat_str n) [] []"
  by (auto simp: int_str_def sign_text_def num_lit_def nat_str_hd) (metis nat_str_0 nat_str_hd)

lemma lit_int_int_str: "lit_int (int_str i) = i" "length (snd (scan_sign (int_str i))) = length (nat_str (nat \<bar>i\<bar>))"
proof -
  obtain c cs where c: "nat_str (nat \<bar>i\<bar>) = c # cs" "is_digit c"
    using digit_run_Cons [OF digit_run_nat_str] by blast
  then have "c \<noteq> 45" by auto
  moreover have "digits_val (c # cs) = nat \<bar>i\<bar>"
    using c digits_val_nat_str by metis
  ultimately show "lit_int (int_str i) = i" "length (snd (scan_sign (int_str i))) = length (nat_str (nat \<bar>i\<bar>))"
    using c by (auto simp: lit_int_def int_str_lit(1) sign_text_def scan_sign_def)
qed

lemma py_hooks_simps [simp]:
  "h_null py_hooks = PNone" "h_bool py_hooks = PBool" "h_int py_hooks = py_int_hook"
  "h_float py_hooks lit = PFloat (float_of_literal lit)" "h_const py_hooks = py_const_hook"
  "h_str py_hooks = PStr" "h_arr py_hooks = PList" "h_obj py_hooks ps = PDict (dict_of_pairs ps)"
  by (simp_all add: py_hooks_def)

lemma parse_int_json:
  assumes "int_json i = Inr s" "num_stop rest"
  shows "parse_val py_hooks d (s @ rest) = Inr (PInt i, rest)"
proof -
  have s: "s = sign_text (i < 0) @ nat_str (nat \<bar>i\<bar>)" "s = int_str i"
      and short: "\<not> int_max_str_digits < length (nat_str (nat \<bar>i\<bar>))"
    using assms(1) by (auto simp: int_json_def json_error_def int_str_lit(1) split: if_splits)
  obtain c cs where c: "nat_str (nat \<bar>i\<bar>) = c # cs" "is_digit c"
    using digit_run_Cons [OF digit_run_nat_str] by blast
  have hook: "py_int_hook s = Inr (PInt i)"
    using short unfolding s(2) by (simp add: py_int_hook_def int_too_long_def lit_int_int_str)
  have "scan_num (s @ rest) = Some (True, s, rest)"
    using scan_num_lit [OF int_str_lit(2) assms(2), of "i < 0" "nat \<bar>i\<bar>"] s(1) by simp
  moreover have "s @ rest = sign_text (i < 0) @ c # (cs @ rest)"
    using s(1) c(1) by simp
  ultimately show ?thesis
    using parse_val_num [of "s @ rest" "i < 0" c "cs @ rest" True s rest py_hooks d] c(2) hook
    by simp
qed

section \<open>The text of a double is a number literal\<close>

lemma exp_str_lit: "\<exists>g ds. exp_str p = g # ds \<and> (g = 43 \<or> g = 45) \<and> digit_run ds"
  using digit_run_pad(1) [of "nat_str (nat \<bar>p\<bar>)" 1] by (auto simp: exp_str_def)

lemma mag_repr_lit:
  assumes "x \<noteq> 0"
  shows "\<exists>ip fr ex. mag_repr x q = ip @ fr @ ex \<and> num_lit ip fr ex \<and> \<not> (fr = [] \<and> ex = [])"
proof -
  define ds where "ds = nat_str x"
  define n where "n = length ds"
  define p where "p = int n + q"
  have run: "digit_run ds" and h: "hd ds \<noteq> 48" and "ds \<noteq> []"
    using nat_str_hd [OF assms] by (simp_all add: ds_def)
  from digit_run_Cons [OF run] obtain c cs where c: "ds = c # cs" "is_digit c" "cs = [] \<or> digit_run cs"
    by auto
  obtain g es where ex: "exp_str (p - 1) = g # es" "g = 43 \<or> g = 45" "digit_run es"
    using exp_str_lit by blast
  note m = mag_repr_def [of x q, folded ds_def, unfolded Let_def, folded n_def, folded p_def]
  consider "p \<le> - 4 \<or> 16 < p" | "- 4 < p" "p \<le> 0" | "0 < p" "p \<le> 16" "int n \<le> p"
    | "0 < p" "p \<le> 16" "p < int n" by linarith
  then show ?thesis
  proof cases
    case 1
    have "num_lit [c] (if cs = [] then [] else 46 # cs) (101 # g # es)"
      using c ex h by (auto simp: num_lit_def digit_run_def)
    moreover have "mag_repr x q = [c] @ (if cs = [] then [] else 46 # cs) @ 101 # g # es"
      using 1 m c(1) ex(1) by auto
    ultimately show ?thesis by blast
  next
    case 2
    have "num_lit [48] (46 # replicate (nat (- p)) 48 @ ds) []"
      using run by (simp add: num_lit_def digit_run_pad)
    moreover have "mag_repr x q = [48] @ (46 # replicate (nat (- p)) 48 @ ds) @ []"
      using 2 m by auto
    ultimately show ?thesis by blast
  next
    case 3
    have "num_lit (ds @ replicate (nat p - n) 48) [46, 48] []"
      using digit_run_pad(2) [OF run] h \<open>ds \<noteq> []\<close> by (simp add: num_lit_def digit_run_def [of "[48]"])
    moreover have "mag_repr x q = (ds @ replicate (nat p - n) 48) @ [46, 48] @ []"
      using 3 m by auto
    ultimately show ?thesis by blast
  next
    case 4
    then have "0 < nat p" "nat p < length ds"
      by (auto simp: n_def)
    then have "num_lit (take (nat p) ds) (46 # drop (nat p) ds) []"
      using run h by (simp add: num_lit_def digit_run_take_drop)
    moreover have "mag_repr x q = take (nat p) ds @ (46 # drop (nat p) ds) @ []"
      using 4 m by auto
    ultimately show ?thesis by blast
  qed
qed

text \<open>
  A double whose printed text reads back as itself. Every finite double a program meets is one
  (17 significant digits determine a double); the predicate is computed for the double at hand.
\<close>

definition float_ok :: "pyfloat \<Rightarrow> bool" where
  "float_ok f =
     (case f of
        FFin s m e \<Rightarrow> float_of_literal (float_repr f) = f \<and> (m = 0 \<or> fst (shortest m e) \<noteq> 0)
      | _ \<Rightarrow> True)"

fun floats_ok :: "pyval \<Rightarrow> bool" where
  "floats_ok (PFloat f) = float_ok f"
| "floats_ok (PList xs) = (\<forall>x \<in> set xs. floats_ok x)"
| "floats_ok (PDict d) = (\<forall>p \<in> set d. floats_ok (snd p))"
| "floats_ok v = True"

lemma float_repr_lit:
  assumes "float_ok (FFin sg m e)"
  shows "\<exists>ip fr ex. float_repr (FFin sg m e) = sign_text sg @ ip @ fr @ ex
           \<and> num_lit ip fr ex \<and> \<not> (fr = [] \<and> ex = [])"
proof (cases "m = 0")
  case True
  have "num_lit [48] [46, 48] []"
    by (simp add: num_lit_def digit_run_def)
  moreover have "float_repr (FFin sg m e) = sign_text sg @ [48] @ [46, 48] @ []"
    using True by (simp add: sign_text_def)
  ultimately show ?thesis by blast
next
  case False
  obtain x q where xq: "shortest m e = (x, q)" by force
  with False assms have "x \<noteq> 0"
    by (simp add: float_ok_def)
  from mag_repr_lit [OF this, of q] obtain ip fr ex
    where "mag_repr x q = ip @ fr @ ex" "num_lit ip fr ex" "\<not> (fr = [] \<and> ex = [])"
    by blast
  with False xq show ?thesis
    by (intro exI [of _ ip] exI [of _ fr] exI [of _ ex]) (simp add: sign_text_def)
qed

lemma parse_float_json:
  assumes "float_ok f" "num_stop rest"
  shows "parse_val py_hooks d (float_json f @ rest) = Inr (PFloat f, rest)"
proof (cases f)
  case FNan
  then show ?thesis
    by (subst parse_val.simps) (simp add: float_json_def parse_atom_def starts_with_def u_def py_const_hook_def)
next
  case (FInf s)
  then show ?thesis
    by (cases s; subst parse_val.simps)
       (simp_all add: float_json_def parse_atom_def starts_with_def u_def py_const_hook_def)
next
  case (FFin sg m e)
  with assms(1) float_repr_lit obtain ip fr ex
    where t: "float_repr f = sign_text sg @ ip @ fr @ ex" and l: "num_lit ip fr ex"
      and n: "\<not> (fr = [] \<and> ex = [])"
    by blast
  from digit_run_nonzero [OF l] obtain c cs where c: "ip = c # cs" "is_digit c"
    by blast
  have "scan_num (float_repr f @ rest) = Some (False, float_repr f, rest)"
    using scan_num_lit [OF l assms(2), of sg] n by (simp add: t)
  moreover have "float_repr f @ rest = sign_text sg @ c # (cs @ fr @ ex @ rest)"
    using t c(1) by simp
  moreover have "float_of_literal (float_repr f) = f" "float_json f = float_repr f"
    using assms(1) FFin by (simp_all add: float_ok_def float_json_def)
  ultimately show ?thesis
    using parse_val_num [of "float_repr f @ rest" sg c "cs @ fr @ ex @ rest" False "float_repr f" rest py_hooks d]
      c(2) by simp
qed

section \<open>Reading back\<close>

text \<open>The first character of a printed value.\<close>

definition start_ok :: "pystr \<Rightarrow> bool" where
  "start_ok s \<longleftrightarrow> s \<noteq> [] \<and> \<not> is_ws (hd s) \<and> hd s \<noteq> 93 \<and> hd s \<noteq> 125"

lemma skip_ws_start [simp]: "start_ok s \<Longrightarrow> skip_ws (s @ rest) = s @ rest"
  by (cases s) (auto simp: start_ok_def skip_ws_def)

lemma skip_ws_punct [simp]:
  "skip_ws (44 # s) = 44 # s" "skip_ws (93 # s) = 93 # s" "skip_ws (125 # s) = 125 # s"
  "skip_ws (58 # s) = 58 # s" "skip_ws (34 # s) = 34 # s" "skip_ws [] = []"
  by (simp_all add: skip_ws_def is_ws_def)

lemma start_ok_num: "num_lit ip fr ex \<Longrightarrow> start_ok (sign_text neg @ ip @ t)"
  by (drule digit_run_nonzero) (auto simp: sign_text_def start_ok_def is_ws_def is_digit_def)

lemma start_ok_float: 
  assumes "float_ok f" 
  shows "start_ok (float_json f)"
proof (cases f)
  case (FFin sg m e)
  from float_repr_lit [of sg m e] assms FFin obtain ip fr ex
    where "float_repr f = sign_text sg @ ip @ fr @ ex" "num_lit ip fr ex" 
    by blast
  with start_ok_num FFin show ?thesis
    by (simp add: float_json_def del: float_repr.simps)
qed (auto simp: float_json_def start_ok_def is_ws_def u_def)

lemma start_ok_dump:
  assumes "dump_val a d v = Inr s" "floats_ok v"
  shows "start_ok s"
proof (cases v)
  case (PInt i)
  with assms have "s = sign_text (i < 0) @ nat_str (nat \<bar>i\<bar>) @ []"
    by (simp add: int_json_def json_error_def int_str_lit(1) split: if_splits)
  with start_ok_num [OF int_str_lit(2)] show ?thesis by metis
next
  case (PFloat f)
  with assms start_ok_float [of f] show ?thesis by auto
next
  case (PList xs)
  with assms show ?thesis
    by (auto simp: start_ok_def is_ws_def recursion_error_def bind_res_Inr split: if_splits)
next
  case (PDict xs)
  with assms show ?thesis
    by (auto simp: start_ok_def is_ws_def recursion_error_def bind_res_Inr split: if_splits)
qed (use assms in \<open>auto simp: start_ok_def is_ws_def u_def str_json_def split: if_splits\<close>)

lemma join_simps [simp]:
  "join sep [] = []" "join sep [s] = s" "join sep (s # t # ss) = s @ sep @ join sep (t # ss)"
  by (simp_all add: join_def)

lemma join_Cons: "join sep ((c # s) # ss) = c # join sep (s # ss)"
  by (simp add: join_def)

lemma list_all2_same_Cons: "list_all2 P (x # xs) ss \<Longrightarrow> \<exists>s ts. ss = s # ts \<and> P x s \<and> list_all2 P xs ts"
  by (cases ss) auto

lemma parse_elems_join:
  assumes "list_all2 (\<lambda>x s. start_ok s \<and>
             (\<forall>rest. num_stop rest \<longrightarrow> parse_val H d (s @ rest) = Inr (x, rest))) xs ss" "xs \<noteq> []"
  shows "parse_elems H d (join [44] ss @ 93 # rest) = Inr (xs, rest)"
  using assms
proof (induction xs arbitrary: ss)
  case (Cons x xs)
  from list_all2_same_Cons [OF Cons.prems(1)] obtain s ts where ss: "ss = s # ts" "start_ok s"
      and val: "\<And>rest. num_stop rest \<Longrightarrow> parse_val H d (s @ rest) = Inr (x, rest)"
      and rest: "list_all2 (\<lambda>x s. start_ok s \<and>
        (\<forall>rest. num_stop rest \<longrightarrow> parse_val H d (s @ rest) = Inr (x, rest))) xs ts"
    by blast
  show ?case
  proof (cases xs)
    case Nil
    with rest ss val [of "93 # rest"] show ?thesis
      by (subst parse_elems.simps) (simp add: starts_with_def)
  next
    case (Cons y ys)
    with list_all2_same_Cons [of _ y ys ts] rest obtain t us where ts: "ts = t # us" "start_ok t"
      by blast
    then have sk: "skip_ws (join [44] ts @ 93 # rest) = join [44] ts @ 93 # rest"
      by (cases us) simp_all
    have t1: "join [44] ss @ 93 # rest = s @ 44 # (join [44] ts @ 93 # rest)"
      using ss(1) ts(1) by simp
    show ?thesis
      using Cons.IH [OF rest] Cons val [of "44 # (join [44] ts @ 93 # rest)"] sk
      unfolding t1 by (subst parse_elems.simps) (simp add: starts_with_def)
  qed
qed simp

lemma parse_members_join:
  assumes "list_all2 (\<lambda>p s. start_ok s \<and>
             (\<forall>rest. num_stop rest \<longrightarrow> parse_val H d (s @ rest) = Inr (snd p, rest))) ps ss" "ps \<noteq> []"
  shows "parse_members H d (join [44] (map2 (\<lambda>p s. str_json False (fst p) @ [58] @ s) ps ss) @ 125 # rest)
           = Inr (ps, rest)"
  using assms
proof (induction ps arbitrary: ss)
  case (Cons p ps)
  from list_all2_same_Cons [OF Cons.prems(1)] obtain s ts where ss: "ss = s # ts" "start_ok s"
      and val: "\<And>rest. num_stop rest \<Longrightarrow> parse_val H d (s @ rest) = Inr (snd p, rest)"
      and rest: "list_all2 (\<lambda>p s. start_ok s \<and>
        (\<forall>rest. num_stop rest \<longrightarrow> parse_val H d (s @ rest) = Inr (snd p, rest))) ps ts"
    by blast
  let ?J = "\<lambda>ps ss. join [44] (map2 (\<lambda>p s. str_json False (fst p) @ [58] @ s) ps ss)"
  have key: "scan_str (drop 1 (str_json False (fst p) @ t)) = Some (fst p, t)" for t
    by (rule scan_str_json)
  have q: "starts_with [34] (str_json False k @ t)" for k t
    by (simp add: str_json_def starts_with_def)
  show ?case
  proof (cases ps)
    case Nil
    with rest ss val [of "125 # rest"] key [of "58 # s @ 125 # rest"] q show ?thesis
      by (subst parse_members.simps) (simp add: starts_with_def)
  next
    case (Cons y ys)
    with list_all2_same_Cons [of _ y ys ts] rest obtain t us where ts: "ts = t # us"
      by blast
    have sk: "skip_ws (?J ps ts @ 125 # rest) = ?J ps ts @ 125 # rest"
      using Cons ts by (simp add: str_json_def join_Cons)
    have t1: "?J (p # ps) ss @ 125 # rest
                = str_json False (fst p) @ 58 # (s @ 44 # (?J ps ts @ 125 # rest))"
      using Cons ss(1) ts(1) by simp
    show ?thesis
      using Cons.IH [OF rest] Cons val [of "44 # (?J ps ts @ 125 # rest)"] sk q ss(2)
        key [of "58 # (s @ 44 # (?J ps ts @ 125 # rest))"]
      unfolding t1 by (subst parse_members.simps) (simp add: starts_with_def)
  qed
qed simp

lemma list_all2_map_cong:
  assumes "list_all2 (\<lambda>x s. f x = Inr s) xs ss" "\<And>x s. x \<in> set xs \<Longrightarrow> f x = Inr s \<Longrightarrow> P x s"
  shows "list_all2 P xs ss"
  using assms by (auto simp: list_all2_conv_all_nth)

lemma seq_res_pairs:
  assumes "seq_res (map (\<lambda>p. bind_res (f (snd p)) (\<lambda>s. Inr (g (fst p) s))) ps) = Inr ts"
  shows "\<exists>ss. list_all2 (\<lambda>p s. f (snd p) = Inr s) ps ss \<and> ts = map2 (\<lambda>p s. g (fst p) s) ps ss"
  using assms
proof (induction ps arbitrary: ts)
  case (Cons p ps)
  then obtain s ts' where s: "f (snd p) = Inr s" "ts = g (fst p) s # ts'"
      and "seq_res (map (\<lambda>p. bind_res (f (snd p)) (\<lambda>s. Inr (g (fst p) s))) ps) = Inr ts'"
    by (auto simp: bind_res_Inr)
  with Cons.IH obtain ss where "list_all2 (\<lambda>p s. f (snd p) = Inr s) ps ss" "ts' = map2 (\<lambda>p s. g (fst p) s) ps ss"
    by blast
  with s show ?case
    by (intro exI [of _ "s # ss"]) simp
qed simp

lemma parse_val_open:
  "d \<noteq> 0 \<Longrightarrow> starts_with [91] t \<Longrightarrow> skip_ws (drop 1 t) = r \<Longrightarrow> \<not> starts_with [93] r \<Longrightarrow>
     parse_elems H (d - 1) r = Inr (vs, q) \<Longrightarrow> parse_val H d t = Inr (h_arr H vs, q)"
  "d \<noteq> 0 \<Longrightarrow> starts_with [123] t \<Longrightarrow> skip_ws (drop 1 t) = r \<Longrightarrow> \<not> starts_with [125] r \<Longrightarrow>
     parse_members H (d - 1) r = Inr (ps, q) \<Longrightarrow> parse_val H d t = Inr (h_obj H ps, q)"
  by (subst parse_val.simps; cases t; simp add: starts_with_def Let_def)+

theorem dump_val_parse_val:
  assumes "dump_val False d v = Inr s" "wf_val v" "floats_ok v" "num_stop rest"
  shows "parse_val py_hooks d (s @ rest) = Inr (v, rest)"
  using assms
proof (induction v arbitrary: d s rest)
  case (PInt i)
  then show ?case using parse_int_json by simp
next
  case (PFloat f)
  then show ?case using parse_float_json [of f rest d] by auto
next
  case (PStr t)
  then have "s = str_json False t" by simp
  moreover have "scan_str (drop 1 (str_json False t @ rest)) = Some (t, rest)"
    by (rule scan_str_json)
  ultimately show ?case
    by (subst parse_val.simps) (simp add: parse_atom_def str_json_def starts_with_def)
next
  case (PList xs)
  from PList.prems(1) obtain ss where d: "d \<noteq> 0" and s: "s = [91] @ join [44] ss @ [93]"
      and ss: "list_all2 (\<lambda>x t. dump_val False (d - 1) x = Inr t) xs ss"
    by (auto simp: recursion_error_def bind_res_Inr seq_res_map_Inr split: if_splits)
  show ?case
  proof (cases "xs = []")
    case True
    with s ss d show ?thesis
      by (subst parse_val.simps) (simp add: starts_with_def)
  next
    case False
    have "list_all2 (\<lambda>x t. start_ok t \<and>
            (\<forall>rest. num_stop rest \<longrightarrow> parse_val py_hooks (d - 1) (t @ rest) = Inr (x, rest))) xs ss"
      using PList.IH PList.prems start_ok_dump by (intro list_all2_map_cong [OF ss]) auto
    from parse_elems_join [OF this False, of rest] parse_val_open(1) [OF d, of "s @ rest" _ py_hooks xs rest]
    have elems: "parse_elems py_hooks (d - 1) (join [44] ss @ 93 # rest) = Inr (xs, rest)" by simp
    obtain t ts where t: "ss = t # ts" "start_ok t"
      using False ss start_ok_dump [of False "d - 1"] PList.prems(3) by (cases xs; cases ss) auto
    then obtain j where "join [44] ss = t @ j"
      by (simp add: join_def)
    with t(2) have "skip_ws (join [44] ss @ 93 # rest) = join [44] ss @ 93 # rest"
        "\<not> starts_with [93] (join [44] ss @ 93 # rest)"
      by (simp, cases t) (auto simp: start_ok_def starts_with_def)
    with elems parse_val_open(1) [OF d, of "s @ rest" _ py_hooks xs rest] s show ?thesis
      by (simp add: starts_with_def)
  qed
next
  case (PDict ps)
  from PDict.prems(1) obtain ts where d: "d \<noteq> 0" and s: "s = [123] @ join [44] ts @ [125]"
      and "seq_res (map (\<lambda>p. bind_res (dump_val False (d - 1) (snd p))
             (\<lambda>s. Inr (str_json False (fst p) @ [58] @ s))) ps) = Inr ts"
    by (auto simp: recursion_error_def bind_res_Inr split: if_splits)
  from seq_res_pairs [OF this(3)] obtain ss
    where ss: "list_all2 (\<lambda>p t. dump_val False (d - 1) (snd p) = Inr t) ps ss"
      and ts: "ts = map2 (\<lambda>p s. str_json False (fst p) @ [58] @ s) ps ss"
    by blast
  show ?case
  proof (cases "ps = []")
    case True
    with s ts d show ?thesis
      by (subst parse_val.simps) (simp add: starts_with_def)
  next
    case False
    have "list_all2 (\<lambda>p t. start_ok t \<and>
            (\<forall>rest. num_stop rest \<longrightarrow> parse_val py_hooks (d - 1) (t @ rest) = Inr (snd p, rest))) ps ss"
      using PDict.IH PDict.prems start_ok_dump
      by (intro list_all2_map_cong [OF ss]) (auto, fastforce+)
    from parse_members_join [OF this False, of rest]
    have mem: "parse_members py_hooks (d - 1) (join [44] ts @ 125 # rest) = Inr (ps, rest)"
      by (simp add: ts)
    obtain p qs t us where "ps = p # qs" "ss = t # us"
      using False ss by (cases ps; cases ss) auto
    then obtain j where "join [44] ts = 34 # j"
      by (simp add: ts str_json_def join_Cons)
    with mem parse_val_open(2) [OF d, of "s @ rest" _ py_hooks ps rest] s PDict.prems(2) show ?thesis
      by (simp add: starts_with_def)
  qed
next
  case PNone
  then show ?case
    by (subst parse_val.simps) (auto simp: parse_atom_def starts_with_def u_def)
next
  case (PBool b)
  then show ?case
    by (cases b; subst parse_val.simps) (auto simp: parse_atom_def starts_with_def u_def)
qed simp

text \<open>\<open>json.loads(json.dumps(v)) == v\<close>.\<close>

lemma parse_val_bom: "starts_with [0xFEFF] s \<Longrightarrow> parse_val H d s = json_error ''Expecting value''"
  by (cases s; subst parse_val.simps)
     (simp_all add: starts_with_def parse_atom_def u_def scan_num_def scan_int_def scan_sign_def is_digit_def)

theorem loads_dumps:
  assumes "dumps v = Inr s" "wf_val v" "floats_ok v"
  shows "loads s = Inr v"
proof -
  have "start_ok s"
    using assms start_ok_dump by (auto simp: dumps_def)
  then have "skip_ws s = s"
    using skip_ws_start [of s "[]"] by simp
  moreover have "\<not> starts_with [0xFEFF] s"
    using dump_val_parse_val [of max_nesting v s "[]"] assms parse_val_bom [of s py_hooks max_nesting]
    by (auto simp: dumps_def json_error_def)
  ultimately show ?thesis
    using dump_val_parse_val [of max_nesting v s "[]"] assms
    by (simp add: loads_def loads_with_def dumps_def)
qed

section \<open>What can be printed\<close>

text \<open>The values \<open>dumps\<close> accepts at a given nesting: everything \<open>loads\<close> can have read there.\<close>

fun dumpable :: "nat \<Rightarrow> pyval \<Rightarrow> bool" where
  "dumpable d (PInt i) = (length (nat_str (nat \<bar>i\<bar>)) \<le> int_max_str_digits)"
| "dumpable d (PList xs) = (d \<noteq> 0 \<and> (\<forall>x \<in> set xs. dumpable (d - 1) x))"
| "dumpable d (PDict ps) = (d \<noteq> 0 \<and> (\<forall>p \<in> set ps. dumpable (d - 1) (snd p)))"
| "dumpable d (POther n) = False"
| "dumpable d v = True"

lemma seq_res_total: "\<forall>x \<in> set xs. \<exists>s. f x = Inr s \<Longrightarrow> \<exists>ss. seq_res (map f xs) = Inr ss"
  by (induction xs) auto

lemma dumpable_dumps: "dumpable d v \<Longrightarrow> \<exists>s. dump_val a d v = Inr s"
proof (induction v arbitrary: d)
  case (PList xs)
  then have "\<exists>ss. seq_res (map (dump_val a (d - 1)) xs) = Inr ss"
    by (intro seq_res_total) auto
  with PList.prems show ?case by auto
next
  case (PDict ps)
  then have "\<exists>ss. seq_res (map (\<lambda>p. bind_res (dump_val a (d - 1) (snd p))
        (\<lambda>s. Inr (str_json a (fst p) @ [58] @ s))) ps) = Inr ss"
    by (intro seq_res_total) (force simp: bind_res_Inr)
  with PDict.prems show ?case by auto
qed (auto simp: int_json_def)

lemma digits_val_bound: "\<forall>c \<in> set ds. is_digit c \<Longrightarrow> digits_val ds < 10 ^ length ds"
  by (induction ds rule: rev_induct) (auto simp: digits_val_snoc is_digit_def, simp add: digits_val_def)

lemma length_nat_str: "0 < k \<Longrightarrow> n < 10 ^ k \<Longrightarrow> length (nat_str n) \<le> k"
proof (induction n arbitrary: k rule: nat_str.induct)
  case (1 n)
  show ?case
  proof (cases "n < 10")
    case True
    with 1 show ?thesis by (simp add: nat_str.simps [of n])
  next
    case False
    with "1.prems" obtain j where k: "k = Suc j" "0 < j"
      by (cases k; cases "k - 1") auto
    with "1.prems" have "n div 10 < 10 ^ j"
      by (simp add: div_less_iff_less_mult mult.commute)
    with "1.IH" [OF False k(2)] k False show ?thesis
      by (subst nat_str.simps) simp
  qed
qed

lemma py_hooks_keep: "hooks_keep (\<lambda>d v. dumpable d v \<and> wf_val v) py_hooks"
proof -
  have int: "dumpable d v \<and> wf_val v" if "int_lit lit" "py_int_hook lit = Inr v" for d lit v
  proof -
    obtain neg ds where ds: "scan_sign lit = (neg, ds)" by force
    with that have n: "ds \<noteq> []" "\<forall>c \<in> set ds. is_digit c" "length ds \<le> int_max_str_digits"
        and v: "v = PInt (if neg then - int (digits_val ds) else int (digits_val ds))"
      by (auto simp: int_lit_def py_int_hook_def int_too_long_def lit_int_def json_error_def split: if_splits)
    have "length (nat_str (digits_val ds)) \<le> length ds"
      using n by (intro length_nat_str digits_val_bound) auto
    with n v show ?thesis by auto
  qed
  have keys: "(k, v) \<in> set (dict_of_pairs ps) \<Longrightarrow> v \<in> snd ` set ps" for k v ps
    by (drule set_dict_of_pairs) force
  have obj: "dumpable d (PDict (dict_of_pairs ps)) \<and> wf_val (PDict (dict_of_pairs ps))"
    if "d \<noteq> 0" "\<forall>p \<in> set ps. dumpable (d - 1) (snd p) \<and> wf_val (snd p)" for d ps
    using that keys [of _ _ ps] by fastforce
  show ?thesis
    using int obj by (auto simp: hooks_keep_def py_const_hook_def)
qed

lemma loads_dumpable: "loads s = Inr v \<Longrightarrow> dumpable max_nesting v \<and> wf_val v"
  unfolding loads_def by (rule loads_with_keep [OF py_hooks_keep])

lemma writable_ddel:
  "dumpable n (PDict d) \<Longrightarrow> dumpable n (PDict (ddel k d))"
  "wf_val (PDict d) \<Longrightarrow> wf_val (PDict (ddel k d))"
  "floats_ok (PDict d) \<Longrightarrow> floats_ok (PDict (ddel k d))"
  by (fastforce dest: set_ddel)+

lemma writable_dset:
  "dumpable n (PDict d) \<Longrightarrow> dumpable (n - 1) v \<Longrightarrow> dumpable n (PDict (dset k v d))"
  "wf_val (PDict d) \<Longrightarrow> wf_val v \<Longrightarrow> wf_val (PDict (dset k v d))"
  "floats_ok (PDict d) \<Longrightarrow> floats_ok v \<Longrightarrow> floats_ok (PDict (dset k v d))"
  by (fastforce dest: set_dset)+

lemma writable_get:
  "dget d k = Some v \<Longrightarrow> dumpable n (PDict d) \<Longrightarrow> dumpable (n - 1) v"
  "dget d k = Some v \<Longrightarrow> wf_val (PDict d) \<Longrightarrow> wf_val v"
  "dget d k = Some v \<Longrightarrow> floats_ok (PDict d) \<Longrightarrow> floats_ok v"
  by (fastforce dest: map_of_SomeD)+

lemmas writable = writable_ddel writable_dset writable_get

end
