(* ===== verification/Codec.thy ===== *)
theory Codec
  imports JsonPrint
begin

text \<open>
  \<open>codec.py\<close>: the wire envelope. Building it (\<open>make\<close>, \<open>from_message\<close>), writing it (\<open>encode\<close>) and
  reading it (\<open>parse_envelope\<close>, \<open>decode\<close>, \<open>decode_lenient\<close>), the forbidden keys, the identity
  (\<open>job\<close> with its inbound alias \<open>urn\<close>) and the consumer-side check \<open>accepts\<close>. The log records of
  the codec's logger are returned next to the result. The verdict \<open>poison_cause\<close> is in
  \<open>EnvelopeShape\<close>, with the typed decode it uses.
\<close>

section \<open>Keys\<close>

definition SCHEMA_VERSION :: int where
  "SCHEMA_VERSION = 1"

definition SOURCE_LANG :: pystr where
  "SOURCE_LANG = u ''python''"

definition CORE_META_KEYS :: "pystr list" where
  "CORE_META_KEYS = [u ''id'', u ''queue'', u ''lang'', u ''schema_version'', u ''created_at'']"

definition FORBIDDEN_KEYS :: "(pystr option \<times> pystr) list" where
  "FORBIDDEN_KEYS =
     [(None, u ''timestamp''), (Some (u ''meta''), u ''max_retries''), (Some (u ''meta''), u ''attempts''),
      (Some (u ''meta''), u ''source''), (Some (u ''meta''), u ''ts'')]"

definition ASCII_WHITESPACE :: "nat list" where
  "ASCII_WHITESPACE = [32, 9, 10, 11, 12, 13]"

text \<open>The dictionary a forbidden key is looked up in, and the pointer naming the key.\<close>

definition key_target :: "pyval dict \<Rightarrow> pystr option \<Rightarrow> pyval dict option" where
  "key_target envelope container =
     (case container of None \<Rightarrow> Some envelope | Some c \<Rightarrow> as_dict (dget envelope c))"

definition key_pointer :: "pystr option \<Rightarrow> pystr \<Rightarrow> pystr" where
  "key_pointer container key =
     (case container of None \<Rightarrow> u ''/'' @ key | Some c \<Rightarrow> u ''/'' @ c @ u ''/'' @ key)"

definition del_in :: "pystr option \<Rightarrow> pystr \<Rightarrow> pyval dict \<Rightarrow> pyval dict" where
  "del_in container key envelope =
     (case container of
        None \<Rightarrow> ddel key envelope
      | Some c \<Rightarrow> (case as_dict (dget envelope c) of
                     None \<Rightarrow> envelope
                   | Some d \<Rightarrow> dset c (PDict (ddel key d)) envelope))"

definition carries :: "pyval dict \<Rightarrow> pystr option \<times> pystr \<Rightarrow> bool" where
  "carries envelope ck =
     (case key_target envelope (fst ck) of None \<Rightarrow> False | Some d \<Rightarrow> dhas (snd ck) d)"

fun strip_keys :: "(pystr option \<times> pystr) list \<Rightarrow> pyval dict \<Rightarrow> pyval dict \<times> pystr list" where
  "strip_keys [] envelope = (envelope, [])"
| "strip_keys ((container, key) # cks) envelope =
     (if \<not> carries envelope (container, key) then strip_keys cks envelope
      else (let (envelope', dropped) = strip_keys cks (del_in container key envelope)
            in (envelope', key_pointer container key # dropped)))"

definition strip_forbidden_keys :: "pyval dict \<Rightarrow> pyval dict \<times> pystr list" where
  "strip_forbidden_keys envelope = strip_keys FORBIDDEN_KEYS envelope"

definition has_forbidden_keys :: "pyval dict \<Rightarrow> bool" where
  "has_forbidden_keys envelope = list_ex (carries envelope) FORBIDDEN_KEYS"

definition has_invalid_utf8 :: "pystr \<Rightarrow> bool" where
  "has_invalid_utf8 text = list_ex (\<lambda>ch. 0xDC80 \<le> ch \<and> ch \<le> 0xDCFF) text"

definition first_encode_violation :: "pyval dict \<Rightarrow> pystr option" where
  "first_encode_violation envelope =
     (case find (carries envelope) FORBIDDEN_KEYS of
        Some (container, key) \<Rightarrow> Some (key_pointer container key)
      | None \<Rightarrow> if dhas (u ''urn'') envelope then Some (u ''/urn'') else None)"

section \<open>Reading\<close>

text \<open>\<open>except (ValueError, TypeError)\<close>: a \<open>RecursionError\<close> of the parser is not caught here.\<close>

definition parse_object :: "pystr \<Rightarrow> pyval dict option res" where
  "parse_object raw =
     (case loads raw of
        Inl e \<Rightarrow> if exc_class_of e = ValueError \<or> exc_class_of e = TypeError then Inr None else Inl e
      | Inr v \<Rightarrow> Inr (as_dict (Some v)))"

definition parse_envelope :: "pystr \<Rightarrow> pyval dict res" where
  "parse_envelope raw =
     (case loads raw of
        Inl e \<Rightarrow> if exc_class_of e = ValueError \<or> exc_class_of e = TypeError then Inr [] else Inl e
      | Inr v \<Rightarrow> Inr (case as_dict (Some v) of None \<Rightarrow> [] | Some d \<Rightarrow> d))"

definition is_valid_urn :: "pyval option \<Rightarrow> bool" where
  "is_valid_urn value = (case as_str value of None \<Rightarrow> False | Some s \<Rightarrow> strip ASCII_WHITESPACE s \<noteq> [])"

fun py_type_name :: "pyval \<Rightarrow> pystr" where
  "py_type_name PNone = u ''NoneType''"
| "py_type_name (PBool b) = u ''bool''"
| "py_type_name (PInt i) = u ''int''"
| "py_type_name (PFloat f) = u ''float''"
| "py_type_name (PStr s) = u ''str''"
| "py_type_name (PList xs) = u ''list''"
| "py_type_name (PDict d) = u ''dict''"
| "py_type_name (POther n) = u ''object''"

text \<open>A record on the codec's logger: a dropped key, or an ignored \<open>job\<close> with its type's name.\<close>

datatype warning = Dropped pystr | IgnoredJob pystr bool

text \<open>\<open>decoded.get(k)\<close> tested by \<open>_is_valid_urn\<close>: an absent key is \<open>None\<close>, no string either way.\<close>

definition fold_identity :: "pyval dict \<Rightarrow> pyval dict \<times> warning list" where
  "fold_identity decoded0 =
     (let (decoded, dropped) = strip_forbidden_keys decoded0;
          w1 = map Dropped dropped;
          w2 = (case dget decoded (u ''job'') of
                  None \<Rightarrow> []
                | Some (PStr s) \<Rightarrow> []
                | Some v \<Rightarrow> [IgnoredJob (py_type_name v) (is_valid_urn (dget decoded (u ''urn'')))])
      in case dget decoded (u ''urn'') of
           None \<Rightarrow> (decoded, w1 @ w2)
         | Some alias \<Rightarrow>
             let popped = ddel (u ''urn'') decoded
             in if is_valid_urn (dget popped (u ''job''))
                then (popped, w1 @ w2 @ [Dropped (u ''/urn'')])
                else if is_valid_urn (Some alias) then (dset (u ''job'') alias popped, w1 @ w2)
                else (popped, w1 @ w2))"

definition decode :: "pystr \<Rightarrow> pyval dict res \<times> warning list" where
  "decode raw =
     (case parse_object raw of
        Inl e \<Rightarrow> (Inl e, [])
      | Inr None \<Rightarrow> (Inr [], [])
      | Inr (Some parsed) \<Rightarrow>
          let (decoded, log) = fold_identity parsed
          in if is_valid_urn (dget decoded (u ''job'')) then (Inr decoded, log)
             else (Inl (Exc BabelQueueError
                     (u ''The envelope has neither a valid string 'job' nor a valid string 'urn' (ADR-0032 section 6).'')),
                   log))"

definition decode_lenient :: "pystr \<Rightarrow> pyval dict res \<times> warning list" where
  "decode_lenient raw =
     (case parse_object raw of
        Inl e \<Rightarrow> (Inl e, [])
      | Inr None \<Rightarrow> (Inr [], [])
      | Inr (Some parsed) \<Rightarrow> let (decoded, log) = fold_identity parsed in (Inr decoded, log))"

text \<open>\<open>EnvelopeCodec.urn\<close> and \<open>EnvelopeCodec.accepts\<close>.\<close>

definition urn :: "pyval dict \<Rightarrow> pystr" where
  "urn envelope =
     (case dget envelope (u ''job'') of
        Some (PStr job) \<Rightarrow>
          if is_valid_urn (Some (PStr job)) then job
          else (case dget envelope (u ''urn'') of
                  Some (PStr alias) \<Rightarrow> if is_valid_urn (Some (PStr alias)) then alias else []
                | _ \<Rightarrow> [])
      | _ \<Rightarrow> (case dget envelope (u ''urn'') of
                Some (PStr alias) \<Rightarrow> if is_valid_urn (Some (PStr alias)) then alias else []
              | _ \<Rightarrow> []))"

definition accepts :: "pyval dict \<Rightarrow> bool" where
  "accepts envelope =
     (if urn envelope = [] then False
      else case as_dict (dget envelope (u ''meta'')) of
             None \<Rightarrow> False
           | Some meta \<Rightarrow>
               if \<not> py_eq_int (get_or_none meta (u ''schema_version'')) SCHEMA_VERSION then False
               else if as_dict (dget envelope (u ''data'')) = None then False
               else if as_int (dget envelope (u ''attempts'')) = None then False
               else (case as_str (dget envelope (u ''trace_id'')) of
                       None \<Rightarrow> False
                     | Some t \<Rightarrow> strip ASCII_WHITESPACE t \<noteq> []))"

section \<open>Writing\<close>

definition encode :: "pyval dict \<Rightarrow> pystr res" where
  "encode envelope =
     (case first_encode_violation envelope of
        Some pointer \<Rightarrow>
          Inl (Exc (EnvelopeKeyError pointer)
            (u ''Refusing to encode the forbidden envelope key '' @ pointer
             @ u '' (non-canonical, message-envelope.md '' @ [167] @ u ''10).''))
      | None \<Rightarrow> dumps (PDict envelope))"

text \<open>The producer's \<open>meta\<close> entries, refused at the first reserved or forbidden key.\<close>

definition reserved_meta_key :: "pystr \<Rightarrow> bool" where
  "reserved_meta_key key \<longleftrightarrow>
     key \<in> set CORE_META_KEYS \<or> (Some (u ''meta''), key) \<in> set FORBIDDEN_KEYS"

fun extra_meta :: "(pystr \<times> pyval) list \<Rightarrow> pyval dict \<Rightarrow> pyval dict res" where
  "extra_meta [] extra = Inr extra"
| "extra_meta ((key, value) # entries) extra =
     (if reserved_meta_key key
      then Inl (Exc (EnvelopeKeyError (u ''/meta/'' @ key))
             (u ''The producer meta key /meta/'' @ key @ u '' is reserved or forbidden (core meta keys and message-envelope.md ''
              @ [167] @ u ''10 keys cannot be set).''))
      else extra_meta entries (dset key value extra))"

definition producer_meta :: "pyval \<Rightarrow> pyval dict res" where
  "producer_meta meta =
     (case meta of
        PNone \<Rightarrow> Inr []
      | PDict entries \<Rightarrow> extra_meta entries []
      | _ \<Rightarrow> Inl (Exc BabelQueueError (u ''The producer meta must be a mapping of string keys to values.'')))"

text \<open>
  \<open>EnvelopeCodec.make\<close>. The two fresh UUIDs and the clock (in milliseconds) are arguments; the
  first UUID is used only when no trace id is given.
\<close>

definition make_envelope ::
  "pystr \<Rightarrow> pyval dict \<Rightarrow> pystr \<Rightarrow> pystr option \<Rightarrow> pyval \<Rightarrow> pystr \<Rightarrow> pystr \<Rightarrow> int \<Rightarrow> pyval dict res" where
  "make_envelope urn0 data queue trace_id meta fresh_trace fresh_id now_ms =
     (let urn1 = strip ASCII_WHITESPACE urn0
      in if urn1 = []
         then Inl (Exc BabelQueueError
                (u ''A polyglot message must expose a stable, non-empty URN so consumers can identify it without any class name.''))
         else let given = strip ASCII_WHITESPACE (case trace_id of None \<Rightarrow> [] | Some t \<Rightarrow> t);
                  trace = (if given = [] then fresh_trace else given)
              in bind_res (producer_meta meta) (\<lambda>extra.
                   Inr [(u ''job'', PStr urn1), (u ''trace_id'', PStr trace), (u ''data'', PDict data),
                        (u ''meta'', PDict (dupdate
                           [(u ''id'', PStr fresh_id), (u ''queue'', PStr queue), (u ''lang'', PStr SOURCE_LANG),
                            (u ''schema_version'', PInt SCHEMA_VERSION), (u ''created_at'', PInt now_ms)] extra)),
                        (u ''attempts'', PInt 0)]))"

text \<open>
  A message object (\<open>contracts.py\<close>): \<open>get_babel_trace_id\<close> is optional, and may answer \<open>None\<close>.
\<close>

record message =
  get_babel_urn :: pystr
  to_payload :: "pyval dict"
  get_babel_trace_id :: "pystr option option"

definition from_message :: "message \<Rightarrow> pystr \<Rightarrow> pystr \<Rightarrow> pystr \<Rightarrow> int \<Rightarrow> pyval dict res" where
  "from_message m queue fresh_trace fresh_id now_ms =
     (let trace_id = (case get_babel_trace_id m of None \<Rightarrow> None | Some t \<Rightarrow> t)
      in make_envelope (get_babel_urn m) (to_payload m) queue trace_id PNone fresh_trace fresh_id now_ms)"

section \<open>Laws of the forbidden-key drop\<close>

lemma carries_del_in: "carries (del_in c k d) ck \<longleftrightarrow> carries d ck \<and> ck \<noteq> (c, k)" if "c = None \<longrightarrow> fst ck \<noteq> Some k"
  using that by (cases ck; cases "fst ck"; cases c)
    (auto simp: carries_def del_in_def key_target_def dhas_def split: option.splits)

lemma carries_del_in_mono: "carries (del_in c k d) ck \<Longrightarrow> carries d ck \<and> ck \<noteq> (c, k)"
  by (cases ck; cases "fst ck"; cases c)
    (auto simp: carries_def del_in_def key_target_def dhas_def split: option.splits if_splits)

lemma strip_keys_mono: "carries (fst (strip_keys cks d)) ck \<Longrightarrow> carries d ck"
  by (induction cks d rule: strip_keys.induct)
     (auto simp: Let_def split: if_splits prod.splits dest: carries_del_in_mono)

lemma strip_keys_clean: "ck \<in> set cks \<Longrightarrow> \<not> carries (fst (strip_keys cks d)) ck"
proof (induction cks d rule: strip_keys.induct)
  case (2 c k cks d)
  then show ?case
    using strip_keys_mono [of cks d "(c, k)"] strip_keys_mono [of cks "del_in c k d" "(c, k)"]
    by (auto simp: Let_def split: prod.splits dest: carries_del_in_mono)
qed simp

lemma strip_keys_id: "\<forall>ck \<in> set cks. \<not> carries d ck \<Longrightarrow> strip_keys cks d = (d, [])"
  by (induction cks d rule: strip_keys.induct) auto

lemma strip_keys_top:
  "(None, k) \<notin> set cks \<Longrightarrow> \<forall>k'. (Some k, k') \<notin> set cks \<Longrightarrow> dget (fst (strip_keys cks d)) k = dget d k"
proof (induction cks d rule: strip_keys.induct)
  case (2 c k' cks d)
  then have "dget (del_in c k' d) k = dget d k"
    by (auto simp: del_in_def split: option.splits)
  with 2 show ?case
    by (auto simp: Let_def split: prod.splits)
qed simp

lemma strip_keys_nested:
  assumes "(None, c) \<notin> set cks" "dget d c = Some (PDict m)"
  shows "\<exists>m'. dget (fst (strip_keys cks d)) c = Some (PDict m')
            \<and> (\<forall>k. dget m' k = (if (Some c, k) \<in> set cks then None else dget m k))"
  using assms
proof (induction cks d arbitrary: m rule: strip_keys.induct)
  case (2 c' k' cks d)
  show ?case
  proof (cases "carries d (c', k')")
    case False
    with 2 obtain m' where m': "dget (fst (strip_keys cks d)) c = Some (PDict m')"
        "\<forall>k. dget m' k = (if (Some c, k) \<in> set cks then None else dget m k)"
      by (metis list.set_intros(2))
    moreover have "dget m k' = None" if "c' = Some c"
      using False that "2.prems"(2) by (simp add: carries_def key_target_def dhas_def)
    ultimately show ?thesis
      using False by auto
  next
    case True
    define m1 where "m1 = (if c' = Some c then ddel k' m else m)"
    have "dget (del_in c' k' d) c = Some (PDict m1)"
      using "2.prems" by (auto simp: del_in_def m1_def split: option.splits)
    with "2.IH"(2) [OF _ _ this] True "2.prems"(1) obtain m' where
        "dget (fst (strip_keys cks (del_in c' k' d))) c = Some (PDict m')"
        "\<forall>k. dget m' k = (if (Some c, k) \<in> set cks then None else dget m1 k)"
      by auto
    then show ?thesis
      using True by (auto simp: Let_def m1_def split: prod.splits)
  qed
qed simp

lemma strip_keys_not_dict:
  assumes "(None, c) \<notin> set cks" "as_dict (dget d c) = None"
  shows "dget (fst (strip_keys cks d)) c = dget d c"
  using assms
proof (induction cks d rule: strip_keys.induct)
  case (2 c' k' cks d)
  have "dget (del_in c' k' d) c = dget d c"
    using 2 by (auto simp: del_in_def split: option.splits)
  with 2 show ?case
    by (auto simp: Let_def split: prod.splits)
qed simp

lemma forbidden_mem [simp]:
  "(None, k) \<in> set FORBIDDEN_KEYS \<longleftrightarrow> k = u ''timestamp''"
  "(Some c, k) \<in> set FORBIDDEN_KEYS \<longleftrightarrow>
     c = u ''meta'' \<and> k \<in> {u ''max_retries'', u ''attempts'', u ''source'', u ''ts''}"
  by (auto simp: FORBIDDEN_KEYS_def)

lemma strip_top [simp]:
  "k \<noteq> u ''timestamp'' \<Longrightarrow> k \<noteq> u ''meta'' \<Longrightarrow> dget (fst (strip_forbidden_keys d)) k = dget d k"
  by (simp add: strip_forbidden_keys_def strip_keys_top)

lemma strip_meta:
  "dget d (u ''meta'') = Some (PDict m) \<Longrightarrow>
     \<exists>m'. dget (fst (strip_forbidden_keys d)) (u ''meta'') = Some (PDict m')
        \<and> (\<forall>k. dget m' k = (if k \<in> {u ''max_retries'', u ''attempts'', u ''source'', u ''ts''}
                             then None else dget m k))"
  "as_dict (dget d (u ''meta'')) = None \<Longrightarrow> dget (fst (strip_forbidden_keys d)) (u ''meta'') = dget d (u ''meta'')"
  using strip_keys_nested [of "u ''meta''" FORBIDDEN_KEYS d m]
    strip_keys_not_dict [of "u ''meta''" FORBIDDEN_KEYS d]
  by (simp_all add: strip_forbidden_keys_def)

lemma strip_clean: "\<not> has_forbidden_keys (fst (strip_forbidden_keys d))"
  using strip_keys_clean by (auto simp: has_forbidden_keys_def strip_forbidden_keys_def list_ex_iff)

lemma strip_id: "\<not> has_forbidden_keys d \<Longrightarrow> strip_forbidden_keys d = (d, [])"
  by (simp add: has_forbidden_keys_def strip_forbidden_keys_def list_ex_iff strip_keys_id)

text \<open>\<open>has_forbidden_keys\<close> and \<open>_first_encode_violation\<close> agree, the alias \<open>urn\<close> apart.\<close>

lemma find_None_ex: "find P xs = None \<longleftrightarrow> \<not> list_ex P xs"
  by (induction xs) auto

lemma first_encode_violation_None:
  "first_encode_violation d = None \<longleftrightarrow> \<not> has_forbidden_keys d \<and> \<not> dhas (u ''urn'') d"
  unfolding has_forbidden_keys_def find_None_ex [symmetric]
  by (auto simp: first_encode_violation_def split: option.splits)

section \<open>Laws of the identity fold\<close>

lemma carries_ddel_urn [simp]: "carries (ddel (u ''urn'') d) ck \<longleftrightarrow> carries d ck" if "ck \<in> set FORBIDDEN_KEYS"
  using that by (auto simp: FORBIDDEN_KEYS_def carries_def key_target_def)

lemma carries_dset_job [simp]: "carries (dset (u ''job'') v d) ck \<longleftrightarrow> carries d ck" if "ck \<in> set FORBIDDEN_KEYS"
  using that by (auto simp: FORBIDDEN_KEYS_def carries_def key_target_def)

lemma has_forbidden_fold [simp]:
  "has_forbidden_keys (ddel (u ''urn'') d) = has_forbidden_keys d"
  "has_forbidden_keys (dset (u ''job'') v d) = has_forbidden_keys d"
  by (auto simp: has_forbidden_keys_def list_ex_iff)

lemma is_valid_urn_None [simp]: "\<not> is_valid_urn None"
  by (simp add: is_valid_urn_def)

lemma fold_identity_fst:
  "fst (fold_identity d) =
     (let d1 = fst (strip_forbidden_keys d)
      in case dget d (u ''urn'') of
           None \<Rightarrow> d1
         | Some alias \<Rightarrow>
             if is_valid_urn (dget d (u ''job'')) then ddel (u ''urn'') d1
             else if is_valid_urn (Some alias) then dset (u ''job'') alias (ddel (u ''urn'') d1)
             else ddel (u ''urn'') d1)"
proof -
  obtain d1 dropped where d1: "strip_forbidden_keys d = (d1, dropped)" by force
  then have "dget d1 (u ''urn'') = dget d (u ''urn'')" "dget d1 (u ''job'') = dget d (u ''job'')"
    using strip_top [of "u ''urn''" d] strip_top [of "u ''job''" d] by simp_all
  with d1 show ?thesis
    by (simp add: fold_identity_def Let_def split: option.split)
qed

text \<open>What the fold leaves: the identity resolved, every other key as the drop left it.\<close>

lemma fold_identity_get:
  assumes "fold_identity d = (d', log)"
  shows "k \<noteq> u ''job'' \<Longrightarrow> k \<noteq> u ''urn'' \<Longrightarrow> dget d' k = dget (fst (strip_forbidden_keys d)) k"
    and "dget d' (u ''urn'') = None"
    and "dget d' (u ''job'') =
           (if \<not> is_valid_urn (dget d (u ''job'')) \<and> is_valid_urn (dget d (u ''urn''))
            then dget d (u ''urn'') else dget d (u ''job''))"
    and "\<not> has_forbidden_keys d'"
proof -
  have d': "d' = fst (fold_identity d)"
    using assms by simp
  show "k \<noteq> u ''job'' \<Longrightarrow> k \<noteq> u ''urn'' \<Longrightarrow> dget d' k = dget (fst (strip_forbidden_keys d)) k"
    unfolding d' fold_identity_fst Let_def by (simp split: option.split)
  show "dget d' (u ''urn'') = None"
    unfolding d' fold_identity_fst Let_def by (simp split: option.split)
  show "dget d' (u ''job'') =
           (if \<not> is_valid_urn (dget d (u ''job'')) \<and> is_valid_urn (dget d (u ''urn''))
            then dget d (u ''urn'') else dget d (u ''job''))"
    unfolding d' fold_identity_fst Let_def by (simp split: option.split)
  show "\<not> has_forbidden_keys d'"
    unfolding d' fold_identity_fst Let_def by (simp add: strip_clean split: option.split)
qed

lemma fold_identity_encodable: "fold_identity d = (d', log) \<Longrightarrow> first_encode_violation d' = None"
  using fold_identity_get [of d d' log] by (simp add: first_encode_violation_None dhas_def)

lemma is_valid_urn_Some: "is_valid_urn v \<longleftrightarrow> (\<exists>s. v = Some (PStr s) \<and> strip ASCII_WHITESPACE s \<noteq> [])"
  by (auto simp: is_valid_urn_def split: option.splits)

lemma urn_eq:
  "urn d = (if is_valid_urn (dget d (u ''job'')) then the (as_str (dget d (u ''job'')))
            else if is_valid_urn (dget d (u ''urn'')) then the (as_str (dget d (u ''urn''))) else [])"
  by (auto simp: urn_def is_valid_urn_Some split: option.splits pyval.splits)

lemma urn_Nil: "urn d = [] \<longleftrightarrow> \<not> is_valid_urn (dget d (u ''job'')) \<and> \<not> is_valid_urn (dget d (u ''urn''))"
  by (auto simp: urn_eq is_valid_urn_Some)

lemma fold_identity_urn: "fold_identity d = (d', log) \<Longrightarrow> urn d' = urn d"
  using fold_identity_get(2,3) [of d d' log] by (auto simp: urn_eq)

section \<open>Decoded envelopes can be written again\<close>

lemma writable_del_in:
  "dumpable n (PDict d) \<Longrightarrow> dumpable n (PDict (del_in c k d))"
  "wf_val (PDict d) \<Longrightarrow> wf_val (PDict (del_in c k d))"
  by (auto simp: del_in_def simp del: dumpable.simps wf_val.simps split: option.splits
      intro: writable_ddel writable_dset dest: writable_get)

lemma writable_strip_keys:
  "dumpable n (PDict d) \<Longrightarrow> dumpable n (PDict (fst (strip_keys cks d)))"
  "wf_val (PDict d) \<Longrightarrow> wf_val (PDict (fst (strip_keys cks d)))"
  by (induction cks d rule: strip_keys.induct)
     (simp_all add: Let_def writable_del_in case_prod_unfold del: dumpable.simps wf_val.simps)

lemma writable_fold_identity:
  assumes "fold_identity d = (d', log)"
  shows "dumpable n (PDict d) \<Longrightarrow> dumpable n (PDict d')" and "wf_val (PDict d) \<Longrightarrow> wf_val (PDict d')"
proof -
  have d': "d' = fst (fold_identity d)"
    using assms by simp
  show "dumpable n (PDict d) \<Longrightarrow> dumpable n (PDict d')" "wf_val (PDict d) \<Longrightarrow> wf_val (PDict d')"
    unfolding d' fold_identity_fst Let_def
    by (auto simp: strip_forbidden_keys_def is_valid_urn_Some simp del: dumpable.simps(3) wf_val.simps(2)
        split: option.splits intro!: writable_ddel writable_dset writable_strip_keys)
qed

lemma parse_object_Some: "parse_object raw = Inr (Some d) \<longleftrightarrow> loads raw = Inr (PDict d)"
  by (auto simp: parse_object_def split: sum.splits if_splits)

lemma decode_lenient_cases:
  assumes "fst (decode_lenient raw) = Inr d'"
  obtains (unreadable) "d' = []" "parse_object raw = Inr None"
  | (object) d where "loads raw = Inr (PDict d)" "fold_identity d = (d', snd (decode_lenient raw))"
  using assms
  by (auto simp: decode_lenient_def parse_object_Some Let_def split: sum.splits option.splits prod.splits)

lemma decode_decode_lenient: "fst (decode raw) = Inr d \<Longrightarrow> decode_lenient raw = decode raw"
  by (auto simp: decode_def decode_lenient_def split: sum.splits option.splits prod.splits if_splits)

lemma encode_clean: "encode d = Inr s \<Longrightarrow> first_encode_violation d = None \<and> dumps (PDict d) = Inr s"
  by (simp add: encode_def split: option.splits)

lemma fold_identity_id:
  "first_encode_violation d = None \<Longrightarrow> fst (fold_identity d) = d"
  "first_encode_violation d = None \<Longrightarrow> is_valid_urn (dget d (u ''job'')) \<Longrightarrow> fold_identity d = (d, [])"
proof -
  assume v: "first_encode_violation d = None"
  then have s: "strip_forbidden_keys d = (d, [])" and n: "dget d (u ''urn'') = None"
    by (simp_all add: first_encode_violation_None strip_id dhas_def)
  then show "fst (fold_identity d) = d"
    by (simp add: fold_identity_fst)
  assume "is_valid_urn (dget d (u ''job''))"
  with s n show "fold_identity d = (d, [])"
    by (auto simp: fold_identity_def is_valid_urn_Some split: option.splits pyval.splits)
qed

lemma decode_object:
  assumes "loads raw = Inr (PDict d)" "urn d \<noteq> []" "fold_identity d = (e, log)"
  shows "decode raw = (Inr e, log)" "dget e (u ''job'') = Some (PStr (urn d))"
proof -
  have j: "dget e (u ''job'') = Some (PStr (urn d))" "is_valid_urn (dget e (u ''job''))"
    using assms(2) fold_identity_get(3) [OF assms(3)] by (auto simp: urn_eq is_valid_urn_Some split: if_splits)
  with assms show "decode raw = (Inr e, log)" "dget e (u ''job'') = Some (PStr (urn d))"
    by (simp_all add: decode_def parse_object_def)
qed

lemma encode_decodes:
  assumes "encode e = Inr s" "is_valid_urn (dget e (u ''job''))" "wf_val (PDict e)" "floats_ok (PDict e)"
  shows "loads s = Inr (PDict e)" "fold_identity e = (e, [])" "urn e \<noteq> []"
  using encode_clean [OF assms(1)] loads_dumps assms(2-4) fold_identity_id(2) by (auto simp: urn_Nil)

section \<open>A concrete envelope\<close>

definition demo_envelope :: "pyval dict" where
  "demo_envelope =
     [(u ''job'', PStr (u ''urn:x'')), (u ''trace_id'', PStr (u ''t'')), (u ''data'', PDict [(u ''n'', PInt 1)]),
      (u ''meta'', PDict [(u ''id'', PStr (u ''1'')), (u ''schema_version'', PInt 1)]), (u ''attempts'', PInt 0)]"

definition demo_body :: pystr where
  "demo_body =
     u ''{\"job\":\"urn:x\",\"trace_id\":\"t\",\"data\":{\"n\":1},\"meta\":{\"id\":\"1\",\"schema_version\":1},\"attempts\":0}''"

lemma demo_encode: "encode demo_envelope = Inr demo_body"
  by code_simp

lemma demo_loads: "loads demo_body = Inr (PDict demo_envelope)"
  by code_simp

lemma demo_decode: "decode demo_body = (Inr demo_envelope, [])"
  by code_simp

lemma demo_writable:
  "is_valid_urn (dget demo_envelope (u ''job''))" "wf_val (PDict demo_envelope)" "floats_ok (PDict demo_envelope)"
  "demo_envelope \<noteq> []"
  by (code_simp | simp add: demo_envelope_def)+

section \<open>Properties\<close>

text \<open>
  C2: reading what the codec wrote gives the envelope back, unknown keys, order and nested values
  included, and logs nothing: \<open>decode(encode(e)) == e\<close> for an envelope with a valid \<open>job\<close>.
\<close>

theorem decode_encode:
  assumes "encode e = Inr s" "is_valid_urn (dget e (u ''job''))"
    and "wf_val (PDict e)" "floats_ok (PDict e)"
  shows "decode s = (Inr e, [])"
  using encode_decodes [OF assms] by (intro decode_object(1))

theorem decode_encode_witness: "encode demo_envelope = Inr demo_body \<and> decode demo_body = (Inr demo_envelope, [])"
  using decode_encode [OF demo_encode demo_writable(1-3)] demo_encode by blast

text \<open>
  C8: a decoded envelope can always be written again. Whatever a producer sent, the result of
  \<open>decode\<close> carries no key \<open>encode\<close> refuses, no value \<open>json.dumps\<close> refuses, and what is written
  decodes to the same envelope with no further warning.
\<close>

theorem decode_reencodes:
  assumes "fst (decode raw) = Inr e" "e \<noteq> []" "floats_ok (PDict e)"
  shows "\<exists>s. encode e = Inr s \<and> decode s = (Inr e, [])"
proof -
  from assms(1) decode_decode_lenient have l: "fst (decode_lenient raw) = Inr e"
    by simp
  from l show ?thesis
  proof (cases rule: decode_lenient_cases)
    case unreadable
    with assms(2) show ?thesis by simp
  next
    case (object d)
    have v: "first_encode_violation e = None"
      using fold_identity_encodable [OF object(2)] .
    have w: "dumpable max_nesting (PDict e)" "wf_val (PDict e)"
      using loads_dumpable [OF object(1)] writable_fold_identity [OF object(2)] by simp_all
    have j: "is_valid_urn (dget e (u ''job''))"
      using assms(1) object by (auto simp: decode_def parse_object_def Let_def split: if_splits)
    from dumpable_dumps [OF w(1)] v obtain s where s: "encode e = Inr s"
      by (auto simp: encode_def dumps_def)
    with v have "loads s = Inr (PDict e)"
      using loads_dumps w(2) assms(3) by (auto dest: encode_clean)
    with s fold_identity_id(2) [OF v j] j show ?thesis
      by (simp add: decode_def parse_object_def)
  qed
qed

theorem decode_reencodes_witness: "\<exists>s. encode demo_envelope = Inr s \<and> decode s = (Inr demo_envelope, [])"
  using decode_reencodes [of demo_body demo_envelope] demo_writable(3-4) by (simp add: demo_decode)

lemma accepts_eq:
  "accepts d \<longleftrightarrow>
     urn d \<noteq> [] \<and>
     (\<exists>m. dget d (u ''meta'') = Some (PDict m) \<and> py_eq_int (get_or_none m (u ''schema_version'')) SCHEMA_VERSION) \<and>
     (\<exists>x. dget d (u ''data'') = Some (PDict x)) \<and> (\<exists>n. dget d (u ''attempts'') = Some (PInt n)) \<and>
     (\<exists>t. dget d (u ''trace_id'') = Some (PStr t) \<and> strip ASCII_WHITESPACE t \<noteq> [])"
  by (auto simp: accepts_def split: option.splits if_splits)

lemma fold_identity_accepts: "fold_identity d = (d', log) \<Longrightarrow> accepts d' = accepts d"
proof -
  assume f: "fold_identity d = (d', log)"
  have keep: "dget d' (u ''data'') = dget d (u ''data'')" "dget d' (u ''attempts'') = dget d (u ''attempts'')"
      "dget d' (u ''trace_id'') = dget d (u ''trace_id'')"
    by (simp_all add: fold_identity_get(1) [OF f])
  have meta: "dget d' (u ''meta'') = dget (fst (strip_forbidden_keys d)) (u ''meta'')"
    by (simp add: fold_identity_get(1) [OF f])
  have "(\<exists>m. dget d' (u ''meta'') = Some (PDict m) \<and> py_eq_int (get_or_none m (u ''schema_version'')) SCHEMA_VERSION)
      \<longleftrightarrow> (\<exists>m. dget d (u ''meta'') = Some (PDict m) \<and> py_eq_int (get_or_none m (u ''schema_version'')) SCHEMA_VERSION)"
  proof (cases "as_dict (dget d (u ''meta''))")
    case None
    with strip_meta(2) [OF None] meta show ?thesis by auto
  next
    case (Some m)
    then have "dget d (u ''meta'') = Some (PDict m)" by simp
    from strip_meta(1) [OF this] this meta show ?thesis
      by (auto simp: get_or_none_def)
  qed
  with keep fold_identity_urn [OF f] show ?thesis
    unfolding accepts_eq by metis
qed

text \<open>
  Decoding changes neither verdict of a consumer. Dropping the forbidden keys and folding the
  alias leave \<open>urn\<close> and \<open>accepts\<close> of the parsed object as they were, resolve the identity into
  \<open>job\<close>, and keep every top-level key that is not forbidden, \<open>job\<close>, \<open>urn\<close> or \<open>meta\<close>.
\<close>

theorem decode_preserves_verdicts:
  assumes "fst (decode raw) = Inr e" "loads raw = Inr (PDict d)"
  shows "urn e = urn d \<and> accepts e = accepts d \<and> dget e (u ''job'') = Some (PStr (urn d))
    \<and> \<not> dhas (u ''urn'') e \<and> \<not> has_forbidden_keys e
    \<and> (\<forall>k. k \<notin> {u ''job'', u ''urn'', u ''meta'', u ''timestamp''} \<longrightarrow> dget e k = dget d k)"
proof -
  obtain log where f: "fold_identity d = (e, log)" and j: "is_valid_urn (dget e (u ''job''))"
    using assms by (auto simp: decode_def parse_object_def split: prod.splits if_splits)
  have "dget e (u ''job'') = Some (PStr (urn e))"
    using j by (auto simp: urn_eq is_valid_urn_Some)
  with f show ?thesis
    using fold_identity_get [OF f] fold_identity_urn [OF f] fold_identity_accepts [OF f]
    by (auto simp: dhas_def)
qed

theorem decode_preserves_verdicts_witness:
  "urn demo_envelope = u ''urn:x'' \<and> dget demo_envelope (u ''job'') = Some (PStr (urn demo_envelope))"
proof -
  have "fst (decode demo_body) = Inr demo_envelope"
    by (simp only: demo_decode fst_conv)
  from decode_preserves_verdicts [OF this demo_loads] show ?thesis
    by (simp add: demo_envelope_def)
qed

lemma extra_meta_keys:
  assumes "extra_meta entries extra = Inr x" "\<forall>k \<in> fst ` set extra. \<not> reserved_meta_key k"
  shows "\<forall>k \<in> fst ` set x. \<not> reserved_meta_key k"
  using assms
  by (induction entries extra rule: extra_meta.induct) (auto split: if_splits simp: dom_update)

lemma extra_meta_total:
  "(\<exists>x. extra_meta entries extra = Inr x) \<longleftrightarrow> (\<forall>k \<in> fst ` set entries. \<not> reserved_meta_key k)"
  by (induction entries extra rule: extra_meta.induct) auto

lemma wf_extra_meta: "extra_meta entries extra = Inr x \<Longrightarrow> wf_keys extra \<Longrightarrow> wf_keys x"
  by (induction entries extra rule: extra_meta.induct) (auto split: if_splits simp: distinct_update)

lemma producer_meta_keys:
  assumes "producer_meta meta = Inr x"
  shows "\<forall>k \<in> fst ` set x. \<not> reserved_meta_key k" "wf_keys x"
  using assms extra_meta_keys [of _ "[]" x] wf_extra_meta [of _ "[]" x]
  by (auto simp: producer_meta_def split: pyval.splits)

text \<open>
  What \<open>make\<close> builds is an envelope a consumer accepts, with the trimmed URN, its own core
  \<open>meta\<close> keys (no producer entry overrides one), \<open>attempts\<close> 0, and nothing \<open>encode\<close> refuses.
\<close>

theorem make_envelope_accepted:
  assumes "make_envelope urn0 data queue trace_id meta fresh_trace fresh_id now_ms = Inr e"
    and "strip ASCII_WHITESPACE fresh_trace \<noteq> []"
  shows "accepts e \<and> urn e = strip ASCII_WHITESPACE urn0 \<and> first_encode_violation e = None
    \<and> dget e (u ''attempts'') = Some (PInt 0)
    \<and> (\<exists>m. dget e (u ''meta'') = Some (PDict m)
         \<and> dget m (u ''id'') = Some (PStr fresh_id) \<and> dget m (u ''queue'') = Some (PStr queue)
         \<and> dget m (u ''lang'') = Some (PStr SOURCE_LANG) \<and> dget m (u ''created_at'') = Some (PInt now_ms)
         \<and> dget m (u ''schema_version'') = Some (PInt SCHEMA_VERSION))"
proof -
  let ?core = "[(u ''id'', PStr fresh_id), (u ''queue'', PStr queue), (u ''lang'', PStr SOURCE_LANG),
                (u ''schema_version'', PInt SCHEMA_VERSION), (u ''created_at'', PInt now_ms)]"
  define given where "given = strip ASCII_WHITESPACE (case trace_id of None \<Rightarrow> [] | Some t \<Rightarrow> t)"
  define trace where "trace = (if given = [] then fresh_trace else given)"
  obtain x where urn0: "strip ASCII_WHITESPACE urn0 \<noteq> []" and x: "producer_meta meta = Inr x"
      and e: "e = [(u ''job'', PStr (strip ASCII_WHITESPACE urn0)), (u ''trace_id'', PStr trace),
                   (u ''data'', PDict data), (u ''meta'', PDict (dupdate ?core x)), (u ''attempts'', PInt 0)]"
    using assms(1)
    by (auto simp: make_envelope_def Let_def given_def trace_def bind_res_Inr split: if_splits)
  have t: "strip ASCII_WHITESPACE trace \<noteq> []"
    using assms(2) by (auto simp: trace_def given_def)
  have absent: "dget x k = None" if "reserved_meta_key k" for k
    using producer_meta_keys(1) [OF x] that by (force simp: map_of_eq_None_iff)
  have core: "dget (dupdate ?core x) k = (if reserved_meta_key k then dget ?core k else
      (case dget x k of None \<Rightarrow> dget ?core k | Some v \<Rightarrow> Some v))" for k
    using absent [of k] producer_meta_keys(2) [OF x] by (simp add: dget_dupdate)
  have r: "reserved_meta_key (u ''id'')" "reserved_meta_key (u ''queue'')" "reserved_meta_key (u ''lang'')"
      "reserved_meta_key (u ''schema_version'')" "reserved_meta_key (u ''created_at'')"
      "reserved_meta_key (u ''max_retries'')" "reserved_meta_key (u ''attempts'')"
      "reserved_meta_key (u ''source'')" "reserved_meta_key (u ''ts'')"
    by (simp_all add: reserved_meta_key_def CORE_META_KEYS_def)
  have j: "urn e = strip ASCII_WHITESPACE urn0"
    using urn0 by (simp add: urn_eq e is_valid_urn_def)
  have "accepts e"
    unfolding accepts_eq j using urn0 t r by (simp add: e core get_or_none_def)
  moreover have "first_encode_violation e = None"
    unfolding first_encode_violation_None using r
    by (auto simp: has_forbidden_keys_def FORBIDDEN_KEYS_def carries_def key_target_def dhas_def e core)
  ultimately show ?thesis
    using j r by (simp add: e core)
qed

theorem make_envelope_accepted_witness:
  "\<exists>e. make_envelope (u '' urn:x '') [] (u ''q'') None PNone (u ''t'') (u ''1'') 5 = Inr e
     \<and> accepts e \<and> urn e = u ''urn:x''"
proof -
  have s: "strip ASCII_WHITESPACE (u '' urn:x '') = u ''urn:x''" "strip ASCII_WHITESPACE (u ''t'') \<noteq> []"
    by (code_simp | simp)+
  obtain e where e: "make_envelope (u '' urn:x '') [] (u ''q'') None PNone (u ''t'') (u ''1'') 5 = Inr e"
    using s(1) by (simp add: make_envelope_def producer_meta_def)
  with make_envelope_accepted [OF e s(2)] s(1) show ?thesis by auto
qed

text \<open>\<open>make\<close> fails only on a blank URN, on a \<open>meta\<close> that is no mapping, or on a reserved key.\<close>

theorem make_envelope_fails_iff:
  "(\<exists>err. make_envelope urn0 data queue trace_id meta fresh_trace fresh_id now_ms = Inl err)
     \<longleftrightarrow> strip ASCII_WHITESPACE urn0 = []
         \<or> (case meta of PNone \<Rightarrow> False | PDict entries \<Rightarrow> (\<exists>k \<in> fst ` set entries. reserved_meta_key k)
            | _ \<Rightarrow> True)"
proof -
  have "(\<exists>err. producer_meta meta = Inl err)
    \<longleftrightarrow> (case meta of PNone \<Rightarrow> False | PDict entries \<Rightarrow> (\<exists>k \<in> fst ` set entries. reserved_meta_key k)
         | _ \<Rightarrow> True)"
  proof (cases meta)
    case (PDict entries)
    then show ?thesis
      using extra_meta_total [of entries "[]"] by (cases "extra_meta entries []") (auto simp: producer_meta_def)
  qed (simp_all add: producer_meta_def)
  moreover have "(\<exists>err. bind_res r (\<lambda>x. Inr (f x)) = Inl err) \<longleftrightarrow> (\<exists>err. r = Inl err)"
    for r :: "pyval dict res" and f :: "pyval dict \<Rightarrow> pyval dict"
    by (cases r) auto
  ultimately show ?thesis
    by (simp add: make_envelope_def Let_def)
qed

end
