(* ===== verification/EnvelopeShape.thy ===== *)
theory EnvelopeShape
  imports Codec
begin

text \<open>
  \<open>_envelope_shape.py\<close>, the typed decode that decides whether a body is poison, and the codec's
  verdict \<open>poison_cause\<close> built on it. The JSON text is decoded with the module's hooks (objects as
  pair lists, so duplicate keys survive; huge integers as a sentinel; constants refused), and every
  occurrence of a known member is checked. The theorems state the verdict declaratively and relate
  it to what the core decoder then returns.
\<close>

section \<open>The hooks\<close>

text \<open>\<open>JPairs\<close> is \<open>_Pairs\<close> and \<open>JHuge\<close> the sentinel \<open>_HUGE\<close>.\<close>

datatype jshape =
    JNone | JBool bool | JInt int | JHuge | JFloat pyfloat | JStr pystr
  | JList "jshape list" | JPairs "(pystr \<times> jshape) list"

definition MAX_INT_DIGITS :: nat where
  "MAX_INT_DIGITS = 4000"

definition INT64_MIN :: int where
  "INT64_MIN = - (2 ^ 63)"

definition INT64_MAX :: int where
  "INT64_MAX = 2 ^ 63 - 1"

definition parse_int :: "pystr \<Rightarrow> jshape res" where
  "parse_int literal = Inr (if length literal \<le> MAX_INT_DIGITS then JInt (lit_int literal) else JHuge)"

definition reject_constant :: "pystr \<Rightarrow> jshape res" where
  "reject_constant name = Inl (Exc ValueError (u ''invalid JSON constant '' @ name))"

definition shape_hooks :: "jshape hooks" where
  "shape_hooks = \<lparr>h_null = JNone, h_bool = JBool, h_int = parse_int,
     h_float = (\<lambda>lit. JFloat (float_of_literal lit)), h_const = reject_constant, h_str = JStr,
     h_arr = JList, h_obj = JPairs\<rparr>"

section \<open>Numbers inside \<open>data\<close>\<close>

fun is_finite_number :: "jshape \<Rightarrow> bool" where
  "is_finite_number JHuge = False"
| "is_finite_number (JFloat f) = float_isfinite f"
| "is_finite_number (JInt i) = (case float_of_int i of Inl e \<Rightarrow> False | Inr f \<Rightarrow> float_isfinite f)"
| "is_finite_number v = True"

text \<open>The explicit stack, its top first: \<open>extend\<close> leaves the last item on top.\<close>

lemma size_snd_pairs: "size_list (size \<circ> snd) ps < Suc (Suc (size_list (size_prod f size) ps))"
  by (induction ps) auto

lemma size_list_rev: "size_list f (rev xs) = size_list f xs"
  by (induction xs) (auto simp: size_list_append)

function finite_loop :: "jshape list \<Rightarrow> bool" where
  "finite_loop [] = True"
| "finite_loop (value # stack) =
     (case value of
        JPairs ps \<Rightarrow> finite_loop (rev (map snd ps) @ stack)
      | JList xs \<Rightarrow> finite_loop (rev xs @ stack)
      | _ \<Rightarrow> if \<not> is_finite_number value then False else finite_loop stack)"
  by pat_completeness auto
termination
  by (relation "measure (size_list size)")
     (auto simp: size_list_append size_list_rev size_snd_pairs)

definition all_numbers_finite :: "jshape \<Rightarrow> bool" where
  "all_numbers_finite root = finite_loop [root]"

text \<open>The recursive definition the loop implements.\<close>

fun finite_numbers :: "jshape \<Rightarrow> bool" where
  "finite_numbers (JPairs ps) = (\<forall>p \<in> set ps. finite_numbers (snd p))"
| "finite_numbers (JList xs) = (\<forall>x \<in> set xs. finite_numbers x)"
| "finite_numbers v = is_finite_number v"

lemma finite_loop_eq: "finite_loop stack = (\<forall>v \<in> set stack. finite_numbers v)"
  by (induction stack rule: finite_loop.induct) (auto split: jshape.splits)

section \<open>The typed members\<close>

datatype member_kind = KString | KInteger | KObject | KData

definition META_KINDS :: "member_kind dict" where
  "META_KINDS =
     [(u ''id'', KString), (u ''queue'', KString), (u ''lang'', KString),
      (u ''schema_version'', KInteger), (u ''created_at'', KInteger)]"

definition DEAD_LETTER_KINDS :: "member_kind dict" where
  "DEAD_LETTER_KINDS =
     [(u ''reason'', KString), (u ''error'', KString), (u ''exception'', KString),
      (u ''original_queue'', KString), (u ''lang'', KString),
      (u ''failed_at'', KInteger), (u ''attempts'', KInteger)]"

definition TOP_KINDS :: "member_kind dict" where
  "TOP_KINDS =
     [(u ''trace_id'', KString), (u ''attempts'', KInteger), (u ''data'', KData),
      (u ''meta'', KObject), (u ''dead_letter'', KObject)]"

definition quoted :: "pystr \<Rightarrow> pystr" where
  "quoted name = [39] @ name @ [39]"

definition check_member :: "member_kind \<Rightarrow> pystr \<Rightarrow> jshape \<Rightarrow> pystr option" where
  "check_member kind name value =
     (if value = JNone then None
      else if kind = KString
      then (case value of JStr s \<Rightarrow> None
            | _ \<Rightarrow> Some (u ''member '' @ quoted name @ u '' is not a string''))
      else if kind = KInteger
      then (case value of
              JInt i \<Rightarrow> if INT64_MIN \<le> i \<and> i \<le> INT64_MAX then None
                        else Some (u ''member '' @ quoted name @ u '' is not an int64 integer'')
            | _ \<Rightarrow> Some (u ''member '' @ quoted name @ u '' is not an int64 integer''))
      else (case value of
              JPairs ps \<Rightarrow>
                if kind = KData \<and> \<not> all_numbers_finite value
                then Some (u ''member '' @ quoted name @ u '' holds a number that is not a finite double'')
                else None
            | _ \<Rightarrow> Some (u ''member '' @ quoted name @ u '' is not an object'')))"

definition nested_kinds :: "pystr \<Rightarrow> member_kind dict" where
  "nested_kinds key = (if key = u ''meta'' then META_KINDS else DEAD_LETTER_KINDS)"

fun check_object :: "(pystr \<times> jshape) list \<Rightarrow> member_kind dict \<Rightarrow> pystr \<Rightarrow> pystr option" where
  "check_object [] kinds prefix = None"
| "check_object ((key, value) # pairs) kinds prefix =
     (case dget kinds key of
        None \<Rightarrow> check_object pairs kinds prefix
      | Some kind \<Rightarrow>
          (case check_member kind (prefix @ key) value of
             Some failure \<Rightarrow> Some failure
           | None \<Rightarrow>
               (case (if kind = KObject
                      then (case value of
                              JPairs ps \<Rightarrow> check_object ps (nested_kinds key) (key @ u ''.'')
                            | _ \<Rightarrow> None)
                      else None) of
                  Some nested \<Rightarrow> Some nested
                | None \<Rightarrow> check_object pairs kinds prefix)))"

definition envelope_violation :: "pystr \<Rightarrow> pystr option" where
  "envelope_violation text =
     (case loads_with shape_hooks text of
        Inl e \<Rightarrow> Some (u ''invalid JSON: '' @ exc_str e)
      | Inr parsed \<Rightarrow>
          if parsed = JNone then None
          else (case parsed of
                  JPairs ps \<Rightarrow> check_object ps TOP_KINDS []
                | _ \<Rightarrow> Some (u ''the JSON root is not an object'')))"

text \<open>
  \<open>EnvelopeCodec.poison_cause\<close>. \<open>except (ValueError, RecursionError, TypeError)\<close> covers every
  exception the parser raises.
\<close>

definition poison_cause :: "pystr \<Rightarrow> bool \<Rightarrow> pystr option" where
  "poison_cause raw require_identity =
     (if has_invalid_utf8 raw then Some (u ''the body is not valid UTF-8'')
      else case envelope_violation raw of
             Some violation \<Rightarrow> Some violation
           | None \<Rightarrow>
               (case loads raw of
                  Inl e \<Rightarrow> Some (u ''the core decoder cannot parse the body: '' @ exc_str e)
                | Inr parsed \<Rightarrow>
                    (case as_dict (Some parsed) of
                       None \<Rightarrow> Some (u ''the JSON root is not an object'')
                     | Some d \<Rightarrow>
                         if require_identity \<and>
                            \<not> (is_valid_urn (dget d (u ''job'')) \<or> is_valid_urn (dget d (u ''urn'')))
                         then Some (u ''the body carries no valid 'job' or 'urn' identity (ADR-0032 section 6)'')
                         else None)))"

section \<open>The verdict, declaratively\<close>

fun string_or_null :: "jshape \<Rightarrow> bool" where
  "string_or_null JNone = True" | "string_or_null (JStr s) = True" | "string_or_null v = False"

fun int64_or_null :: "jshape \<Rightarrow> bool" where
  "int64_or_null JNone = True"
| "int64_or_null (JInt i) = (INT64_MIN \<le> i \<and> i \<le> INT64_MAX)"
| "int64_or_null v = False"

fun leaf_ok :: "member_kind \<Rightarrow> jshape \<Rightarrow> bool" where
  "leaf_ok KString v = string_or_null v"
| "leaf_ok KInteger v = int64_or_null v"
| "leaf_ok k v = False"

text \<open>An object-or-null of which every occurrence of a listed member is a leaf of its kind.\<close>

definition block_ok :: "member_kind dict \<Rightarrow> jshape \<Rightarrow> bool" where
  "block_ok kinds v =
     (case v of
        JNone \<Rightarrow> True
      | JPairs ps \<Rightarrow> (\<forall>p \<in> set ps. case dget kinds (fst p) of None \<Rightarrow> True | Some kind \<Rightarrow> leaf_ok kind (snd p))
      | _ \<Rightarrow> False)"

definition data_ok :: "jshape \<Rightarrow> bool" where
  "data_ok v = (case v of JNone \<Rightarrow> True | JPairs ps \<Rightarrow> finite_numbers v | _ \<Rightarrow> False)"

definition typed_member :: "pystr \<times> jshape \<Rightarrow> bool" where
  "typed_member p \<longleftrightarrow>
     (fst p = u ''trace_id'' \<longrightarrow> string_or_null (snd p)) \<and>
     (fst p = u ''attempts'' \<longrightarrow> int64_or_null (snd p)) \<and>
     (fst p = u ''data'' \<longrightarrow> data_ok (snd p)) \<and>
     (fst p = u ''meta'' \<longrightarrow> block_ok META_KINDS (snd p)) \<and>
     (fst p = u ''dead_letter'' \<longrightarrow> block_ok DEAD_LETTER_KINDS (snd p))"

lemma check_member_leaf:
  "check_member KString name v = None \<longleftrightarrow> leaf_ok KString v"
  "check_member KInteger name v = None \<longleftrightarrow> leaf_ok KInteger v"
  by (cases v; simp add: check_member_def)+

lemma check_member_leaf_kind:
  "kind = KString \<or> kind = KInteger \<Longrightarrow> check_member kind name v = None \<longleftrightarrow> leaf_ok kind v"
  using check_member_leaf by auto

lemma check_object_leaf:
  "dget kinds k = Some kind \<Longrightarrow> kind \<noteq> KObject \<Longrightarrow>
     check_object ((k, v) # ps) kinds prefix = None
       \<longleftrightarrow> check_member kind (prefix @ k) v = None \<and> check_object ps kinds prefix = None"
  by (simp split: option.split)

lemma check_member_data: "check_member KData name v = None \<longleftrightarrow> data_ok v"
  by (cases v) (simp_all add: check_member_def data_ok_def all_numbers_finite_def finite_loop_eq
      del: finite_loop.simps)

lemma check_member_object: "check_member KObject name v = None \<longleftrightarrow> v = JNone \<or> (\<exists>ps. v = JPairs ps)"
  by (cases v) (simp_all add: check_member_def)

text \<open>A table without nested objects: every occurrence of its members is a leaf of its kind.\<close>

lemma check_object_flat:
  assumes "\<forall>kind \<in> snd ` set kinds. kind = KString \<or> kind = KInteger"
  shows "check_object ps kinds prefix = None
           \<longleftrightarrow> (\<forall>p \<in> set ps. case dget kinds (fst p) of None \<Rightarrow> True | Some kind \<Rightarrow> leaf_ok kind (snd p))"
proof (induction ps)
  case (Cons p ps)
  obtain k v where p: "p = (k, v)" by force
  show ?case
  proof (cases "dget kinds k")
    case (Some kind)
    with assms have "kind = KString \<or> kind = KInteger"
      by (force dest: map_of_SomeD)
    with Some Cons p show ?thesis
      by (auto simp: check_object_leaf check_member_leaf_kind simp del: check_object.simps)
  qed (use Cons p in simp)
qed simp

lemma nested_flat: "\<forall>kind \<in> snd ` set (nested_kinds key). kind = KString \<or> kind = KInteger"
  by (auto simp: nested_kinds_def META_KINDS_def DEAD_LETTER_KINDS_def)

lemma check_top: "check_object ps TOP_KINDS prefix = None \<longleftrightarrow> (\<forall>p \<in> set ps. typed_member p)"
proof (induction ps)
  case (Cons p ps)
  obtain k v where p: "p = (k, v)" by force
  have obj: "check_object ((k, v) # ps) TOP_KINDS prefix = None
      \<longleftrightarrow> block_ok (nested_kinds k) v \<and> check_object ps TOP_KINDS prefix = None"
    if "dget TOP_KINDS k = Some KObject"
  proof (cases v)
    case (JPairs qs)
    then show ?thesis
      using that check_object_flat [OF nested_flat, of qs k "k @ u ''.''"]
      by (cases "check_object qs (nested_kinds k) (k @ u ''.'')") (simp_all add: check_member_def block_ok_def)
  qed (use that in \<open>simp_all add: check_member_def block_ok_def\<close>)
  note leaf = check_object_leaf [of TOP_KINDS k _ v ps prefix]
  have top_names: "k = u ''trace_id'' \<or> k = u ''attempts'' \<or> k = u ''data'' \<or> k = u ''meta''
      \<or> k = u ''dead_letter'' \<or> dget TOP_KINDS k = None"
    by (simp add: TOP_KINDS_def)
  consider "k = u ''trace_id''" | "k = u ''attempts''" | "k = u ''data''" | "k = u ''meta''"
    | "k = u ''dead_letter''" | "dget TOP_KINDS k = None"
    using top_names by (elim disjE) simp_all
  then show ?case
  proof cases
    case 1
    with leaf [of KString] Cons p show ?thesis
      by (simp add: TOP_KINDS_def typed_member_def check_member_leaf del: check_object.simps)
  next
    case 2
    with leaf [of KInteger] Cons p show ?thesis
      by (simp add: TOP_KINDS_def typed_member_def check_member_leaf del: check_object.simps)
  next
    case 3
    with leaf [of KData] Cons p show ?thesis
      by (simp add: TOP_KINDS_def typed_member_def check_member_data del: check_object.simps)
  next
    case 4
    with obj Cons p show ?thesis
      by (simp add: TOP_KINDS_def typed_member_def nested_kinds_def del: check_object.simps)
  next
    case 5
    with obj Cons p show ?thesis
      by (simp add: TOP_KINDS_def typed_member_def nested_kinds_def del: check_object.simps)
  next
    case 6
    then have "typed_member p"
      by (auto simp: TOP_KINDS_def typed_member_def p split: if_splits)
    with 6 Cons p show ?thesis by simp
  qed
qed simp

lemma envelope_violation_None:
  "envelope_violation text = None \<longleftrightarrow>
     loads_with shape_hooks text = Inr JNone \<or>
     (\<exists>ps. loads_with shape_hooks text = Inr (JPairs ps) \<and> (\<forall>p \<in> set ps. typed_member p))"
  by (auto simp: envelope_violation_def check_top split: sum.splits jshape.splits)

section \<open>The typed decode and the core decode agree\<close>

inductive shape_rel :: "jshape \<Rightarrow> pyval \<Rightarrow> bool" where
  none: "shape_rel JNone PNone"
| bool: "shape_rel (JBool b) (PBool b)"
| int: "shape_rel (JInt i) (PInt i)"
| huge: "shape_rel JHuge (PInt i)"
| float: "shape_rel (JFloat f) (PFloat f)"
| str: "shape_rel (JStr s) (PStr s)"
| list: "list_all2 shape_rel vs ws \<Longrightarrow> shape_rel (JList vs) (PList ws)"
| pairs: "list_all2 (rel_prod (=) shape_rel) ps qs \<Longrightarrow> shape_rel (JPairs ps) (PDict (dict_of_pairs qs))"

inductive_cases shape_rel_JNoneE: "shape_rel JNone w"
inductive_cases shape_rel_JIntE: "shape_rel (JInt i) w"
inductive_cases shape_rel_JStrE: "shape_rel (JStr s) w"
inductive_cases shape_rel_JPairsE: "shape_rel (JPairs ps) w"
inductive_cases shape_rel_PDictE: "shape_rel v (PDict d)"

lemma shape_hooks_rel: "hooks_rel shape_rel shape_hooks py_hooks"
  by (auto simp: hooks_rel_def shape_hooks_def parse_int_def py_int_hook_def reject_constant_def
      json_error_def intro: shape_rel.intros split: if_splits)

text \<open>Every member the dictionary keeps is an occurrence the typed decode saw.\<close>

lemma pairs_get:
  assumes "list_all2 (rel_prod (=) shape_rel) ps qs" "dget (dict_of_pairs qs) k = Some w"
  shows "\<exists>v. (k, v) \<in> set ps \<and> shape_rel v w"
proof -
  from assms(2) have "(k, w) \<in> set qs"
    by (auto dest: map_of_SomeD set_dict_of_pairs)
  with assms(1) show ?thesis
    by (fastforce simp: list_all2_conv_all_nth in_set_conv_nth rel_prod_sel prod_eq_iff)
qed

lemma string_or_null_rel: "string_or_null v \<Longrightarrow> shape_rel v w \<Longrightarrow> w = PNone \<or> (\<exists>s. w = PStr s)"
  by (cases v) (auto elim: shape_rel_JNoneE shape_rel_JStrE)

lemma int64_or_null_rel:
  "int64_or_null v \<Longrightarrow> shape_rel v w \<Longrightarrow> w = PNone \<or> (\<exists>i. w = PInt i \<and> INT64_MIN \<le> i \<and> i \<le> INT64_MAX)"
  by (cases v) (auto elim: shape_rel_JNoneE shape_rel_JIntE)

lemma data_ok_rel: "data_ok v \<Longrightarrow> shape_rel v w \<Longrightarrow> w = PNone \<or> (\<exists>d. w = PDict d)"
  by (cases v) (auto simp: data_ok_def elim: shape_rel_JNoneE shape_rel_JPairsE)

text \<open>The core values a consumer may rely on after the verdict.\<close>

definition val_string_or_null :: "pyval \<Rightarrow> bool" where
  "val_string_or_null w \<longleftrightarrow> w = PNone \<or> (\<exists>s. w = PStr s)"

definition val_int64_or_null :: "pyval \<Rightarrow> bool" where
  "val_int64_or_null w \<longleftrightarrow> w = PNone \<or> (\<exists>i. w = PInt i \<and> INT64_MIN \<le> i \<and> i \<le> INT64_MAX)"

definition val_block :: "pystr list \<Rightarrow> pystr list \<Rightarrow> pyval \<Rightarrow> bool" where
  "val_block strings ints w \<longleftrightarrow>
     w = PNone \<or>
     (\<exists>d. w = PDict d \<and> (\<forall>k \<in> set strings. val_string_or_null (get_or_none d k))
                      \<and> (\<forall>k \<in> set ints. val_int64_or_null (get_or_none d k)))"

lemma leaf_ok_rel:
  "leaf_ok KString v \<Longrightarrow> shape_rel v w \<Longrightarrow> val_string_or_null w"
  "leaf_ok KInteger v \<Longrightarrow> shape_rel v w \<Longrightarrow> val_int64_or_null w"
  by (auto simp: val_string_or_null_def val_int64_or_null_def dest: string_or_null_rel int64_or_null_rel)

lemma block_ok_rel:
  assumes "block_ok kinds v" "shape_rel v w"
    and "\<forall>k \<in> set strings. dget kinds k = Some KString" "\<forall>k \<in> set ints. dget kinds k = Some KInteger"
  shows "val_block strings ints w"
proof (cases v)
  case (JPairs ps)
  with assms(2) obtain qs where w: "w = PDict (dict_of_pairs qs)" and r: "list_all2 (rel_prod (=) shape_rel) ps qs"
    by (auto elim: shape_rel_JPairsE)
  have leaf: "leaf_ok kind v" if "(k, v) \<in> set ps" "dget kinds k = Some kind" for k v kind
    using assms(1) JPairs that by (force simp: block_ok_def)
  have "val_string_or_null (get_or_none (dict_of_pairs qs) k)" if k: "k \<in> set strings" for k
  proof (cases "dget (dict_of_pairs qs) k")
    case (Some a)
    from pairs_get [OF r this] obtain v where v: "(k, v) \<in> set ps" "shape_rel v a" by blast
    have "leaf_ok KString v"
      using leaf [OF v(1)] k assms(3) by blast
    from leaf_ok_rel(1) [OF this v(2)] show ?thesis
      unfolding get_or_none_def Some by simp
  qed (simp add: get_or_none_def val_string_or_null_def)
  moreover have "val_int64_or_null (get_or_none (dict_of_pairs qs) k)" if k: "k \<in> set ints" for k
  proof (cases "dget (dict_of_pairs qs) k")
    case (Some a)
    from pairs_get [OF r this] obtain v where v: "(k, v) \<in> set ps" "shape_rel v a" by blast
    have "leaf_ok KInteger v"
      using leaf [OF v(1)] k assms(4) by blast
    from leaf_ok_rel(2) [OF this v(2)] show ?thesis
      unfolding get_or_none_def Some by simp
  qed (simp add: get_or_none_def val_int64_or_null_def)
  ultimately show ?thesis
    by (auto simp: val_block_def w)
qed (use assms in \<open>auto simp: block_ok_def val_block_def elim: shape_rel_JNoneE\<close>)

section \<open>Properties\<close>

text \<open>The explicit stack of \<open>_all_numbers_finite\<close> visits every number: it is the recursive check.\<close>

theorem all_numbers_finite_eq: "all_numbers_finite v = finite_numbers v"
  by (simp add: all_numbers_finite_def finite_loop_eq del: finite_loop.simps)

text \<open>
  C10: the verdict of \<open>envelope_violation\<close> is the documented trigger set. A text is accepted when it
  is one JSON value, \<open>null\<close> or an object, in which every occurrence of a known member, at the top
  level and inside \<open>meta\<close> and \<open>dead_letter\<close>, has its declared type.
\<close>

theorem envelope_violation_iff:
  "envelope_violation text = None \<longleftrightarrow>
     (case loads_with shape_hooks text of
        Inl e \<Rightarrow> False
      | Inr v \<Rightarrow> v = JNone \<or> (case v of JPairs ps \<Rightarrow> (\<forall>p \<in> set ps. typed_member p) | _ \<Rightarrow> False))"
  by (auto simp: envelope_violation_None split: sum.splits jshape.splits)

theorem envelope_violation_iff_witness:
  "envelope_violation (u ''{\"attempts\":\"x\"}'') \<noteq> None \<and> envelope_violation (u ''{\"attempts\":1}'') = None"
  unfolding envelope_violation_iff by code_simp

lemma poison_cause_None:
  assumes "poison_cause raw ident = None"
  obtains d qs ps where "loads raw = Inr (PDict d)" "d = dict_of_pairs qs"
    "list_all2 (rel_prod (=) shape_rel) ps qs" "\<forall>p \<in> set ps. typed_member p"
    "\<not> has_invalid_utf8 raw" "ident \<longrightarrow> urn d \<noteq> []"
proof -
  from assms obtain d where d: "loads raw = Inr (PDict d)" "envelope_violation raw = None"
      "\<not> has_invalid_utf8 raw" "ident \<longrightarrow> urn d \<noteq> []"
    by (auto simp: poison_cause_def urn_Nil split: if_splits option.splits sum.splits)
  from d(2) obtain v where v: "loads_with shape_hooks raw = Inr v"
      "v = JNone \<or> (\<exists>ps. v = JPairs ps \<and> (\<forall>p \<in> set ps. typed_member p))"
    by (auto simp: envelope_violation_None)
  from loads_with_rel [OF shape_hooks_rel v(1)] d(1) have "shape_rel v (PDict d)"
    by (simp add: loads_def)
  with v(2) obtain ps qs where "list_all2 (rel_prod (=) shape_rel) ps qs" "d = dict_of_pairs qs"
      "\<forall>p \<in> set ps. typed_member p"
    by (auto elim: shape_rel_JNoneE shape_rel_PDictE)
  with d that show ?thesis by blast
qed

lemma typed_members:
  assumes "list_all2 (rel_prod (=) shape_rel) ps qs" "\<forall>p \<in> set ps. typed_member p"
  shows "val_string_or_null (get_or_none (dict_of_pairs qs) (u ''trace_id''))"
    and "val_int64_or_null (get_or_none (dict_of_pairs qs) (u ''attempts''))"
    and "get_or_none (dict_of_pairs qs) (u ''data'') = PNone
         \<or> (\<exists>d. get_or_none (dict_of_pairs qs) (u ''data'') = PDict d)"
    and "val_block [u ''id'', u ''queue'', u ''lang''] [u ''schema_version'', u ''created_at'']
           (get_or_none (dict_of_pairs qs) (u ''meta''))"
    and "val_block [u ''reason'', u ''error'', u ''exception'', u ''original_queue'', u ''lang'']
           [u ''failed_at'', u ''attempts''] (get_or_none (dict_of_pairs qs) (u ''dead_letter''))"
proof -
  have m: "P (get_or_none (dict_of_pairs qs) k)"
    if "P PNone" "\<And>v w. typed_member (k, v) \<Longrightarrow> shape_rel v w \<Longrightarrow> P w" for P k
  proof (cases "dget (dict_of_pairs qs) k")
    case None
    with that(1) show ?thesis unfolding get_or_none_def None by simp
  next
    case (Some w)
    from pairs_get [OF assms(1) this] assms(2) that(2) show ?thesis
      unfolding get_or_none_def Some by auto
  qed
  show "val_string_or_null (get_or_none (dict_of_pairs qs) (u ''trace_id''))"
    by (rule m) (auto simp: val_string_or_null_def typed_member_def dest: string_or_null_rel)
  show "val_int64_or_null (get_or_none (dict_of_pairs qs) (u ''attempts''))"
    by (rule m) (auto simp: val_int64_or_null_def typed_member_def dest: int64_or_null_rel)
  show "get_or_none (dict_of_pairs qs) (u ''data'') = PNone
         \<or> (\<exists>d. get_or_none (dict_of_pairs qs) (u ''data'') = PDict d)"
    by (rule m) (auto simp: typed_member_def dest: data_ok_rel)
  show "val_block [u ''id'', u ''queue'', u ''lang''] [u ''schema_version'', u ''created_at'']
           (get_or_none (dict_of_pairs qs) (u ''meta''))"
    by (rule m, simp add: val_block_def, rule block_ok_rel [of META_KINDS])
       (auto simp: typed_member_def META_KINDS_def)
  show "val_block [u ''reason'', u ''error'', u ''exception'', u ''original_queue'', u ''lang'']
           [u ''failed_at'', u ''attempts''] (get_or_none (dict_of_pairs qs) (u ''dead_letter''))"
    by (rule m, simp add: val_block_def, rule block_ok_rel [of DEAD_LETTER_KINDS])
       (auto simp: typed_member_def DEAD_LETTER_KINDS_def)
qed

lemma val_block_meta_strip:
  assumes "val_block [u ''id'', u ''queue'', u ''lang''] [u ''schema_version'', u ''created_at'']
             (get_or_none d (u ''meta''))"
  shows "val_block [u ''id'', u ''queue'', u ''lang''] [u ''schema_version'', u ''created_at'']
           (get_or_none (fst (strip_forbidden_keys d)) (u ''meta''))"
proof (cases "as_dict (dget d (u ''meta''))")
  case None
  from strip_meta(2) [OF this] assms show ?thesis
    by (simp add: get_or_none_def)
next
  case (Some m)
  then have m: "dget d (u ''meta'') = Some (PDict m)" by simp
  from strip_meta(1) [OF this] obtain m'
    where m': "dget (fst (strip_forbidden_keys d)) (u ''meta'') = Some (PDict m')"
      and get: "\<And>k. dget m' k = (if k \<in> {u ''max_retries'', u ''attempts'', u ''source'', u ''ts''}
                 then None else dget m k)" by blast
  have "get_or_none m' k = get_or_none m k"
    if "k \<notin> {u ''max_retries'', u ''attempts'', u ''source'', u ''ts''}" for k
    unfolding get_or_none_def get using that by simp
  moreover have "get_or_none d (u ''meta'') = PDict m"
      "get_or_none (fst (strip_forbidden_keys d)) (u ''meta'') = PDict m'"
    unfolding get_or_none_def m m' by simp_all
  ultimately show ?thesis
    using assms by (simp add: val_block_def)
qed

text \<open>
  C24: a body that is not poison decodes, and into an envelope the runtime can rely on: \<open>decode\<close>
  raises nothing, the identity is not blank, and every member the typed decode knows has its type
  in the decoded dictionary: \<open>trace_id\<close> a string or null, \<open>attempts\<close> an int64 or null, \<open>data\<close> an
  object or null, \<open>meta\<close> and \<open>dead_letter\<close> blocks of strings and int64s.
\<close>

theorem not_poison_decodes:
  assumes "poison_cause raw True = None"
  shows "\<exists>e. fst (decode raw) = Inr e \<and> urn e \<noteq> [] \<and> dget e (u ''job'') = Some (PStr (urn e))
    \<and> val_string_or_null (get_or_none e (u ''trace_id''))
    \<and> val_int64_or_null (get_or_none e (u ''attempts''))
    \<and> (get_or_none e (u ''data'') = PNone \<or> (\<exists>d. get_or_none e (u ''data'') = PDict d))
    \<and> val_block [u ''id'', u ''queue'', u ''lang''] [u ''schema_version'', u ''created_at'']
        (get_or_none e (u ''meta''))
    \<and> val_block [u ''reason'', u ''error'', u ''exception'', u ''original_queue'', u ''lang'']
        [u ''failed_at'', u ''attempts''] (get_or_none e (u ''dead_letter''))"
proof -
  obtain d qs ps where d: "loads raw = Inr (PDict d)" "d = dict_of_pairs qs"
      and r: "list_all2 (rel_prod (=) shape_rel) ps qs" and t: "\<forall>p \<in> set ps. typed_member p"
      and j: "urn d \<noteq> []"
    by (rule poison_cause_None [OF assms]) simp
  obtain e log where f: "fold_identity d = (e, log)" by force
  note dec = decode_object [OF d(1) j f] and m = typed_members [OF r t, folded d(2)]
  have keep: "get_or_none e k = get_or_none d k"
    if "k \<in> {u ''trace_id'', u ''attempts'', u ''data'', u ''dead_letter''}" for k
    using that fold_identity_get(1) [OF f, of k] by (auto simp: get_or_none_def)
  have "val_block [u ''id'', u ''queue'', u ''lang''] [u ''schema_version'', u ''created_at'']
          (get_or_none e (u ''meta''))"
    using val_block_meta_strip [OF m(4)] fold_identity_get(1) [OF f, of "u ''meta''"]
    by (simp add: get_or_none_def)
  then show ?thesis
    using dec m keep fold_identity_urn [OF f] j by simp
qed

theorem not_poison_decodes_witness: "\<exists>e. fst (decode demo_body) = Inr e \<and> urn e \<noteq> []"
proof -
  have "poison_cause demo_body True = None"
    by code_simp
  from not_poison_decodes [OF this] show ?thesis by blast
qed

end
