(* ===== verification/Transport.thy ===== *)
theory Transport
  imports Effects EnvelopeShape Complex_Main
begin

text \<open>
  \<open>transport.py\<close>: the delivered message, the broker contract with its optional capabilities, the
  publish that keeps a routing identity, the in-process transport and the choice of a transport
  from a broker URL. A transport is a record of operations on the shared state; an optional
  capability (a runtime-checkable protocol in the source) is an optional field, and
  \<open>isinstance(transport, P)\<close> is the test that the field is present.
\<close>

section \<open>Messages\<close>

text \<open>
  \<open>route_urn\<close> is a string, or a \<open>PoisonRoute\<close>: a string that also carries the consumed queue, the
  original queue, the attempt count and the cause.
\<close>

datatype route = Route pystr | PoisonRoute pystr pystr pystr int pystr

fun route_str :: "route \<Rightarrow> pystr" where
  "route_str (Route r) = r"
| "route_str (PoisonRoute r q oq a c) = r"

fun is_poison_route :: "route \<Rightarrow> bool" where
  "is_poison_route (Route r) = False"
| "is_poison_route (PoisonRoute r q oq a c) = True"

fun route_attempts :: "route \<Rightarrow> int" where
  "route_attempts (Route r) = 0"
| "route_attempts (PoisonRoute r q oq a c) = a"

type_synonym headers = "pystr dict"

record received_message =
  rm_body :: pystr
  rm_queue :: pystr
  rm_handle :: nat
  rm_headers :: headers
  rm_route :: route
  rm_key :: "pystr option"
  rm_native_attempts :: int

definition NON_NUMERIC_ATTEMPTS_ROUTE :: pystr where
  "NON_NUMERIC_ATTEMPTS_ROUTE = u ''babelqueue:unsupported-schema-version:non-numeric-attempts''"

definition DECLARED_VERSION_MAX_CHARS :: nat where
  "DECLARED_VERSION_MAX_CHARS = 64"

definition truncate_declared_version :: "pystr option \<Rightarrow> pystr option" where
  "truncate_declared_version v =
     (case v of
        None \<Rightarrow> None
      | Some s \<Rightarrow> if length s \<le> DECLARED_VERSION_MAX_CHARS then Some s
                  else Some (take DECLARED_VERSION_MAX_CHARS s @ u ''...''))"

section \<open>The broker contract\<close>

text \<open>
  Seconds are rationals. \<open>retry_tiers_ms\<close> is the attribute of that name when it is a list.
\<close>

record 's transport =
  t_publish :: "pystr \<Rightarrow> pystr \<Rightarrow> ('s, unit) op"
  t_pop :: "pystr \<Rightarrow> ('s, received_message option) op"
  t_ack :: "received_message \<Rightarrow> ('s, unit) op"
  t_close :: "('s, unit) op"
  t_classifies_poison :: bool
  t_publish_with_headers :: "(pystr \<Rightarrow> pystr \<Rightarrow> headers \<Rightarrow> ('s, unit) op) option"
  t_publish_routed :: "(pystr \<Rightarrow> pystr \<Rightarrow> route \<Rightarrow> ('s, unit) op) option"
  t_publish_settle :: "(pystr \<Rightarrow> pystr \<Rightarrow> route \<Rightarrow> pystr option \<Rightarrow> ('s, unit) op) option"
  t_publish_redriven :: "(pystr \<Rightarrow> pystr \<Rightarrow> headers \<Rightarrow> route \<Rightarrow> pystr option \<Rightarrow> ('s, unit) op) option"
  t_redeliver :: "(received_message \<Rightarrow> pystr \<Rightarrow> rat \<Rightarrow> ('s, unit) op) option"
  t_dead_letter :: "(received_message \<Rightarrow> pystr \<Rightarrow> pystr \<Rightarrow> ('s, unit) op) option"
  t_rewind :: "(received_message \<Rightarrow> ('s, unit) op) option"
  t_dead_letter_queue_name :: "(pystr \<Rightarrow> pystr option \<Rightarrow> pystr res) option"
  t_abandon :: "(received_message \<Rightarrow> ('s, unit) op) option"
  t_settle_native :: "(received_message \<Rightarrow> pystr \<Rightarrow> pystr \<Rightarrow> ('s, unit) op) option"
  t_settle_native_dead_letter :: "(received_message \<Rightarrow> pystr \<Rightarrow> pystr \<Rightarrow> ('s, bool) op) option"
  t_pop_batch :: "(pystr \<Rightarrow> int \<Rightarrow> ('s, received_message list) op) option"
  t_retry_tiers_ms :: "int list option"

definition publish_keeping_route ::
  "'s transport \<Rightarrow> pystr \<Rightarrow> pystr \<Rightarrow> route \<Rightarrow> pystr option \<Rightarrow> ('s, unit) op" where
  "publish_keeping_route t queue body route key =
     (case t_publish_settle t of
        Some publish_settle \<Rightarrow> publish_settle queue body route key
      | None \<Rightarrow>
          (case t_publish_routed t of
             Some publish_routed \<Rightarrow>
               if route_str route \<noteq> [] then publish_routed queue body route else t_publish t queue body
           | None \<Rightarrow> t_publish t queue body))"

section \<open>The in-process transport\<close>

text \<open>Bodies and headers in lockstep queues: a missing key of the \<open>defaultdict\<close> is the empty queue.\<close>

record memory =
  m_queues :: "pystr list dict"
  m_headers :: "headers list dict"

definition qget :: "'a list dict \<Rightarrow> pystr \<Rightarrow> 'a list" where
  "qget qs q = (case dget qs q of None \<Rightarrow> [] | Some xs \<Rightarrow> xs)"

definition memory_publish :: "pystr \<Rightarrow> pystr \<Rightarrow> memory \<Rightarrow> memory" where
  "memory_publish q body m =
     m\<lparr>m_queues := dset q (qget (m_queues m) q @ [body]) (m_queues m),
       m_headers := dset q (qget (m_headers m) q @ [[]]) (m_headers m)\<rparr>"

definition memory_publish_with_headers :: "pystr \<Rightarrow> pystr \<Rightarrow> headers \<Rightarrow> memory \<Rightarrow> memory" where
  "memory_publish_with_headers q body hs m =
     m\<lparr>m_queues := dset q (qget (m_queues m) q @ [body]) (m_queues m),
       m_headers := dset q (qget (m_headers m) q @ [hs]) (m_headers m)\<rparr>"

text \<open>\<open>popleft\<close> of an empty headers deque raises \<open>IndexError\<close>; the invariant below excludes it.\<close>

definition memory_pop :: "pystr \<Rightarrow> memory \<Rightarrow> received_message option res \<times> memory" where
  "memory_pop q m =
     (case dget (m_queues m) q of
        None \<Rightarrow> (Inr None, m)
      | Some [] \<Rightarrow> (Inr None, m)
      | Some (body # bodies) \<Rightarrow>
          let m1 = m\<lparr>m_queues := dset q bodies (m_queues m)\<rparr>
          in case qget (m_headers m) q of
               [] \<Rightarrow> (Inl (Exc (UserError (u ''IndexError'')) (u ''pop from an empty deque'')), m1)
             | hs # rest \<Rightarrow>
                 (Inr (Some \<lparr>rm_body = body, rm_queue = q, rm_handle = 0, rm_headers = hs,
                            rm_route = Route [], rm_key = None, rm_native_attempts = 0\<rparr>),
                  m1\<lparr>m_headers := dset q rest (m_headers m)\<rparr>))"

definition memory_size :: "pystr \<Rightarrow> memory \<Rightarrow> nat" where
  "memory_size q m = length (qget (m_queues m) q)"

text \<open>The transport over any state holding a memory, by its reader and writer.\<close>

definition memory_transport :: "('s \<Rightarrow> memory) \<Rightarrow> (memory \<Rightarrow> 's \<Rightarrow> 's) \<Rightarrow> 's transport" where
  "memory_transport get put =
     \<lparr>t_publish = (\<lambda>q body s. (Inr (), put (memory_publish q body (get s)) s)),
      t_pop = (\<lambda>q s. case memory_pop q (get s) of (r, m) \<Rightarrow> (r, put m s)),
      t_ack = (\<lambda>r s. (Inr (), s)),
      t_close = (\<lambda>s. (Inr (), s)),
      t_classifies_poison = False,
      t_publish_with_headers =
        Some (\<lambda>q body hs s. (Inr (), put (memory_publish_with_headers q body hs (get s)) s)),
      t_publish_routed = None, t_publish_settle = None, t_publish_redriven = None, t_redeliver = None,
      t_dead_letter = None, t_rewind = None, t_dead_letter_queue_name = None, t_abandon = None,
      t_settle_native = None, t_settle_native_dead_letter = None, t_pop_batch = None,
      t_retry_tiers_ms = None\<rparr>"

section \<open>Choosing a transport\<close>

datatype transport_kind =
  Memory | RedisKind | PikaKind | SqsKind | AsbKind | PulsarKind | KafkaKind | ArtemisKind

text \<open>The text before the first \<open>://\<close>, or all of it.\<close>

fun before_scheme_sep :: "pystr \<Rightarrow> pystr" where
  "before_scheme_sep s =
     (if starts_with (u ''://'') s then []
      else case s of [] \<Rightarrow> [] | c # cs \<Rightarrow> c # before_scheme_sep cs)"

declare before_scheme_sep.simps [simp del]

definition make_transport :: "pystr \<Rightarrow> transport_kind res" where
  "make_transport broker_url =
     (let scheme = before_scheme_sep broker_url
      in if scheme \<in> {[], u ''memory''} then Inr Memory
         else if scheme \<in> {u ''redis'', u ''rediss''} then Inr RedisKind
         else if scheme \<in> {u ''amqp'', u ''amqps''} then Inr PikaKind
         else if scheme = u ''sqs'' then Inr SqsKind
         else if scheme \<in> {u ''sb'', u ''servicebus'', u ''azureservicebus''} then Inr AsbKind
         else if scheme \<in> {u ''pulsar'', u ''pulsar+ssl''} then Inr PulsarKind
         else if scheme = u ''kafka'' then Inr KafkaKind
         else if scheme \<in> {u ''artemis'', u ''artemis+ssl''} then Inr ArtemisKind
         else Inl (Exc BabelQueueError 
                (u ''Unsupported broker scheme '' @ quoted scheme
                 @ u ''. Use 'memory://', 'redis://', 'amqp://', 'sqs://', 'sb://', 'pulsar://', 'kafka://' or 'artemis://', or pass your own Transport via BabelQueue(transport=...).'')))"

section \<open>First in, first out\<close>

text \<open>What a client of an in-process queue relies on.\<close>

locale fifo =
  fixes inv :: "'m \<Rightarrow> bool"
    and contents :: "'m \<Rightarrow> pystr \<Rightarrow> 'x list"
    and push :: "pystr \<Rightarrow> 'x \<Rightarrow> 'm \<Rightarrow> 'm"
    and pull :: "pystr \<Rightarrow> 'm \<Rightarrow> 'x option \<times> 'm"
  assumes inv_push: "inv m \<Longrightarrow> inv (push q x m)"
    and inv_pull: "inv m \<Longrightarrow> inv (snd (pull q m))"
    and contents_push: "inv m \<Longrightarrow> contents (push q x m) q' = (if q' = q then contents m q @ [x] else contents m q')"
    and pull_value: "inv m \<Longrightarrow> fst (pull q m) = (case contents m q of [] \<Rightarrow> None | x # xs \<Rightarrow> Some x)"
    and contents_pull: "inv m \<Longrightarrow> contents (snd (pull q m)) q' = (if q' = q then tl (contents m q) else contents m q')"
begin

definition push_all :: "pystr \<Rightarrow> 'x list \<Rightarrow> 'm \<Rightarrow> 'm" where
  "push_all q xs m = fold (push q) xs m"

fun drain :: "nat \<Rightarrow> pystr \<Rightarrow> 'm \<Rightarrow> 'x list \<times> 'm" where
  "drain 0 q m = ([], m)"
| "drain (Suc n) q m =
     (case pull q m of
        (None, m') \<Rightarrow> ([], m')
      | (Some x, m') \<Rightarrow> (case drain n q m' of (xs, m'') \<Rightarrow> (x # xs, m'')))"

lemma push_all_contents:
  "inv m \<Longrightarrow> inv (push_all q xs m) \<and>
     (\<forall>q'. contents (push_all q xs m) q' = (if q' = q then contents m q @ xs else contents m q'))"
  by (induction xs arbitrary: m) (auto simp: push_all_def inv_push contents_push)

lemma drain_contents:
  "inv m \<Longrightarrow> fst (drain n q m) = take n (contents m q) \<and> inv (snd (drain n q m)) \<and>
     (\<forall>q'. contents (snd (drain n q m)) q' = (if q' = q then drop n (contents m q) else contents m q'))"
proof (induction n arbitrary: m)
  case (Suc n)
  obtain r m' where p: "pull q m = (r, m')" by force
  then have r: "r = (case contents m q of [] \<Rightarrow> None | x # xs \<Rightarrow> Some x)"
    using pull_value [OF Suc.prems, of q] by simp
  have m': "inv m'" "\<And>q'. contents m' q' = (if q' = q then tl (contents m q) else contents m q')"
    using inv_pull [OF Suc.prems, of q] contents_pull [OF Suc.prems, of q] p by simp_all
  show ?case
  proof (cases "contents m q")
    case Nil
    with p r m' Suc.prems show ?thesis by auto
  next
    case (Cons x xs)
    from Suc.IH [OF m'(1)] obtain ys m2 where d: "drain n q m' = (ys, m2)"
        "ys = take n xs" "inv m2" "\<And>q'. contents m2 q' = (if q' = q then drop n xs else contents m q')"
      using m'(2) Cons by (cases "drain n q m'") auto
    with p r Cons show ?thesis by simp
  qed
qed simp

lemma push_all_drain:
  assumes "inv m" "contents m q = []"
  shows "fst (drain (length xs) q (push_all q xs m)) = xs"
  using push_all_contents [OF assms(1), of q xs] drain_contents [of "push_all q xs m" "length xs" q] assms(2)
  by simp

end

definition memory_inv :: "memory \<Rightarrow> bool" where
  "memory_inv m \<longleftrightarrow> (\<forall>q. length (qget (m_queues m) q) = length (qget (m_headers m) q))"

definition memory_contents :: "memory \<Rightarrow> pystr \<Rightarrow> (pystr \<times> headers) list" where
  "memory_contents m q = zip (qget (m_queues m) q) (qget (m_headers m) q)"

definition memory_push :: "pystr \<Rightarrow> pystr \<times> headers \<Rightarrow> memory \<Rightarrow> memory" where
  "memory_push q x m = memory_publish_with_headers q (fst x) (snd x) m"

definition memory_pull :: "pystr \<Rightarrow> memory \<Rightarrow> (pystr \<times> headers) option \<times> memory" where
  "memory_pull q m =
     (case memory_pop q m of
        (Inr (Some r), m') \<Rightarrow> (Some (rm_body r, rm_headers r), m')
      | (_, m') \<Rightarrow> (None, m'))"

lemma memory_publish_plain: "memory_publish q body m = memory_publish_with_headers q body [] m"
  by (simp add: memory_publish_def memory_publish_with_headers_def)

lemma qget_dset [simp]: "qget (dset k v d) k' = (if k' = k then v else qget d k')"
  by (simp add: qget_def)

lemma memory_pop_cases:
  assumes "memory_inv m"
  shows "(qget (m_queues m) q = [] \<and> qget (m_headers m) q = [] \<and> memory_pop q m = (Inr None, m)) \<or>
    (\<exists>body bodies hs rest. qget (m_queues m) q = body # bodies \<and> qget (m_headers m) q = hs # rest \<and>
       memory_pop q m =
         (Inr (Some \<lparr>rm_body = body, rm_queue = q, rm_handle = 0, rm_headers = hs,
                     rm_route = Route [], rm_key = None, rm_native_attempts = 0\<rparr>),
          m\<lparr>m_queues := dset q bodies (m_queues m), m_headers := dset q rest (m_headers m)\<rparr>))"
proof (cases "qget (m_queues m) q")
  case Nil
  with assms have "qget (m_headers m) q = []"
    by (auto simp: memory_inv_def dest: spec [of _ q])
  with Nil show ?thesis
    by (auto simp: memory_pop_def qget_def split: option.splits list.splits)
next
  case (Cons body bodies)
  with assms obtain hs rest where "qget (m_headers m) q = hs # rest"
    by (metis length_Suc_conv memory_inv_def)
  with Cons show ?thesis
    by (auto simp: memory_pop_def Let_def qget_def split: option.splits)
qed

interpretation memory_fifo: fifo memory_inv memory_contents memory_push memory_pull
proof (unfold_locales, goal_cases)
  case (1 m q x)
  then show ?case by (simp add: memory_inv_def memory_push_def memory_publish_with_headers_def)
next
  case (2 m q)
  with memory_pop_cases [OF this, of q] show ?case
    by (auto simp: memory_pull_def memory_inv_def) (drule spec [of _ q], simp)
next
  case (3 m q x q')
  then show ?case
    by (simp add: memory_contents_def memory_push_def memory_publish_with_headers_def memory_inv_def)
next
  case (4 m q)
  with memory_pop_cases [OF this, of q] show ?case
    by (auto simp: memory_pull_def memory_contents_def)
next
  case (5 m q q')
  with memory_pop_cases [OF this, of q] show ?case
    by (auto simp: memory_pull_def memory_contents_def)
qed

section \<open>Properties\<close>



end
