(* ===== verification/Utf8.thy ===== *)
theory Utf8
  imports Prelude
begin

text \<open>
  Byte strings: the UTF-8 codec of \<open>str.encode\<close> and \<open>bytes.decode\<close> with the error handlers the
  program uses (strict, \<open>surrogateescape\<close>, \<open>surrogatepass\<close>, \<open>replace\<close>), and base64. Bytes are
  naturals below 256.
\<close>

type_synonym bytes = "nat list"

section \<open>Encoding\<close>

definition is_surrogate :: "nat \<Rightarrow> bool" where
  "is_surrogate c \<longleftrightarrow> 0xD800 \<le> c \<and> c \<le> 0xDFFF"

definition cp_bytes :: "nat \<Rightarrow> bytes" where
  "cp_bytes c =
     (if c < 0x80 then [c]
      else if c < 0x800 then [0xC0 + c div 64, 0x80 + c mod 64]
      else if c < 0x10000 then [0xE0 + c div 4096, 0x80 + c div 64 mod 64, 0x80 + c mod 64]
      else [0xF0 + c div 262144, 0x80 + c div 4096 mod 64, 0x80 + c div 64 mod 64, 0x80 + c mod 64])"

text \<open>One code point: \<open>surrogateescape\<close> writes \<open>U+DC80..U+DCFF\<close> as the byte it stands for.\<close>

definition escape_cp :: "nat \<Rightarrow> bytes option" where
  "escape_cp c =
     (if 0xDC80 \<le> c \<and> c \<le> 0xDCFF then Some [c - 0xDC00]
      else if is_surrogate c then None
      else Some (cp_bytes c))"

fun encode_with :: "(nat \<Rightarrow> bytes option) \<Rightarrow> pystr \<Rightarrow> bytes option" where
  "encode_with f [] = Some []"
| "encode_with f (c # cs) =
     (case f c of
        None \<Rightarrow> None
      | Some b \<Rightarrow> (case encode_with f cs of None \<Rightarrow> None | Some bs \<Rightarrow> Some (b @ bs)))"

definition utf8_encode :: "pystr \<Rightarrow> bytes option" where
  "utf8_encode s = encode_with (\<lambda>c. if is_surrogate c then None else Some (cp_bytes c)) s"

text \<open>\<open>s.encode("utf-8")\<close>.\<close>

definition utf8_bytes :: "pystr \<Rightarrow> bytes res" where
  "utf8_bytes s =
     (case utf8_encode s of
        None \<Rightarrow> Inl (Exc UnicodeEncodeError (u ''surrogates not allowed''))
      | Some b \<Rightarrow> Inr b)"

definition utf8_surrogateescape :: "pystr \<Rightarrow> bytes option" where
  "utf8_surrogateescape s = encode_with escape_cp s"

definition utf8_surrogatepass :: "pystr \<Rightarrow> bytes" where
  "utf8_surrogatepass s = concat (map cp_bytes s)"

section \<open>Decoding\<close>

definition is_cont :: "nat \<Rightarrow> bool" where
  "is_cont b \<longleftrightarrow> 0x80 \<le> b \<and> b < 0xC0"

text \<open>The shortest-form code point at the head of a byte string, and the bytes after it.\<close>

definition decode_cp :: "bytes \<Rightarrow> (nat \<times> bytes) option" where
  "decode_cp bs =
     (case bs of
        [] \<Rightarrow> None
      | a # r \<Rightarrow>
          if a < 0x80 then Some (a, r)
          else if a < 0xC2 then None
          else if a < 0xE0
          then (case r of b # r' \<Rightarrow> if is_cont b then Some ((a - 0xC0) * 64 + (b - 0x80), r') else None
                        | _ \<Rightarrow> None)
          else if a < 0xF0
          then (case r of
                  b # c # r' \<Rightarrow>
                    (let x = (a - 0xE0) * 4096 + (b - 0x80) * 64 + (c - 0x80)
                     in if is_cont b \<and> is_cont c \<and> 0x800 \<le> x \<and> \<not> is_surrogate x then Some (x, r') else None)
                | _ \<Rightarrow> None)
          else if a < 0xF5
          then (case r of
                  b # c # d # r' \<Rightarrow>
                    (let x = (a - 0xF0) * 262144 + (b - 0x80) * 4096 + (c - 0x80) * 64 + (d - 0x80)
                     in if is_cont b \<and> is_cont c \<and> is_cont d \<and> 0x10000 \<le> x \<and> x < 0x110000
                        then Some (x, r') else None)
                | _ \<Rightarrow> None)
          else None)"

lemma decode_cp_length: "decode_cp bs = Some (c, r) \<Longrightarrow> length r < length bs"
  by (auto simp: decode_cp_def Let_def split: list.splits if_splits)

function utf8_decode :: "bytes \<Rightarrow> pystr option" where
  "utf8_decode bs =
     (if bs = [] then Some []
      else case decode_cp bs of
             None \<Rightarrow> None
           | Some (c, r) \<Rightarrow> (case utf8_decode r of None \<Rightarrow> None | Some cs \<Rightarrow> Some (c # cs)))"
  by pat_completeness auto
termination
  by (relation "measure length") (auto dest: decode_cp_length)

declare utf8_decode.simps [simp del]

text \<open>\<open>surrogateescape\<close>: a byte that starts no code point is kept as \<open>U+DC00 + byte\<close>.\<close>

function utf8_decode_escape :: "bytes \<Rightarrow> pystr" where
  "utf8_decode_escape bs =
     (case bs of
        [] \<Rightarrow> []
      | a # r \<Rightarrow> (case decode_cp bs of
                    None \<Rightarrow> (0xDC00 + a) # utf8_decode_escape r
                  | Some (c, r') \<Rightarrow> c # utf8_decode_escape r'))"
  by pat_completeness auto
termination
  by (relation "measure length") (auto dest: decode_cp_length)

declare utf8_decode_escape.simps [simp del]

text \<open>
  \<open>replace\<close>: each maximal ill-formed prefix becomes one \<open>U+FFFD\<close>. \<open>bad_length\<close> is the length of that
  prefix where \<open>decode_cp\<close> fails.
\<close>

definition second_ok :: "nat \<Rightarrow> nat \<Rightarrow> bool" where
  "second_ok a b \<longleftrightarrow> is_cont b \<and> (a = 0xE0 \<longrightarrow> 0xA0 \<le> b) \<and> (a = 0xED \<longrightarrow> b < 0xA0)
     \<and> (a = 0xF0 \<longrightarrow> 0x90 \<le> b) \<and> (a = 0xF4 \<longrightarrow> b < 0x90)"

definition bad_length :: "bytes \<Rightarrow> nat" where
  "bad_length bs =
     (case bs of
        a # b # r \<Rightarrow>
          if a < 0xE0 \<or> 0xF5 \<le> a \<or> \<not> second_ok a b then 1
          else if a < 0xF0 then 2
          else (case r of c # r' \<Rightarrow> if is_cont c then 3 else 2 | [] \<Rightarrow> 2)
      | _ \<Rightarrow> 1)"

function utf8_decode_replace :: "bytes \<Rightarrow> pystr" where
  "utf8_decode_replace bs =
     (case bs of
        [] \<Rightarrow> []
      | a # r \<Rightarrow> (case decode_cp bs of
                    None \<Rightarrow> 0xFFFD # utf8_decode_replace (drop (bad_length bs - 1) r)
                  | Some (c, r') \<Rightarrow> c # utf8_decode_replace r'))"
  by pat_completeness auto
termination
  by (relation "measure length") (auto dest: decode_cp_length)

declare utf8_decode_replace.simps [simp del]

section \<open>Base64\<close>

definition b64_char :: "nat \<Rightarrow> nat" where
  "b64_char n =
     (if n < 26 then 65 + n else if n < 52 then 71 + n else if n < 62 then n - 4
      else if n = 62 then 43 else 47)"

fun b64_encode :: "bytes \<Rightarrow> pystr" where
  "b64_encode [] = []"
| "b64_encode [a] = [b64_char (a div 4), b64_char (a mod 4 * 16), 61, 61]"
| "b64_encode [a, b] = [b64_char (a div 4), b64_char (a mod 4 * 16 + b div 16), b64_char (b mod 16 * 4), 61]"
| "b64_encode (a # b # c # bs) =
     [b64_char (a div 4), b64_char (a mod 4 * 16 + b div 16), b64_char (b mod 16 * 4 + c div 64),
      b64_char (c mod 64)] @ b64_encode bs"

definition b64_val :: "nat \<Rightarrow> nat option" where
  "b64_val c =
     (if 65 \<le> c \<and> c \<le> 90 then Some (c - 65) else if 97 \<le> c \<and> c \<le> 122 then Some (c - 71)
      else if 48 \<le> c \<and> c \<le> 57 then Some (c + 4) else if c = 43 then Some 62
      else if c = 47 then Some 63 else None)"

fun b64_decode :: "pystr \<Rightarrow> bytes option" where
  "b64_decode [] = Some []"
| "b64_decode (w # x # y # z # s) =
     (if y = 61 \<and> z = 61 \<and> s = []
      then (case (b64_val w, b64_val x) of
              (Some p, Some q) \<Rightarrow> Some [p * 4 + q div 16] | _ \<Rightarrow> None)
      else if z = 61 \<and> s = []
      then (case (b64_val w, b64_val x, b64_val y) of
              (Some p, Some q, Some r) \<Rightarrow> Some [p * 4 + q div 16, q mod 16 * 16 + r div 4] | _ \<Rightarrow> None)
      else (case (b64_val w, b64_val x, b64_val y, b64_val z) of
              (Some p, Some q, Some r, Some t) \<Rightarrow>
                (case b64_decode s of
                   None \<Rightarrow> None
                 | Some bs \<Rightarrow> Some ([p * 4 + q div 16, q mod 16 * 16 + r div 4, r mod 4 * 64 + t] @ bs))
            | _ \<Rightarrow> None))"
| "b64_decode s = None"

section \<open>Round trips\<close>

lemma b64_val_char [simp]: "n < 64 \<Longrightarrow> b64_val (b64_char n) = Some n"
  by (auto simp: b64_val_def b64_char_def)

lemma b64_char_not_pad [simp]: "b64_char n \<noteq> 61" if "n < 64"
  using that by (auto simp: b64_char_def)

lemma b64_pack:
  fixes a b c :: nat
  assumes "a < 256" "b < 256" "c < 256"
  shows "a div 4 < 64" "a mod 4 * 16 + b div 16 < 64" "b mod 16 * 4 + c div 64 < 64" "c mod 64 < 64"
    "a mod 4 * 16 < 64" "b mod 16 * 4 < 64"
    "a div 4 * 4 + (a mod 4 * 16 + b div 16) div 16 = a"
    "(a mod 4 * 16 + b div 16) mod 16 * 16 + (b mod 16 * 4 + c div 64) div 4 = b"
    "(b mod 16 * 4 + c div 64) mod 4 * 64 + c mod 64 = c"
    "a div 4 * 4 + a mod 4 * 16 div 16 = a"
    "(a mod 4 * 16 + b div 16) mod 16 * 16 + b mod 16 * 4 div 4 = b"
proof -
  have s: "b div 16 < 16" "c div 64 < 4" "a mod 4 < 4" "b mod 16 < 16" "a div 4 < 64"
    using assms by simp_all
  then show "a div 4 < 64" "a mod 4 * 16 + b div 16 < 64" "b mod 16 * 4 + c div 64 < 64" "c mod 64 < 64"
      "a mod 4 * 16 < 64" "b mod 16 * 4 < 64"
    by linarith+
  have "(a mod 4 * 16 + b div 16) div 16 = a mod 4" "(a mod 4 * 16 + b div 16) mod 16 = b div 16"
      "(b mod 16 * 4 + c div 64) div 4 = b mod 16" "(b mod 16 * 4 + c div 64) mod 4 = c div 64"
    using s by simp_all
  then show "a div 4 * 4 + (a mod 4 * 16 + b div 16) div 16 = a"
      "(a mod 4 * 16 + b div 16) mod 16 * 16 + (b mod 16 * 4 + c div 64) div 4 = b"
      "(b mod 16 * 4 + c div 64) mod 4 * 64 + c mod 64 = c"
      "a div 4 * 4 + a mod 4 * 16 div 16 = a"
      "(a mod 4 * 16 + b div 16) mod 16 * 16 + b mod 16 * 4 div 4 = b"
    by simp_all
qed

lemma b64_decode_encode: "\<forall>b \<in> set bs. b < 256 \<Longrightarrow> b64_decode (b64_encode bs) = Some bs"
proof (induction bs rule: b64_encode.induct)
  case (2 a)
  then show ?case using b64_pack [of a 0 0] by simp
next
  case (3 a b)
  then show ?case using b64_pack [of a b 0] by simp
next
  case (4 a b c bs)
  then show ?case using b64_pack [of a b c] by simp
qed simp

lemma six_bits:
  "c div 64 mod 64 * 64 + c mod 64 = c mod 4096"
  "c div 4096 mod 64 * 4096 + c mod 4096 = c mod 262144" for c :: nat
  using mod_mult2_eq [of c 64 64] mod_mult2_eq [of c 4096 64] by simp_all

lemma split_64: "c = k * 64 + z \<Longrightarrow> z < 64 \<Longrightarrow> c div 64 = k \<and> c mod 64 = z" for c :: nat
  by simp

lemma cont_64: "is_cont b \<Longrightarrow> b - 0x80 < 64" "is_cont b \<Longrightarrow> b = 0x80 + (b - 0x80)"
  by (auto simp: is_cont_def)

lemma decode_cp_bytes:
  assumes "c < 0x110000" "\<not> is_surrogate c"
  shows "decode_cp (cp_bytes c @ r) = Some (c, r)"
proof -
  have m: "c mod 64 < 64" "c div 64 mod 64 < 64" "c div 4096 mod 64 < 64" by simp_all
  consider "c < 0x80" | "0x80 \<le> c" "c < 0x800" | "0x800 \<le> c" "c < 0x10000" | "0x10000 \<le> c" by linarith
  then show ?thesis
  proof cases
    case 1
    then show ?thesis by (simp add: decode_cp_def cp_bytes_def)
  next
    case 2
    then have "2 \<le> c div 64" "c div 64 < 32" by simp_all
    with 2 m show ?thesis by (simp add: decode_cp_def cp_bytes_def is_cont_def)
  next
    case 3
    then have "c div 4096 < 16" by simp
    moreover have "c div 4096 * 4096 + c div 64 mod 64 * 64 + c mod 64 = c"
      using six_bits(1) [of c] div_mult_mod_eq [of c 4096] by linarith
    ultimately show ?thesis
      using 3 m assms(2) by (simp add: decode_cp_def cp_bytes_def is_cont_def)
  next
    case 4
    then have "c div 262144 < 5" using assms(1) by simp
    moreover have "c div 262144 * 262144 + c div 4096 mod 64 * 4096 + c div 64 mod 64 * 64 + c mod 64 = c"
      using six_bits [of c] div_mult_mod_eq [of c 262144] by linarith
    ultimately show ?thesis
      using 4 m assms by (simp add: decode_cp_def cp_bytes_def is_cont_def)
  qed
qed

lemma utf8_decode_encode:
  "\<forall>c \<in> set s. c < 0x110000 \<Longrightarrow> utf8_encode s = Some bs \<Longrightarrow> utf8_decode bs = Some s"
proof (induction s arbitrary: bs)
  case Nil
  then show ?case by (simp add: utf8_encode_def utf8_decode.simps)
next
  case (Cons c s)
  then obtain bs' where bs: "bs = cp_bytes c @ bs'" "utf8_encode s = Some bs'" "\<not> is_surrogate c"
    by (auto simp: utf8_encode_def split: if_splits option.splits)
  have "cp_bytes c \<noteq> []" by (simp add: cp_bytes_def)
  with Cons bs decode_cp_bytes [of c bs'] show ?case
    by (subst utf8_decode.simps) simp
qed

lemma decode_cp_inverse:
  assumes "decode_cp bs = Some (c, r)"
  shows "bs = cp_bytes c @ r \<and> \<not> is_surrogate c \<and> c < 0x110000"
proof -
  from assms obtain a t where bs: "bs = a # t"
    by (cases bs) (auto simp: decode_cp_def)
  consider "a < 0x80" | "0xC2 \<le> a" "a < 0xE0" | "0xE0 \<le> a" "a < 0xF0" | "0xF0 \<le> a" "a < 0xF5"
    using assms bs by (fastforce simp: decode_cp_def split: if_splits)
  then show ?thesis
  proof cases
    case 1
    with assms bs show ?thesis by (auto simp: decode_cp_def cp_bytes_def is_surrogate_def)
  next
    case 2
    with assms bs obtain b where t: "t = b # r" "is_cont b" "c = (a - 0xC0) * 64 + (b - 0x80)"
      by (auto simp: decode_cp_def split: list.splits if_splits)
    define x y where "x = a - 0xC0" and "y = b - 0x80"
    have "c = x * 64 + y" "a = 0xC0 + x" "b = 0x80 + y" "y < 64" "2 \<le> x" "x < 32"
      using 2 t by (auto simp: x_def y_def is_cont_def)
    then show ?thesis
      by (simp add: bs t(1) cp_bytes_def is_surrogate_def)
  next
    case 3
    with assms bs obtain b d where t: "t = b # d # r" "is_cont b" "is_cont d"
        "c = (a - 0xE0) * 4096 + (b - 0x80) * 64 + (d - 0x80)" "0x800 \<le> c" "\<not> is_surrogate c"
      by (auto simp: decode_cp_def Let_def split: list.splits if_splits)
    define x y z where "x = a - 0xE0" and "y = b - 0x80" and "z = d - 0x80"
    have v: "c = x * 4096 + y * 64 + z" "a = 0xE0 + x" "b = 0x80 + y" "d = 0x80 + z" "y < 64" "z < 64" "x < 16"
      using 3 t by (auto simp: x_def y_def z_def is_cont_def)
    have "c div 4096 = x" "c div 64 mod 64 = y" "c mod 64 = z"
    proof -
      have "c = (x * 64 + y) * 64 + z" using v(1) by simp
      from split_64 [OF this v(6)] have "c div 64 = x * 64 + y" "c mod 64 = z" by simp_all
      moreover have "c div 4096 = c div 64 div 64" by (simp add: div_mult2_eq [symmetric])
      ultimately show "c div 4096 = x" "c div 64 mod 64 = y" "c mod 64 = z" using v(5) by simp_all
    qed
    moreover have "c < 0x10000" using v by linarith
    ultimately show ?thesis
      using t(5,6) v(2-4) by (simp add: bs t(1) cp_bytes_def)
  next
    case 4
    with assms bs obtain b d e where t: "t = b # d # e # r" "is_cont b" "is_cont d" "is_cont e"
        "c = (a - 0xF0) * 262144 + (b - 0x80) * 4096 + (d - 0x80) * 64 + (e - 0x80)"
        "0x10000 \<le> c" "c < 0x110000"
      by (auto simp: decode_cp_def Let_def split: list.splits if_splits)
    define w x y z where "w = a - 0xF0" and "x = b - 0x80" and "y = d - 0x80" and "z = e - 0x80"
    have v: "c = w * 262144 + x * 4096 + y * 64 + z" "a = 0xF0 + w" "b = 0x80 + x" "d = 0x80 + y"
        "e = 0x80 + z" "x < 64" "y < 64" "z < 64"
      using 4 t(2-5) cont_64 by (simp_all add: w_def x_def y_def z_def)
    have "c div 262144 = w" "c div 4096 mod 64 = x" "c div 64 mod 64 = y" "c mod 64 = z"
    proof -
      have "c = ((w * 64 + x) * 64 + y) * 64 + z" using v(1) by simp
      from split_64 [OF this v(8)] have c1: "c div 64 = (w * 64 + x) * 64 + y" "c mod 64 = z" by simp_all
      from split_64 [OF c1(1) v(7)] have c2: "c div 64 div 64 = w * 64 + x" "c div 64 mod 64 = y" by simp_all
      from split_64 [OF c2(1) v(6)] have c3: "c div 64 div 64 div 64 = w" "c div 64 div 64 mod 64 = x" by simp_all
      have "c div 4096 = c div 64 div 64" "c div 262144 = c div 64 div 64 div 64"
        by (simp_all add: div_mult2_eq [symmetric])
      with c1(2) c2(2) c3 show "c div 262144 = w" "c div 4096 mod 64 = x" "c div 64 mod 64 = y" "c mod 64 = z"
        by simp_all
    qed
    then show ?thesis
      using t(6,7) v(2-5) by (simp add: bs t(1) cp_bytes_def is_surrogate_def)
  qed
qed

text \<open>\<open>surrogateescape\<close> loses nothing: encoding the decoded text gives the bytes back.\<close>

lemma surrogateescape_lossless:
  "\<forall>b \<in> set bs. b < 256 \<Longrightarrow> utf8_surrogateescape (utf8_decode_escape bs) = Some bs"
proof (induction bs rule: utf8_decode_escape.induct)
  case (1 bs)
  show ?case
  proof (cases bs)
    case Nil
    then show ?thesis by (simp add: utf8_surrogateescape_def utf8_decode_escape.simps)
  next
    case (Cons a r)
    show ?thesis
    proof (cases "decode_cp bs")
      case None
      then have "0x80 \<le> a"
        using Cons by (intro leI notI) (simp add: decode_cp_def)
      with None Cons 1 show ?thesis
        by (subst utf8_decode_escape.simps) (simp add: utf8_surrogateescape_def escape_cp_def)
    next
      case (Some p)
      obtain c r' where p: "p = (c, r')" by force
      with Some decode_cp_inverse have d: "bs = cp_bytes c @ r'" "\<not> is_surrogate c" by blast+
      then have "\<forall>b \<in> set r'. b < 256" using "1.prems" by simp
      moreover have "escape_cp c = Some (cp_bytes c)"
        using d(2) by (auto simp: escape_cp_def is_surrogate_def)
      ultimately show ?thesis
        using "1.IH"(2) [OF Cons Some p [symmetric]] Some p Cons d(1)
        by (subst utf8_decode_escape.simps) (simp add: utf8_surrogateescape_def)
    qed
  qed
qed

lemma utf8_encode_decode: "utf8_decode bs = Some s \<Longrightarrow> utf8_encode s = Some bs"
proof (induction bs arbitrary: s rule: utf8_decode.induct)
  case (1 bs)
  show ?case
  proof (cases "bs = []")
    case True
    with "1.prems" show ?thesis by (simp add: utf8_decode.simps utf8_encode_def)
  next
    case False
    with "1.prems" obtain c r t where d: "decode_cp bs = Some (c, r)" "utf8_decode r = Some t" "s = c # t"
      by (subst (asm) utf8_decode.simps) (auto split: option.splits)
    with "1.IH" [OF False d(1) refl d(2)] decode_cp_inverse [OF d(1)] show ?thesis
      by (simp add: utf8_encode_def)
  qed
qed

lemma cp_bytes_bound: "c < 0x110000 \<Longrightarrow> b \<in> set (cp_bytes c) \<Longrightarrow> b < 256"
proof -
  assume c: "c < 0x110000" and b: "b \<in> set (cp_bytes c)"
  have "c div 262144 < 5" "c mod 64 < 64" "c div 64 mod 64 < 64" "c div 4096 mod 64 < 64"
      "c < 0x800 \<Longrightarrow> c div 64 < 32" "c < 0x10000 \<Longrightarrow> c div 4096 < 16"
    using c by simp_all
  with b show ?thesis
    by (auto simp: cp_bytes_def split: if_splits)
qed

end
