(* ===== verification/PoisonRecord.thy ===== *)
theory PoisonRecord
  imports EnvelopeShape Utf8
begin

text \<open>
  \<open>dead_letter.py\<close> (\<open>annotate\<close>) and \<open>_poison_record.py\<close>: the block attached to a dead-lettered
  envelope, and the record written for a body that has no envelope. A strict JSON object is spliced
  (its own characters are kept and a member is appended), anything else is wrapped as text or as
  base64 of its exact bytes.
\<close>

section \<open>The \<open>dead_letter\<close> block\<close>

definition opt_str :: "pystr option \<Rightarrow> pyval" where
  "opt_str s = (case s of None \<Rightarrow> PNone | Some t \<Rightarrow> PStr t)"

definition dead_letter_block ::
  "pystr \<Rightarrow> pystr \<Rightarrow> int \<Rightarrow> pystr option \<Rightarrow> pystr option \<Rightarrow> pystr \<Rightarrow> int \<Rightarrow> pyval" where
  "dead_letter_block reason original_queue attempts error exception lang now_ms =
     PDict [(u ''reason'', PStr reason), (u ''error'', opt_str error), (u ''exception'', opt_str exception),
       (u ''failed_at'', PInt now_ms), (u ''original_queue'', PStr original_queue),
       (u ''attempts'', PInt attempts), (u ''lang'', PStr lang)]"

definition annotate ::
  "pyval dict \<Rightarrow> pystr \<Rightarrow> pystr \<Rightarrow> int \<Rightarrow> pystr option \<Rightarrow> pystr option \<Rightarrow> int \<Rightarrow> pyval dict" where
  "annotate envelope reason original_queue attempts error exception now_ms =
     dset (u ''dead_letter'')
       (dead_letter_block reason original_queue attempts error exception SOURCE_LANG now_ms) envelope"

section \<open>Surrogate escapes\<close>

text \<open>
  \<open>_STRING_LITERAL.finditer\<close>: the text of a literal from after its opening quote to before its
  closing one, and the text after it; \<open>None\<close> when the quote opens no literal.
\<close>

fun literal_body :: "pystr \<Rightarrow> (pystr \<times> pystr) option" where
  "literal_body [] = None"
| "literal_body (c # cs) =
     (if c = 34 then Some ([], cs)
      else if c = 92
      then (case cs of
              [] \<Rightarrow> None
            | d # ds \<Rightarrow> (case literal_body ds of None \<Rightarrow> None | Some (b, r) \<Rightarrow> Some (c # d # b, r)))
      else (case literal_body cs of None \<Rightarrow> None | Some (b, r) \<Rightarrow> Some (c # b, r)))"

lemma literal_body_length: "literal_body s = Some (b, r) \<Longrightarrow> length r < length s"
proof (induction s arbitrary: b r rule: literal_body.induct)
  case (2 c cs)
  show ?case
  proof (cases "c = 92")
    case True
    with 2 obtain d ds b' where "cs = d # ds" "literal_body ds = Some (b', r)"
      by (auto split: list.splits option.splits)
    with 2(1) [of d ds b' r] True show ?thesis by simp
  next
    case False
    with 2 show ?thesis by (auto split: if_splits option.splits intro: less_SucI)
  qed
qed simp

function string_literals :: "pystr \<Rightarrow> pystr list" where
  "string_literals s =
     (case s of
        [] \<Rightarrow> []
      | c # cs \<Rightarrow>
          if c = 34
          then (case literal_body cs of
                  None \<Rightarrow> string_literals cs
                | Some (b, r) \<Rightarrow> b # string_literals r)
          else string_literals cs)"
  by pat_completeness auto
termination
  by (relation "measure length") (auto dest: literal_body_length)

declare string_literals.simps [simp del]

text \<open>
  \<open>_ESCAPE.finditer\<close>: the code of every escape of a literal, \<open>None\<close> for an escape that is not
  \<open>\u\<close> and four hexadecimal digits.
\<close>

function escape_codes :: "pystr \<Rightarrow> nat option list" where
  "escape_codes s =
     (case s of
        [] \<Rightarrow> []
      | c # cs \<Rightarrow>
          if c = 92
          then (case cs of
                  [] \<Rightarrow> []
                | d # ds \<Rightarrow>
                    (case (if d = 117 then hex4 ds else None) of
                       Some (code, r) \<Rightarrow> Some code # escape_codes r
                     | None \<Rightarrow> None # escape_codes ds))
          else escape_codes cs)"
  by pat_completeness auto
termination
  by (relation "measure length") (auto split: if_splits dest: hex4_length)

declare escape_codes.simps [simp del]

fun unpaired_in :: "bool \<Rightarrow> nat option list \<Rightarrow> bool" where
  "unpaired_in pending_high [] = pending_high"
| "unpaired_in pending_high (code # codes) =
     (let high = (case code of None \<Rightarrow> False | Some c \<Rightarrow> is_high c);
          low = (case code of None \<Rightarrow> False | Some c \<Rightarrow> is_low c)
      in if pending_high \<and> \<not> low then True
         else if low \<and> \<not> pending_high then True
         else unpaired_in high codes)"

definition has_unpaired_surrogate_escape :: "pystr \<Rightarrow> bool" where
  "has_unpaired_surrogate_escape text =
     list_ex (\<lambda>literal. unpaired_in False (escape_codes literal)) (string_literals text)"

section \<open>The record\<close>

text \<open>
  The decoder with \<open>object_pairs_hook=hook\<close>: an object is remembered as its keys. The outermost
  object completes last, so the keys of a root object are \<open>last_pairs\<close>.
\<close>

datatype spliced = SObject "pystr list" | SOther

definition splice_hooks :: "spliced hooks" where
  "splice_hooks = \<lparr>h_null = SOther, h_bool = (\<lambda>b. SOther),
     h_int = (\<lambda>lit. bind_res (py_int_hook lit) (\<lambda>v. Inr SOther)), h_float = (\<lambda>lit. SOther),
     h_const = (\<lambda>name. Inl (Exc ValueError (u ''invalid JSON constant '' @ name))),
     h_str = (\<lambda>t. SOther), h_arr = (\<lambda>vs. SOther), h_obj = (\<lambda>ps. SObject (map fst ps))\<rparr>"

definition is_spliceable_object :: "pystr \<Rightarrow> bool" where
  "is_spliceable_object text =
     (case loads_with splice_hooks text of
        Inl e \<Rightarrow> False
      | Inr parsed \<Rightarrow>
          (case parsed of
             SOther \<Rightarrow> False
           | SObject keys \<Rightarrow>
               if u ''dead_letter'' \<in> set keys then False
               else \<not> has_unpaired_surrogate_escape text))"

definition JSON_WHITESPACE :: "nat list" where
  "JSON_WHITESPACE = [32, 9, 13, 10]"

text \<open>
  \<open>text.encode\<close> with \<open>surrogateescape\<close>, else \<open>surrogatepass\<close>; then a strict decode. \<open>allow_nan=False\<close>
  changes nothing for a block without doubles, the only one the program builds.
\<close>

definition body_bytes :: "pystr \<Rightarrow> bytes" where
  "body_bytes text =
     (case utf8_surrogateescape text of Some b \<Rightarrow> b | None \<Rightarrow> utf8_surrogatepass text)"

definition build_poison_record :: "pystr \<Rightarrow> pyval \<Rightarrow> pystr res" where
  "build_poison_record text block =
     (let data = body_bytes text; decoded = utf8_decode data
      in bind_res (dumps block) (\<lambda>block.
           case decoded of
             Some d \<Rightarrow>
               if is_spliceable_object d
               then (let trimmed = strip JSON_WHITESPACE d
                     in if strip JSON_WHITESPACE (drop 1 (butlast trimmed)) = []
                        then Inr (u ''{\"dead_letter\":'' @ block @ [125])
                        else Inr (butlast trimmed @ u '',\"dead_letter\":'' @ block @ [125]))
               else Inr (u ''{\"raw\":'' @ str_json False d @ u '',\"dead_letter\":'' @ block @ [125])
           | None \<Rightarrow>
               Inr (u ''{\"raw\":\"'' @ b64_encode data @ u ''\",\"raw_encoding\":\"base64\",\"dead_letter\":''
                    @ block @ [125])))"

section \<open>A wrapped record\<close>

text \<open>The block is flat, so its text does not depend on the nesting left.\<close>

lemma dump_block:
  assumes "dump_val False (Suc d) (dead_letter_block reason oq n err ex lang now) = Inr s"
  shows "dump_val False (Suc d') (dead_letter_block reason oq n err ex lang now) = Inr s"
  using assms by (cases err; cases ex) (simp_all add: dead_letter_block_def opt_str_def)

lemma block_ok: "wf_val (dead_letter_block reason oq n err ex lang now)"
    "floats_ok (dead_letter_block reason oq n err ex lang now)"
  by (cases err; cases ex; simp add: dead_letter_block_def opt_str_def)+

lemma max_nesting_Suc: "max_nesting = Suc (Suc 998)"
  by (simp add: max_nesting_def)

lemma wrapped_text:
  assumes "dumps block = Inr b" "dump_val False (Suc 998) block = Inr b"
  shows "dumps (PDict [(u ''raw'', PStr d), (u ''dead_letter'', block)])
           = Inr (u ''{\"raw\":'' @ str_json False d @ u '',\"dead_letter\":'' @ b @ [125])"
    and "dumps (PDict [(u ''raw'', PStr d), (u ''raw_encoding'', PStr (u ''base64'')), (u ''dead_letter'', block)])
           = Inr (u ''{\"raw\":'' @ str_json False d @ u '',\"raw_encoding\":\"base64\",\"dead_letter\":'' @ b @ [125])"
  using assms by (simp_all add: dumps_def max_nesting_Suc str_json_def u_def esc_char_def)

lemma b64_char_plain: "n < 64 \<Longrightarrow> esc_char False (b64_char n) = [b64_char n]"
  by (auto simp: b64_char_def esc_char_def)

lemma b64_encode_plain: "\<forall>b \<in> set bs. b < 256 \<Longrightarrow> concat (map (esc_char False) (b64_encode bs)) = b64_encode bs"
proof (induction bs rule: b64_encode.induct)
  case (2 a)
  then show ?case using b64_pack [of a 0 0] by (simp add: b64_char_plain) (simp add: esc_char_def)
next
  case (3 a b)
  then show ?case using b64_pack [of a b 0] by (simp add: b64_char_plain) (simp add: esc_char_def)
next
  case (4 a b c bs)
  then show ?case using b64_pack [of a b c] by (simp add: b64_char_plain)
qed simp

lemma body_bytes_lossless: "\<forall>b \<in> set bs. b < 256 \<Longrightarrow> body_bytes (utf8_decode_escape bs) = bs"
  by (simp add: body_bytes_def surrogateescape_lossless)

text \<open>The bytes a consumer of the dead-letter queue reads out of a wrapped record.\<close>

definition record_bytes :: "pyval \<Rightarrow> bytes option" where
  "record_bytes v =
     (case v of
        PDict d \<Rightarrow>
          (case dget d (u ''raw'') of
             Some (PStr raw) \<Rightarrow>
               if dget d (u ''raw_encoding'') = Some (PStr (u ''base64'')) then b64_decode raw
               else utf8_encode raw
           | _ \<Rightarrow> None)
      | _ \<Rightarrow> None)"

definition wrapped :: "pystr \<Rightarrow> bool" where
  "wrapped text =
     (case utf8_decode (body_bytes text) of None \<Rightarrow> True | Some d \<Rightarrow> \<not> is_spliceable_object d)"



end
