(* ===== verification/Runtime.thy ===== *)
theory Runtime
  imports Transport PoisonRecord
begin

text \<open>
  The settlement layer of \<open>app.py\<close>: the configuration of a \<open>BabelQueue\<close>, its state, and every
  method that settles a delivery (acknowledge, release, retry, dead-letter, native settle, rewind),
  up to \<open>_route_unknown\<close>, \<open>_route_poison\<close> and \<open>_route_body_poison\<close>. Dispatch and the consume
  loop are in \<open>Dispatch\<close>.
\<close>

section \<open>State\<close>

text \<open>
  \<open>phase\<close> and \<open>last_phase\<close> are the runtime's own. \<open>shared\<close> is the state the broker, the handlers
  and other threads also change: the stop event and the flags of the signal handler, and \<open>env\<close>, the
  rest of the world. Two fields record history: \<open>calls\<close>, the calls made to the transport and the
  handlers (oldest first, each with whether it returned), and \<open>logs\<close>, the records of the logger.
\<close>

datatype phase = Idle | Handling | Settling

record 'w shared =
  sh_stop :: bool
  sh_signalled :: bool
  sh_deadline_hit :: bool
  sh_deadline_timer :: bool
  sh_env :: 'w

datatype call =
    Handler pystr
  | Write pystr pystr
  | Ack
  | Redeliver pystr
  | DeadLetterWrite pystr pystr
  | Rewind
  | Abandon
  | SettleNative
  | SettleNativeDeadLetter

datatype log_record =
    AckFailed | ObserverFailed | NativeSettle pystr | NativeSettleFailed | AbandonFailed | RewindFailed
  | RepublishFailed | GatedWriteFailed | DroppedUndeliverable | DroppedExhausted int
  | DroppedPoison pystr | DroppedTierlessPoison

record 'w rt =
  rt_phase :: phase
  rt_last_phase :: phase
  rt_calls :: "(call \<times> bool) list"
  rt_logs :: "log_record list"
  rt_shared :: "'w shared"

record dead_letter_event =
  ev_queue :: pystr
  ev_dead_letter_queue :: pystr
  ev_reason :: pystr

text \<open>
  A handler: whether its signature takes the full envelope, and what it does with the out-of-band
  headers and the replay flag of the context, the data, the meta and the envelope.
\<close>

record 'w handler =
  wants_envelope :: bool
  run_handler :: "headers \<Rightarrow> bool \<Rightarrow> pyval dict \<Rightarrow> pyval dict \<Rightarrow> pyval dict option \<Rightarrow> ('w shared, unit) op"

record 'w app =
  a_transport :: "'w shared transport"
  a_handlers :: "'w handler dict"
  a_queue :: pystr
  a_on_unknown_urn :: pystr
  a_max_attempts :: int
  a_dead_letter :: bool
  a_dead_letter_queue :: "pystr option"
  a_dead_letter_suffix :: "pystr option"
  a_retry_backoff :: rat
  a_retry_multiplier :: rat
  a_retry_max :: rat
  a_retry_jitter :: pystr
  a_uniform :: "rat \<Rightarrow> rat \<Rightarrow> rat"
  a_unknown_delay :: rat
  a_shutdown_timeout :: rat
  a_observer :: "(dead_letter_event \<Rightarrow> ('w shared, unit) op) option"
  a_now_ms :: "'w shared \<Rightarrow> int"

text \<open>\<open>UnknownUrnStrategy\<close>.\<close>

definition FAIL :: pystr where "FAIL = u ''fail''"
definition DELETE :: pystr where "DELETE = u ''delete''"
definition RELEASE :: pystr where "RELEASE = u ''release''"
definition DEAD_LETTER :: pystr where "DEAD_LETTER = u ''dead_letter''"

text \<open>A call to the outside: it acts on the shared state and is recorded.\<close>

definition call_out :: "call \<Rightarrow> ('w shared, 'a) op \<Rightarrow> ('w rt, 'a) op" where
  "call_out c f =
     (\<lambda>s. case f (rt_shared s) of
            (r, w) \<Rightarrow> (r, s\<lparr>rt_shared := w, rt_calls := rt_calls s @ [(c, \<not> isl r)]\<rparr>))"

definition outside :: "('w shared, 'a) op \<Rightarrow> ('w rt, 'a) op" where
  "outside f = (\<lambda>s. case f (rt_shared s) of (r, w) \<Rightarrow> (r, s\<lparr>rt_shared := w\<rparr>))"

definition log :: "log_record \<Rightarrow> ('w rt, unit) op" where
  "log l = modify (\<lambda>s. s\<lparr>rt_logs := rt_logs s @ [l]\<rparr>)"

section \<open>Retry delay\<close>

text \<open>
  \<open>d(n) = min(maximum, base * multiplier ^ (n - 1))\<close>. Doubles are idealised as rationals, except
  that a power out of their range raises \<open>OverflowError\<close>, as \<open>float ** int\<close> does.
\<close>

definition float_range :: rat where
  "float_range = 2 ^ 1024 - 2 ^ 970"

lemma float_range_code [code]: "float_range = 179769313486231580793728971405303415079934132710037826936173778980444968292764750946649017977587207096330286416692887910946555547851940402630657488671505820681908902000708383676273854845817711531764475730270069855571366959622842914819860834936475292719074168444365510704342711559699508093042880177904174497792"
  by (simp add: float_range_def)

definition float_pow :: "rat \<Rightarrow> nat \<Rightarrow> rat res" where
  "float_pow m k =
     (if float_range \<le> \<bar>m ^ k\<bar> then Inl (Exc OverflowError (u ''(34, 'Numerical result out of range')''))
      else Inr (m ^ k))"

definition retry_delay :: "int \<Rightarrow> rat \<Rightarrow> rat \<Rightarrow> rat \<Rightarrow> pystr \<Rightarrow> (rat \<Rightarrow> rat \<Rightarrow> rat) \<Rightarrow> rat res" where
  "retry_delay n base multiplier maximum jitter uniform =
     bind_res (float_pow multiplier (nat (max (n - 1) 0))) (\<lambda>p.
       let delay0 = base * p;
           delay = (if 0 < maximum then min maximum delay0 else delay0)
       in Inr (if jitter = u ''full'' then uniform 0 delay else delay))"

definition app_retry_delay :: "'w app \<Rightarrow> int \<Rightarrow> rat res" where
  "app_retry_delay a attempts =
     retry_delay attempts (a_retry_backoff a) (a_retry_multiplier a) (a_retry_max a) (a_retry_jitter a)
       (a_uniform a)"

section \<open>Settling\<close>

definition ack_settled :: "'w app \<Rightarrow> received_message \<Rightarrow> ('w rt, unit) op" where
  "ack_settled a r = catch_exc (call_out Ack (t_ack (a_transport a) r)) (\<lambda>e. log AckFailed)"

definition without_forbidden_keys :: "pystr \<Rightarrow> pystr res" where
  "without_forbidden_keys body =
     bind_res (parse_envelope body) (\<lambda>parsed.
       if parsed = [] \<or> \<not> (has_forbidden_keys parsed \<or> dhas (u ''urn'') parsed) then Inr body
       else bind_res (fst (decode_lenient body)) encode)"

definition publish_for :: "'w app \<Rightarrow> received_message \<Rightarrow> pystr \<Rightarrow> pystr \<Rightarrow> ('w rt, unit) op" where
  "publish_for a r queue body =
     call_out (Write queue body) (publish_keeping_route (a_transport a) queue body (rm_route r) (rm_key r))"

definition release :: "'w app \<Rightarrow> received_message \<Rightarrow> pystr \<Rightarrow> rat \<Rightarrow> ('w rt, unit) op" where
  "release a r body delay =
     (case t_redeliver (a_transport a) of
        Some redeliver \<Rightarrow> call_out (Redeliver body) (redeliver r body delay)
      | None \<Rightarrow>
          bind_op (lift_res (without_forbidden_keys body)) (\<lambda>clean.
            then_op (publish_for a r (rm_queue r) clean) (ack_settled a r)))"

definition notify_dead_letter :: "'w app \<Rightarrow> pystr \<Rightarrow> pystr \<Rightarrow> pystr \<Rightarrow> ('w rt, unit) op" where
  "notify_dead_letter a queue dead_letter_queue reason =
     (case a_observer a of
        None \<Rightarrow> ret ()
      | Some observer \<Rightarrow>
          catch_exc
            (outside (observer \<lparr>ev_queue = queue, ev_dead_letter_queue = dead_letter_queue, ev_reason = reason\<rparr>))
            (\<lambda>e. log ObserverFailed))"

definition write_dead_letter ::
  "'w app \<Rightarrow> received_message \<Rightarrow> pystr \<Rightarrow> pystr \<Rightarrow> pystr \<Rightarrow> pystr \<Rightarrow> ('w rt, unit) op" where
  "write_dead_letter a r queue body source_queue reason =
     then_op
       (case t_dead_letter (a_transport a) of
          Some dead_letter \<Rightarrow> call_out (DeadLetterWrite queue body) (dead_letter r queue body)
        | None \<Rightarrow> then_op (publish_for a r queue body) (ack_settled a r))
       (notify_dead_letter a (if source_queue = [] then rm_queue r else source_queue) queue reason)"

text \<open>\<open>_settle_native\<close> answers whether the transport has a native mechanism.\<close>

definition settle_native :: "'w app \<Rightarrow> received_message \<Rightarrow> pystr \<Rightarrow> pystr \<Rightarrow> ('w rt, bool) op" where
  "settle_native a r reason description =
     (case (t_settle_native_dead_letter (a_transport a), t_settle_native (a_transport a)) of
        (None, None) \<Rightarrow> ret False
      | (Some settle, _) \<Rightarrow>
          then_op (log (NativeSettle reason))
            (then_op
               (catch_exc
                  (bind_op (call_out SettleNativeDeadLetter (settle r reason description)) (\<lambda>dead_lettered.
                     if dead_lettered then notify_dead_letter a (rm_queue r) [] [] else ret ()))
                  (\<lambda>e. log NativeSettleFailed))
               (ret True))
      | (None, Some settle) \<Rightarrow>
          then_op (log (NativeSettle reason))
            (then_op
               (catch_exc (call_out SettleNative (settle r reason description)) (\<lambda>e. log NativeSettleFailed))
               (ret True)))"

text \<open>The pause after a rewind or an abandon waits and changes nothing.\<close>

definition rewind_unsettled :: "'w app \<Rightarrow> received_message \<Rightarrow> ('w rt, unit) op" where
  "rewind_unsettled a r =
     (case t_rewind (a_transport a) of
        None \<Rightarrow> ret ()
      | Some rewind \<Rightarrow> catch_exc (call_out Rewind (rewind r)) (\<lambda>e. log RewindFailed))"

definition abandon_unsettled :: "'w app \<Rightarrow> received_message \<Rightarrow> ('w rt, unit) op" where
  "abandon_unsettled a r =
     (case (t_rewind (a_transport a), t_abandon (a_transport a)) of
        (None, Some abandon) \<Rightarrow> catch_exc (call_out Abandon (abandon r)) (\<lambda>e. log AbandonFailed)
      | _ \<Rightarrow> rewind_unsettled a r)"

definition leave_republish_unsettled :: "'w app \<Rightarrow> received_message \<Rightarrow> ('w rt, unit) op" where
  "leave_republish_unsettled a r = then_op (log RepublishFailed) (rewind_unsettled a r)"

definition release_unprocessed :: "'w app \<Rightarrow> received_message \<Rightarrow> ('w rt, unit) op" where
  "release_unprocessed a r =
     (case t_rewind (a_transport a) of
        Some rewind \<Rightarrow> catch_exc (call_out Rewind (rewind r)) (\<lambda>e. log RewindFailed)
      | None \<Rightarrow> release a r (rm_body r) 0)"

definition dead_letter_target :: "'w app \<Rightarrow> received_message \<Rightarrow> pystr res" where
  "dead_letter_target a r =
     (case a_dead_letter_queue a of
        Some q \<Rightarrow> if q \<noteq> [] then Inr q else
          (case t_dead_letter_queue_name (a_transport a) of
             Some name \<Rightarrow> name (rm_queue r) (a_dead_letter_suffix a)
           | None \<Rightarrow> Inr (rm_queue r @ (case a_dead_letter_suffix a of None \<Rightarrow> u ''.dlq'' | Some x \<Rightarrow> x)))
      | None \<Rightarrow>
          (case t_dead_letter_queue_name (a_transport a) of
             Some name \<Rightarrow> name (rm_queue r) (a_dead_letter_suffix a)
           | None \<Rightarrow> Inr (rm_queue r @ (case a_dead_letter_suffix a of None \<Rightarrow> u ''.dlq'' | Some x \<Rightarrow> x))))"

text \<open>
  \<open>str(v)\<close>; the one approximation is a container, which prints as its type's name instead of its \<open>repr\<close>.
\<close>

definition py_str :: "pyval \<Rightarrow> pystr" where
  "py_str v =
     (case v of
        PStr s \<Rightarrow> s
      | PInt i \<Rightarrow> int_str i
      | PBool b \<Rightarrow> if b then u ''True'' else u ''False''
      | PFloat f \<Rightarrow> float_repr f
      | PNone \<Rightarrow> u ''None''
      | _ \<Rightarrow> py_type_name v)"

text \<open>\<open>str(env.get(key) or "")\<close>.\<close>

definition truthy_text :: "pyval dict \<Rightarrow> string \<Rightarrow> pystr" where
  "truthy_text env key = (let v = get_or_none env (u key) in if truthy v then py_str v else [])"

text \<open>\<open>env.get("meta") or {}\<close>, and \<open>.get\<close> on what that is.\<close>

definition meta_or_empty :: "pyval dict \<Rightarrow> pyval dict res" where
  "meta_or_empty env =
     (case get_or_none env (u ''meta'') of
        PDict meta \<Rightarrow> Inr meta
      | v \<Rightarrow> if truthy v then Inl (Exc AttributeError (quoted (py_type_name v) @ u '' object has no attribute '' @ quoted (u ''get''))) else Inr [])"

definition original_queue :: "pyval dict \<Rightarrow> received_message \<Rightarrow> pystr res" where
  "original_queue envelope r =
     (let meta = get_or_none envelope (u ''meta'')
      in if \<not> truthy meta then Inr (rm_queue r)
         else case meta of
                PDict m \<Rightarrow>
                  let q = get_or_none m (u ''queue'')
                  in Inr (if truthy q then py_str q else rm_queue r)
              | _ \<Rightarrow> Inl (Exc AttributeError (quoted (py_type_name meta) @ u '' object has no attribute '' @ quoted (u ''get''))))"

definition int_attempts :: "pyval dict \<Rightarrow> int res" where
  "int_attempts envelope =
     py_int (case dget envelope (u ''attempts'') of None \<Rightarrow> PInt 0 | Some v \<Rightarrow> v)"

definition dead_letter ::
  "'w app \<Rightarrow> received_message \<Rightarrow> pyval dict \<Rightarrow> pystr \<Rightarrow> exc option \<Rightarrow> ('w rt, unit) op" where
  "dead_letter a r envelope reason exc =
     bind_op (lift_res (original_queue envelope r)) (\<lambda>source.
     bind_op (lift_res (int_attempts envelope)) (\<lambda>attempts.
     bind_op (\<lambda>s. (Inr (a_now_ms a (rt_shared s)), s)) (\<lambda>now.
     let annotated = annotate envelope reason source attempts
                       (map_option exc_str exc) (map_option (\<lambda>e. exc_name (exc_class_of e)) exc) now
     in bind_op (lift_res (dead_letter_target a r)) (\<lambda>target.
        bind_op (lift_res (encode annotated)) (\<lambda>body.
          write_dead_letter a r target body source reason)))))"

definition retry_or_dead_letter ::
  "'w app \<Rightarrow> received_message \<Rightarrow> pyval dict \<Rightarrow> exc \<Rightarrow> ('w rt, unit) op" where
  "retry_or_dead_letter a r envelope0 exc =
     bind_op (lift_res (int_attempts envelope0)) (\<lambda>n.
       let attempts = n + 1; envelope = dset (u ''attempts'') (PInt attempts) envelope0
       in if attempts < a_max_attempts a
          then catch_exc
                 (bind_op (lift_res (encode envelope)) (\<lambda>body.
                  bind_op (lift_res (app_retry_delay a attempts)) (\<lambda>delay. release a r body delay)))
                 (\<lambda>e. leave_republish_unsettled a r)
          else if a_dead_letter a
          then dead_letter a r envelope
                 (if exc_class_of exc = UnknownUrnError then u ''unknown_urn'' else u ''failed'') (Some exc)
          else then_op (log (DroppedExhausted attempts)) (ack_settled a r))"

definition UNSUPPORTED_SCHEMA_ROUTE_PREFIX :: pystr where
  "UNSUPPORTED_SCHEMA_ROUTE_PREFIX = u ''babelqueue:unsupported-schema-version:''"

definition is_gated :: "received_message \<Rightarrow> bool" where
  "is_gated r = starts_with UNSUPPORTED_SCHEMA_ROUTE_PREFIX (route_str (rm_route r))"

text \<open>\<open>always\<close> is only used with the reason \<open>poison\<close>.\<close>

definition settle_version_gated :: "'w app \<Rightarrow> received_message \<Rightarrow> bool \<Rightarrow> pystr \<Rightarrow> ('w rt, unit) op" where
  "settle_version_gated a r always reason =
     (if always \<or> a_dead_letter a \<or> a_on_unknown_urn a = DEAD_LETTER
      then bind_op (lift_res (dead_letter_target a r)) (\<lambda>target.
             write_dead_letter a r target (rm_body r) [] reason)
      else bind_op (settle_native a r (u ''unsupported schema version'')
                      (u ''the message declares a schema version this consumer does not support''))
             (\<lambda>native. if native then ret ()
                       else then_op (log DroppedUndeliverable) (ack_settled a r)))"

definition settle_transport_poison ::
  "'w app \<Rightarrow> received_message \<Rightarrow> pystr option \<Rightarrow> int \<Rightarrow> ('w rt, unit) op" where
  "settle_transport_poison a r cause attempts =
     bind_op (\<lambda>s. (Inr (a_now_ms a (rt_shared s)), s)) (\<lambda>now.
       let block = dead_letter_block (u ''poison'') (rm_queue r) attempts
                     (Some (u ''Undecodable BabelQueue body'' @
                        (case cause of None \<Rightarrow> [] | Some c \<Rightarrow> if c = [] then [] else u '': '' @ c)))
                     (Some (u ''BabelQueueError'')) SOURCE_LANG now
       in bind_op (lift_res (dead_letter_target a r)) (\<lambda>target.
          bind_op (lift_res (build_poison_record (rm_body r) block)) (\<lambda>record.
            write_dead_letter a r target record [] (u ''poison''))))"

definition retry_tiers_unavailable :: "'w app \<Rightarrow> bool" where
  "retry_tiers_unavailable a \<longleftrightarrow>
     t_retry_tiers_ms (a_transport a) = Some [] \<and> t_redeliver (a_transport a) \<noteq> None"

definition route_poison :: "'w app \<Rightarrow> received_message \<Rightarrow> ('w rt, unit) op" where
  "route_poison a r =
     (if a_on_unknown_urn a = DELETE then ack_settled a r
      else if a_dead_letter a \<or> a_on_unknown_urn a = DEAD_LETTER
      then settle_version_gated a r True (u ''poison'')
      else if retry_tiers_unavailable a then then_op (log DroppedTierlessPoison) (ack_settled a r)
      else retry_or_dead_letter a r [(u ''attempts'', PInt (route_attempts (rm_route r)))]
             (Exc UnknownUrnError (u ''The record is poison: it carries no decodable envelope.'')))"

text \<open>The attempts a poison body has had: the transport's count or the body's, whichever is larger.\<close>

definition poison_attempts :: "received_message \<Rightarrow> int res" where
  "poison_attempts r =
     bind_res (parse_envelope (rm_body r)) (\<lambda>d.
       let body_attempts = (case as_int (dget d (u ''attempts'')) of None \<Rightarrow> 0 | Some n \<Rightarrow> n)
       in Inr (max (max (rm_native_attempts r) body_attempts) 0))"

definition route_body_poison :: "'w app \<Rightarrow> received_message \<Rightarrow> pystr \<Rightarrow> ('w rt, unit) op" where
  "route_body_poison a r cause =
     (if a_on_unknown_urn a = DELETE then then_op (log (DroppedPoison cause)) (ack_settled a r)
      else bind_op (lift_res (poison_attempts r)) (\<lambda>attempts.
        if a_dead_letter a \<or> a_on_unknown_urn a = DEAD_LETTER
        then settle_transport_poison a r (Some cause) attempts
        else bind_op (settle_native a r (u ''poison'')
                        (u ''the body does not decode into a valid envelope: '' @ cause)) (\<lambda>native.
               if native then ret ()
               else retry_or_dead_letter a r [(u ''attempts'', PInt attempts)]
                      (Exc UnknownUrnError (u ''The message is poison: '' @ cause)))))"

definition route_unknown :: "'w app \<Rightarrow> pystr \<Rightarrow> received_message \<Rightarrow> pyval dict \<Rightarrow> ('w rt, unit) op" where
  "route_unknown a key r envelope =
     (if is_poison_route (rm_route r) then route_poison a r
      else if route_str (rm_route r) = NON_NUMERIC_ATTEMPTS_ROUTE then settle_transport_poison a r None 0
      else if a_on_unknown_urn a = DELETE then ack_settled a r
      else if is_gated r then settle_version_gated a r False []
      else if a_on_unknown_urn a = RELEASE \<and> key \<noteq> []
      then catch_exc (release a r (rm_body r) (a_unknown_delay a)) (\<lambda>e. leave_republish_unsettled a r)
      else if a_on_unknown_urn a = DEAD_LETTER then dead_letter a r envelope (u ''unknown_urn'') None
      else raise_op (Exc UnknownUrnError
             (u ''No handler mapped for URN ['' @ (if key = [] then u ''(empty)'' else key) @ u ''].'')))"

section \<open>Set-up\<close>

definition RETRY_JITTERS :: "pystr list" where
  "RETRY_JITTERS = [u ''none'', u ''full'']"

text \<open>
  \<open>__init__\<close>: the transport given or the one the URL names (\<open>connect\<close> stands for the transports'
  constructors), the validation of \<open>retry_jitter\<close>, and a runtime with no handler.
\<close>

definition init_app ::
  "(transport_kind \<Rightarrow> 'w shared transport) \<Rightarrow> pystr \<Rightarrow> 'w shared transport option \<Rightarrow> pystr \<Rightarrow> pystr \<Rightarrow> int \<Rightarrow> bool
     \<Rightarrow> pystr option \<Rightarrow> pystr option \<Rightarrow> rat \<Rightarrow> rat \<Rightarrow> rat \<Rightarrow> pystr \<Rightarrow> rat \<Rightarrow> rat
     \<Rightarrow> (dead_letter_event \<Rightarrow> ('w shared, unit) op) option \<Rightarrow> (rat \<Rightarrow> rat \<Rightarrow> rat) \<Rightarrow> ('w shared \<Rightarrow> int)
     \<Rightarrow> 'w app res" where
  "init_app connect broker_url transport queue strategy max_attempts dead_letter_enabled dlq suffix
     backoff multiplier backoff_max jitter unknown_delay shutdown_timeout observer uniform now_ms =
     bind_res (case transport of
                 Some t \<Rightarrow> Inr t
               | None \<Rightarrow> bind_res (make_transport broker_url) (\<lambda>kind. Inr (connect kind))) (\<lambda>t.
       if jitter \<notin> set RETRY_JITTERS
       then Inl (Exc ValueError (u ''retry_jitter must be one of ('none', 'full'), got '' @ quoted jitter))
       else Inr \<lparr>a_transport = t, a_handlers = [], a_queue = queue, a_on_unknown_urn = strategy,
                 a_max_attempts = max_attempts, a_dead_letter = dead_letter_enabled, a_dead_letter_queue = dlq,
                 a_dead_letter_suffix = suffix, a_retry_backoff = backoff, a_retry_multiplier = multiplier,
                 a_retry_max = backoff_max, a_retry_jitter = jitter, a_uniform = uniform,
                 a_unknown_delay = unknown_delay, a_shutdown_timeout = shutdown_timeout, a_observer = observer,
                 a_now_ms = now_ms\<rparr>)"

text \<open>The state a new \<open>BabelQueue\<close> starts from, in a world \<open>w\<close>.\<close>

definition init_rt :: "'w \<Rightarrow> 'w rt" where
  "init_rt w =
     \<lparr>rt_phase = Idle, rt_last_phase = Idle, rt_calls = [], rt_logs = [],
      rt_shared = \<lparr>sh_stop = False, sh_signalled = False, sh_deadline_hit = False, sh_deadline_timer = False,
                   sh_env = w\<rparr>\<rparr>"

definition register :: "pystr \<Rightarrow> 'w handler \<Rightarrow> 'w app \<Rightarrow> 'w app" where
  "register key h a = a\<lparr>a_handlers := dset key h (a_handlers a)\<rparr>"

text \<open>
  \<open>_handler_wants_envelope\<close>: the kinds of the parameters of a handler's signature; \<open>None\<close> when it has
  no signature.
\<close>

datatype param_kind = PositionalOnly | PositionalOrKeyword | VarPositional | KeywordOnly | VarKeyword

definition handler_wants_envelope :: "param_kind list option \<Rightarrow> bool" where
  "handler_wants_envelope params =
     (case params of
        None \<Rightarrow> False
      | Some ps \<Rightarrow>
          VarPositional \<in> set ps \<or>
          3 \<le> length (filter (\<lambda>p. p = PositionalOnly \<or> p = PositionalOrKeyword) ps))"

text \<open>When the start-up warning of \<open>consume\<close> is logged.\<close>

definition retries_cannot_redeliver :: "'w app \<Rightarrow> bool" where
  "retries_cannot_redeliver a \<longleftrightarrow> retry_tiers_unavailable a \<and> 1 < a_max_attempts a"

section \<open>Properties\<close>

lemma float_pow_Inr: "float_pow m k = Inr p \<Longrightarrow> p = m ^ k"
  by (simp add: float_pow_def split: if_splits)



end
