(* ===== verification/Headers.thy ===== *)
theory Headers
  imports Effects PyValue Utf8
begin

text \<open>
  \<open>headers.py\<close> and \<open>replay.py\<close>: the out-of-band headers of a message. What a transport surfaces and
  accepts (\<open>out_of_band_headers\<close>), how headers are combined (\<open>merge_headers\<close>), and the two context
  variables a dispatch sets for the span of one handler.
\<close>

section \<open>The context of a dispatch\<close>

definition HEADER_REPLAY_BYPASS :: pystr where
  "HEADER_REPLAY_BYPASS = u ''bq-replay-bypass''"

record 'w ctx =
  cx_headers :: "pystr dict"
  cx_replay :: bool
  cx_world :: 'w

definition headers_from_context :: "'w ctx \<Rightarrow> pystr dict" where
  "headers_from_context c = cx_headers c"

definition is_replay :: "'w ctx \<Rightarrow> bool" where
  "is_replay c = cx_replay c"

text \<open>A variable is set for the span of \<open>m\<close> and reset however \<open>m\<close> ends.\<close>

definition headers_scope :: "pystr dict \<Rightarrow> ('w ctx, 'a) op \<Rightarrow> ('w ctx, 'a) op" where
  "headers_scope hs m =
     (\<lambda>c. finally_op m (\<lambda>c'. c'\<lparr>cx_headers := cx_headers c\<rparr>) (c\<lparr>cx_headers := hs\<rparr>))"

definition replay_scope :: "bool \<Rightarrow> ('w ctx, 'a) op \<Rightarrow> ('w ctx, 'a) op" where
  "replay_scope active m =
     (\<lambda>c. finally_op m (\<lambda>c'. c'\<lparr>cx_replay := cx_replay c\<rparr>) (c\<lparr>cx_replay := active\<rparr>))"

definition bypass_external_effects :: "('w ctx, 'a) op \<Rightarrow> ('w ctx, 'a option) op" where
  "bypass_external_effects f =
     (\<lambda>c. if is_replay c then (Inr None, c) else bind_op f (\<lambda>x. ret (Some x)) c)"

section \<open>Merging\<close>

text \<open>A source is a mapping (or nothing) whose values may be missing.\<close>

fun merge_into :: "pystr dict \<Rightarrow> (pystr \<times> pystr option) list \<Rightarrow> pystr dict" where
  "merge_into out [] = out"
| "merge_into out ((k, v) # items) =
     (case v of
        None \<Rightarrow> merge_into out items
      | Some t \<Rightarrow> if k = [] \<or> t = [] then merge_into out items else merge_into (dset k t out) items)"

definition merge_headers :: "(pystr \<times> pystr option) list option list \<Rightarrow> pystr dict" where
  "merge_headers sources =
     fold (\<lambda>source out. case source of None \<Rightarrow> out | Some items \<Rightarrow> merge_into out items) sources []"

section \<open>Surfacing\<close>

definition CONTRACT_HEADER_KEYS :: "pystr list" where
  "CONTRACT_HEADER_KEYS =
     map u [''bq-job'', ''bq-trace-id'', ''bq-message-id'', ''bq-schema-version'', ''bq-source-lang'',
       ''bq-attempts'', ''bq-created-at'', ''bq-delay'', ''bq-original-topic'',
       ''bq_schema_version'', ''bq_source_lang'', ''bq_attempts'', ''bq_app_id'']"

definition TRACE_CONTEXT_HEADER_KEYS :: "pystr list" where
  "TRACE_CONTEXT_HEADER_KEYS = map u [''traceparent'', ''tracestate'']"

text \<open>A key or value as the client library hands it over: nothing, bytes, or a value \<open>str\<close> prints.\<close>

datatype raw_text = RawNone | RawBytes bytes | RawStr pystr

fun header_text :: "raw_text \<Rightarrow> pystr option" where
  "header_text RawNone = None"
| "header_text (RawBytes b) = Some (utf8_decode_replace b)"
| "header_text (RawStr s) = Some s"

text \<open>An item that does not unpack into two, and a raw value that cannot be iterated.\<close>

datatype raw_item = RawPair raw_text raw_text | RawOther

datatype raw_headers = RawItems "raw_item list" | RawNotIterable

fun surface :: "pystr dict \<Rightarrow> raw_item list \<Rightarrow> pystr dict" where
  "surface out [] = out"
| "surface out (RawOther # items) = surface out items"
| "surface out (RawPair key val # items) =
     (case (header_text key, header_text val) of
        (Some name, Some t) \<Rightarrow>
          if name = [] \<or> t = [] \<or> name \<in> set CONTRACT_HEADER_KEYS \<or> dhas name out then surface out items
          else surface (dset name t out) items
      | _ \<Rightarrow> surface out items)"

definition out_of_band_headers :: "raw_headers \<Rightarrow> pystr dict" where
  "out_of_band_headers raw = (case raw of RawItems items \<Rightarrow> surface [] items | RawNotIterable \<Rightarrow> [])"

section \<open>Lemmas\<close>

text \<open>The value an item gives to a name, when it is one that is surfaced.\<close>

fun usable :: "raw_item \<Rightarrow> (pystr \<times> pystr) option" where
  "usable RawOther = None"
| "usable (RawPair key val) =
     (case (header_text key, header_text val) of
        (Some name, Some t) \<Rightarrow>
          if name = [] \<or> t = [] \<or> name \<in> set CONTRACT_HEADER_KEYS then None else Some (name, t)
      | _ \<Rightarrow> None)"

lemma surface_cases:
  "surface out (item # items) =
     (case usable item of
        None \<Rightarrow> surface out items
      | Some (name, t) \<Rightarrow> if dhas name out then surface out items else surface (dset name t out) items)"
  by (cases item) (auto split: option.splits)

lemma surface_get:
  "dget (surface out items) k =
     (case dget out k of
        Some v \<Rightarrow> Some v
      | None \<Rightarrow> map_of (List.map_filter usable items) k)"
proof (induction items arbitrary: out)
  case Nil
  show ?case by (simp add: List.map_filter_def split: option.split)
next
  case (Cons item items)
  show ?case
  proof (cases "usable item")
    case None
    with Cons.IH show ?thesis by (simp add: surface_cases split: option.split)
  next
    case (Some p)
    obtain name t where p: "p = (name, t)" by force
    show ?thesis
    proof (cases "dhas name out")
      case True
      with Some p Cons.IH show ?thesis
        by (auto simp: surface_cases dhas_def split: option.splits)
    next
      case False
      with Some p Cons.IH [of "dset name t out"] show ?thesis
        by (auto simp: surface_cases dhas_def split: option.splits)
    qed
  qed
qed

lemma surface_wf: "wf_keys out \<Longrightarrow> wf_keys (surface out items)"
proof (induction items arbitrary: out)
  case (Cons item items)
  then show ?case
    by (cases "usable item") (auto simp: surface_cases)
qed simp

lemma usable_ok:
  "usable item = Some (name, t) \<Longrightarrow> name \<noteq> [] \<and> t \<noteq> [] \<and> name \<notin> set CONTRACT_HEADER_KEYS"
  by (cases item) (auto split: option.splits if_splits)

lemma surface_ok:
  assumes "(name, t) \<in> set (surface [] items)"
  shows "name \<noteq> [] \<and> t \<noteq> [] \<and> name \<notin> set CONTRACT_HEADER_KEYS"
proof -
  have "dget (surface [] items) name = Some t"
    using assms surface_wf [of "[]" items] by (intro map_of_is_SomeI) simp_all
  then have "(name, t) \<in> set (List.map_filter usable items)"
    by (simp add: surface_get) (rule map_of_SomeD)
  then obtain item where "usable item = Some (name, t)"
    by (auto simp: List.map_filter_def)
  then show ?thesis by (rule usable_ok)
qed

text \<open>Headers that were surfaced once, handed back as text.\<close>

definition as_raw :: "pystr dict \<Rightarrow> raw_headers" where
  "as_raw hs = RawItems (map (\<lambda>p. RawPair (RawStr (fst p)) (RawStr (snd p))) hs)"

lemma surface_again:
  assumes "\<forall>p \<in> set hs. fst p \<noteq> [] \<and> snd p \<noteq> [] \<and> fst p \<notin> set CONTRACT_HEADER_KEYS" "wf_keys (out @ hs)"
  shows "surface out (map (\<lambda>p. RawPair (RawStr (fst p)) (RawStr (snd p))) hs) = out @ hs"
  using assms
proof (induction hs arbitrary: out)
  case (Cons p hs)
  then have "\<not> dhas (fst p) out" by (auto simp: dhas_keys)
  with Cons.prems Cons.IH [of "out @ [p]"] show ?case
    by (simp add: dset_new dhas_keys)
qed simp

text \<open>The usable pairs of a source: merging is updating with them, source by source.\<close>

fun usable_pairs :: "(pystr \<times> pystr option) list \<Rightarrow> (pystr \<times> pystr) list" where
  "usable_pairs [] = []"
| "usable_pairs ((k, v) # items) =
     (case v of
        None \<Rightarrow> usable_pairs items
      | Some t \<Rightarrow> if k = [] \<or> t = [] then usable_pairs items else (k, t) # usable_pairs items)"

lemma merge_into_update: "merge_into out items = dupdate out (usable_pairs items)"
  by (induction out items rule: merge_into.induct) (auto simp: dupdate_def split: option.split)

lemma dget_dupdate_rev: "dget (dupdate d e) k = (case map_of (rev e) k of None \<Rightarrow> dget d k | Some v \<Rightarrow> Some v)"
  by (induction e arbitrary: d) (auto simp: dupdate_def map_add_def split: option.split)

lemma set_usable_pairs: "(k, t) \<in> set (usable_pairs items) \<Longrightarrow> k \<noteq> [] \<and> t \<noteq> []"
  by (induction items rule: usable_pairs.induct) (auto split: option.splits if_splits)

lemma merge_headers_snoc:
  "merge_headers (sources @ [Some items]) = dupdate (merge_headers sources) (usable_pairs items)"
  by (simp add: merge_headers_def merge_into_update)

lemma merge_headers_ok: "(k, t) \<in> set (merge_headers sources) \<Longrightarrow> k \<noteq> [] \<and> t \<noteq> []"
proof (induction sources rule: rev_induct)
  case (snoc source sources)
  show ?case
  proof (cases source)
    case None
    with snoc show ?thesis by (simp add: merge_headers_def)
  next
    case (Some items)
    with snoc show ?thesis
      by (auto simp: merge_headers_snoc dest!: set_dupdate dest: set_usable_pairs)
  qed
qed (simp add: merge_headers_def)

section \<open>Properties\<close>

text \<open>
  Headers passed last win. For every key, the merge has the last usable value of the last source,
  or else what the earlier sources merge to (so a caller's headers never replace a transport's own
  projection), and neither a blank key nor a blank value.
\<close>

theorem merge_headers_last_wins:
  "dget (merge_headers (sources @ [Some items])) k =
     (case map_of (rev (usable_pairs items)) k of Some v \<Rightarrow> Some v | None \<Rightarrow> dget (merge_headers sources) k)
   \<and> (\<forall>(k, t) \<in> set (merge_headers sources). k \<noteq> [] \<and> t \<noteq> [])"
  using merge_headers_ok by (fastforce simp: merge_headers_snoc dget_dupdate_rev split: option.split)

theorem merge_headers_last_wins_witness:
  "dget (merge_headers ([Some [(u ''bq-job'', Some (u ''fake'')), (u ''x'', Some (u ''1''))]]
       @ [Some [(u ''bq-job'', Some (u ''urn:a''))]])) (u ''bq-job'') = Some (u ''urn:a'')"
  using merge_headers_last_wins [of "[Some [(u ''bq-job'', Some (u ''fake'')), (u ''x'', Some (u ''1''))]]"
      "[(u ''bq-job'', Some (u ''urn:a''))]" "u ''bq-job''"]
  by simp

text \<open>
  C27: what a transport surfaces is out-of-band metadata only. No contract key, blank key or blank
  value appears, a repeated key keeps its first usable value, and headers that were surfaced pass
  unchanged when they are surfaced or published again.
\<close>

theorem out_of_band_headers_clean:
  "(\<forall>k v. (k, v) \<in> set (out_of_band_headers (RawItems items)) \<longrightarrow>
        k \<noteq> [] \<and> v \<noteq> [] \<and> k \<notin> set CONTRACT_HEADER_KEYS)
   \<and> wf_keys (out_of_band_headers (RawItems items))
   \<and> (\<forall>k. dget (out_of_band_headers (RawItems items)) k = map_of (List.map_filter usable items) k)
   \<and> out_of_band_headers (as_raw (out_of_band_headers (RawItems items))) = out_of_band_headers (RawItems items)"
proof -
  let ?hs = "surface [] items"
  have ok: "\<forall>k v. (k, v) \<in> set ?hs \<longrightarrow> k \<noteq> [] \<and> v \<noteq> [] \<and> k \<notin> set CONTRACT_HEADER_KEYS"
    using surface_ok by blast
  moreover have wf: "wf_keys ?hs"
    by (intro surface_wf) simp
  moreover have "surface [] (map (\<lambda>p. RawPair (RawStr (fst p)) (RawStr (snd p))) ?hs) = ?hs"
    using ok wf surface_again [of ?hs "[]"] by (metis append_Nil prod.collapse)
  ultimately show ?thesis
    by (simp add: out_of_band_headers_def as_raw_def surface_get)
qed

theorem out_of_band_headers_clean_witness:
  "out_of_band_headers (RawItems [RawPair (RawStr (u ''bq-job'')) (RawStr (u ''x'')),
       RawPair (RawBytes [97]) (RawBytes [0xE2, 0x82]), RawPair (RawStr (u ''a'')) (RawStr (u ''y''))])
     = [(u ''a'', [0xFFFD])]
   \<and> u ''bq-job'' \<notin> fst ` set (out_of_band_headers (RawItems [RawPair (RawStr (u ''bq-job'')) (RawStr (u ''x''))]))"
proof -
  have "out_of_band_headers (RawItems [RawPair (RawStr (u ''bq-job'')) (RawStr (u ''x'')),
       RawPair (RawBytes [97]) (RawBytes [0xE2, 0x82]), RawPair (RawStr (u ''a'')) (RawStr (u ''y''))])
     = [(u ''a'', [0xFFFD])]"
    by code_simp
  moreover have "u ''bq-job'' \<in> set CONTRACT_HEADER_KEYS"
    by (simp add: CONTRACT_HEADER_KEYS_def)
  ultimately show ?thesis
    using out_of_band_headers_clean [of "[RawPair (RawStr (u ''bq-job'')) (RawStr (u ''x''))]"]
    by (auto simp del: u_eq_iff)
qed

end
