(* ===== verification/Dispatch.thy ===== *)
theory Dispatch
  imports Runtime Headers
begin

text \<open>
  \<open>BabelQueue.dispatch\<close>, \<open>consume\<close>, the signal handler and the publish methods of \<open>app.py\<close>, over the
  settlement layer of \<open>Runtime\<close>.
\<close>

section \<open>Dispatching one delivery\<close>

definition set_phase :: "phase \<Rightarrow> ('w rt, unit) op" where
  "set_phase p = modify (\<lambda>s. s\<lparr>rt_phase := p\<rparr>)"

text \<open>
  \<open>dict(envelope.get(k) or {})\<close>. A truthy value that is no dictionary raises; an iterable of pairs,
  which \<open>dict\<close> would take, cannot pass the poison verdict.
\<close>

definition dict_member :: "pyval dict \<Rightarrow> pystr \<Rightarrow> pyval dict res" where
  "dict_member envelope k =
     (let v = get_or_none envelope k
      in if \<not> truthy v then Inr []
         else case v of
                PDict d \<Rightarrow> Inr d
              | _ \<Rightarrow> Inl (Exc TypeError (quoted (py_type_name v) @ u '' object is not iterable'')))"

definition replay_active :: "received_message \<Rightarrow> bool" where
  "replay_active r = (case dget (rm_headers r) HEADER_REPLAY_BYPASS of None \<Rightarrow> False | Some v \<Rightarrow> v \<noteq> [])"

definition invoke :: "pystr \<Rightarrow> 'w handler \<Rightarrow> received_message \<Rightarrow> pyval dict \<Rightarrow> ('w rt, unit) op" where
  "invoke key h r envelope =
     bind_op (lift_res (dict_member envelope (u ''data''))) (\<lambda>data.
     bind_op (lift_res (dict_member envelope (u ''meta''))) (\<lambda>meta.
     then_op
       (call_out (Handler key)
          (run_handler h (rm_headers r) (replay_active r) data meta
             (if wants_envelope h then Some envelope else None)))
       (set_phase Settling)))"

text \<open>The verdict on the body, before anything is settled.\<close>

definition delivery_poison_cause :: "'w app \<Rightarrow> received_message \<Rightarrow> pystr option" where
  "delivery_poison_cause a r =
     (if is_gated r \<or> t_classifies_poison (a_transport a) then None
      else poison_cause (rm_body r) (route_str (rm_route r) = []))"

definition delivery_envelope :: "'w app \<Rightarrow> received_message \<Rightarrow> pyval dict res" where
  "delivery_envelope a r =
     (if is_gated r \<or> delivery_poison_cause a r \<noteq> None then Inr []
      else fst (decode_lenient (rm_body r)))"

text \<open>\<open>str(envelope.get("job") or envelope.get("urn") or "")\<close>, or the routing override.\<close>

definition delivery_urn :: "received_message \<Rightarrow> pyval dict \<Rightarrow> pystr" where
  "delivery_urn r envelope =
     (if route_str (rm_route r) \<noteq> [] \<and> envelope \<noteq> [] then route_str (rm_route r)
      else let job = get_or_none envelope (u ''job''); alias = get_or_none envelope (u ''urn'')
           in if truthy job then py_str job else if truthy alias then py_str alias else [])"

definition delivery_handler :: "'w app \<Rightarrow> received_message \<Rightarrow> pystr \<Rightarrow> 'w handler option" where
  "delivery_handler a r key =
     (if key \<noteq> [] \<and> delivery_poison_cause a r = None then dget (a_handlers a) key else None)"

text \<open>The \<open>try\<close> block: \<open>True\<close> when the handler ran, \<open>False\<close> when it left by \<open>return\<close>.\<close>

definition dispatch_try :: "'w app \<Rightarrow> received_message \<Rightarrow> pyval dict \<Rightarrow> ('w rt, bool) op" where
  "dispatch_try a r envelope =
     (let key = delivery_urn r envelope
      in case delivery_poison_cause a r of
           Some cause \<Rightarrow> then_op (set_phase Settling) (then_op (route_body_poison a r cause) (ret False))
         | None \<Rightarrow>
             (case delivery_handler a r key of
                None \<Rightarrow> then_op (set_phase Settling) (then_op (route_unknown a key r envelope) (ret False))
              | Some h \<Rightarrow>
                  then_op (set_phase Handling)
                    (then_op (invoke key h r envelope) (then_op (set_phase Settling) (ret True)))))"

definition dispatch_failed :: "'w app \<Rightarrow> received_message \<Rightarrow> pyval dict \<Rightarrow> exc \<Rightarrow> ('w rt, unit) op" where
  "dispatch_failed a r envelope exc =
     then_op (set_phase Settling)
       (if delivery_poison_cause a r \<noteq> None \<or> is_gated r
        then then_op (log GatedWriteFailed)
               (if is_gated r then abandon_unsettled a r else rewind_unsettled a r)
        else retry_or_dead_letter a r envelope exc)"

text \<open>\<open>try ... except ... else ... finally\<close>: the \<open>else\<close> acknowledges outside the \<open>try\<close>.\<close>

definition dispatch_core :: "'w app \<Rightarrow> received_message \<Rightarrow> pyval dict \<Rightarrow> ('w rt, unit) op" where
  "dispatch_core a r envelope =
     (\<lambda>s. case dispatch_try a r envelope s of
            (Inl e, s') \<Rightarrow> if is_Exception e then dispatch_failed a r envelope e s' else (Inl e, s')
          | (Inr True, s') \<Rightarrow> ack_settled a r s'
          | (Inr False, s') \<Rightarrow> (Inr (), s'))"

definition leave_phase :: "'w rt \<Rightarrow> 'w rt" where
  "leave_phase s = s\<lparr>rt_last_phase := rt_phase s, rt_phase := Idle\<rparr>"

definition dispatch :: "'w app \<Rightarrow> received_message \<Rightarrow> ('w rt, unit) op" where
  "dispatch a r =
     bind_op (lift_res (delivery_envelope a r)) (\<lambda>envelope.
       finally_op (dispatch_core a r envelope) leave_phase)"

section \<open>Signals\<close>

text \<open>
  \<open>_on_shutdown_signal\<close>: what a signal does at a phase to the shared flags, and whether it raises in
  the interrupted code.
\<close>

definition on_shutdown_signal :: "'w app \<Rightarrow> phase \<Rightarrow> ('w shared, unit) op" where
  "on_shutdown_signal a ph =
     (\<lambda>s. if sh_deadline_hit s
          then (if ph = Handling then (Inl (Exc ShutdownDeadline []), s) else (Inr (), s))
          else if sh_stop s \<and> sh_signalled s
          then (if ph \<noteq> Settling then (Inl (Exc KeyboardInterrupt []), s) else (Inr (), s))
          else let s' = s\<lparr>sh_signalled := True, sh_stop := True\<rparr>
               in if ph \<noteq> Handling then (Inr (), s')
                  else if a_shutdown_timeout a \<le> 0 then (Inl (Exc ShutdownDeadline []), s')
                  else (Inr (), s'\<lparr>sh_deadline_timer := True\<rparr>))"

text \<open>The timer's \<open>expire\<close>: under the lock, only while it is still the current timer.\<close>

definition deadline_expires :: "'w app \<Rightarrow> phase \<Rightarrow> ('w shared, unit) op" where
  "deadline_expires a ph =
     (\<lambda>s. if \<not> sh_deadline_timer s then (Inr (), s)
          else on_shutdown_signal a ph (s\<lparr>sh_deadline_hit := True\<rparr>))"

section \<open>The consume loop\<close>

text \<open>
  How the loop ends: how many messages were processed, the message that was in flight and the
  exception that left the loop, if any.
\<close>

record exit =
  ex_processed :: nat
  ex_inflight :: "received_message option"
  ex_exc :: "exc option"

definition exit_of :: "nat \<Rightarrow> received_message option \<Rightarrow> unit res \<Rightarrow> exit" where
  "exit_of processed inflight r =
     \<lparr>ex_processed = processed, ex_inflight = inflight, ex_exc = (case r of Inl e \<Rightarrow> Some e | Inr x \<Rightarrow> None)\<rparr>"

text \<open>One iteration either ends the loop or goes on with a new count.\<close>

definition consume_step ::
  "'w app \<Rightarrow> pystr \<Rightarrow> bool \<Rightarrow> nat \<Rightarrow> 'w rt \<Rightarrow> (exit + nat) \<times> 'w rt" where
  "consume_step a target bounded processed s =
     (case outside (t_pop (a_transport a) target) s of
        (Inl e, s1) \<Rightarrow> (Inl (exit_of processed None (Inl e)), s1)
      | (Inr None, s1) \<Rightarrow> if bounded then (Inl (exit_of processed None (Inr ())), s1) else (Inr processed, s1)
      | (Inr (Some r), s1) \<Rightarrow>
          let s2 = s1\<lparr>rt_last_phase := Idle\<rparr>
          in if sh_stop (rt_shared s2)
             then (case release_unprocessed a r s2 of (res, s3) \<Rightarrow> (Inl (exit_of processed None res), s3))
             else (case dispatch a r s2 of
                     (Inr x, s3) \<Rightarrow> (Inr (Suc processed), s3)
                   | (Inl e, s3) \<Rightarrow>
                       if exc_class_of e = ShutdownDeadline
                       then (case release_unprocessed a r s3 of
                               (res, s4) \<Rightarrow> (Inl (exit_of processed None res), s4))
                       else (Inl (exit_of processed (Some r) (Inl e)), s3)))"

text \<open>
  The loop with a bound on its iterations; \<open>None\<close> when the bound is reached (an unbounded consume
  on an idle queue polls forever).
\<close>

fun consume_loop ::
  "nat \<Rightarrow> 'w app \<Rightarrow> pystr \<Rightarrow> nat option \<Rightarrow> nat \<Rightarrow> 'w rt \<Rightarrow> (exit \<times> 'w rt) option" where
  "consume_loop 0 a target max_messages processed s = None"
| "consume_loop (Suc fuel) a target max_messages processed s =
     (if sh_stop (rt_shared s) \<or> (case max_messages of None \<Rightarrow> False | Some m \<Rightarrow> m \<le> processed)
      then Some (exit_of processed None (Inr ()), s)
      else case consume_step a target (max_messages \<noteq> None) processed s of
             (Inl ex, s') \<Rightarrow> Some (ex, s')
           | (Inr processed', s') \<Rightarrow> consume_loop fuel a target max_messages processed' s')"

definition after_loop :: "'w app \<Rightarrow> exit \<Rightarrow> ('w rt, unit) op" where
  "after_loop a ex =
     (case ex_exc ex of
        None \<Rightarrow> ret ()
      | Some e \<Rightarrow>
          if exc_class_of e = KeyboardInterrupt
          then (\<lambda>s. case ex_inflight ex of
                      Some r \<Rightarrow> if rt_last_phase s \<noteq> Settling then release_unprocessed a r s else (Inr (), s)
                    | None \<Rightarrow> (Inr (), s))
          else raise_op e)"

text \<open>The \<open>finally\<close> of \<open>consume\<close>: cancel the deadline, clear the stop flag, close after a signal.\<close>

definition consume_finally :: "'w app \<Rightarrow> ('w rt, unit) op" where
  "consume_finally a =
     (\<lambda>s. let s1 = s\<lparr>rt_shared := (rt_shared s)\<lparr>sh_deadline_timer := False, sh_stop := False\<rparr>\<rparr>
          in if sh_signalled (rt_shared s1) then outside (t_close (a_transport a)) s1 else (Inr (), s1))"

definition consume ::
  "nat \<Rightarrow> 'w app \<Rightarrow> pystr option \<Rightarrow> nat option \<Rightarrow> 'w rt \<Rightarrow> (nat res \<times> 'w rt) option" where
  "consume fuel a queue max_messages s =
     (let target = (case queue of None \<Rightarrow> a_queue a | Some q \<Rightarrow> if q = [] then a_queue a else q);
          s0 = s\<lparr>rt_shared := (rt_shared s)\<lparr>sh_signalled := False, sh_deadline_hit := False\<rparr>\<rparr>
      in case consume_loop fuel a target max_messages 0 s0 of
           None \<Rightarrow> None
         | Some (ex, s1) \<Rightarrow>
             (case after_loop a ex s1 of
                (res, s2) \<Rightarrow>
                  (case consume_finally a s2 of
                     (Inl e, s3) \<Rightarrow> Some (Inl e, s3)
                   | (Inr x, s3) \<Rightarrow>
                       Some (case res of Inl e \<Rightarrow> Inl e | Inr y \<Rightarrow> Inr (ex_processed ex), s3))))"

definition stop_consume :: "'w shared \<Rightarrow> 'w shared" where
  "stop_consume s = s\<lparr>sh_stop := True\<rparr>"

section \<open>Publishing\<close>

text \<open>\<open>PublishResult\<close>: the envelope handed to the transport and the exception that stopped it.\<close>

record publish_result =
  pr_envelope :: "pyval dict option"
  pr_error :: "exc option"

text \<open>
  Only an \<open>Exception\<close> is returned in the result; a \<open>BaseException\<close> of the transport is raised. The
  fresh identifiers and the clock are arguments.
\<close>

definition publish_envelope ::
  "'w app \<Rightarrow> pystr \<Rightarrow> pyval dict \<Rightarrow> pystr option \<Rightarrow> pystr option \<Rightarrow> headers \<Rightarrow> pystr \<Rightarrow> pystr \<Rightarrow> int
     \<Rightarrow> ('w shared, publish_result) op" where
  "publish_envelope a urn0 data queue trace_id headers fresh_trace fresh_id now_ms =
     (\<lambda>s. let target = (case queue of None \<Rightarrow> a_queue a | Some q \<Rightarrow> if q = [] then a_queue a else q)
          in case bind_res (make_envelope urn0 data target trace_id PNone fresh_trace fresh_id now_ms)
                    (\<lambda>envelope. bind_res (encode envelope) (\<lambda>body. Inr (envelope, body))) of
               Inl e \<Rightarrow> (Inr \<lparr>pr_envelope = None, pr_error = Some e\<rparr>, s)
             | Inr (envelope, body) \<Rightarrow>
                 (case (case t_publish_with_headers (a_transport a) of
                          Some publish \<Rightarrow>
                            if headers \<noteq> [] then publish target body headers s
                            else t_publish (a_transport a) target body s
                        | None \<Rightarrow> t_publish (a_transport a) target body s) of
                    (Inl e, s') \<Rightarrow>
                      if is_Exception e then (Inr \<lparr>pr_envelope = Some envelope, pr_error = Some e\<rparr>, s')
                      else (Inl e, s')
                  | (Inr x, s') \<Rightarrow> (Inr \<lparr>pr_envelope = Some envelope, pr_error = None\<rparr>, s')))"

text \<open>\<open>_published_id\<close>: the error again, or \<open>envelope["meta"]["id"]\<close>.\<close>

definition published_id :: "publish_result \<Rightarrow> pyval res" where
  "published_id p =
     (case pr_error p of
        Some e \<Rightarrow> Inl e
      | None \<Rightarrow>
          (case pr_envelope p of
             None \<Rightarrow> Inl (Exc (UserError (u ''AssertionError'')) [])
           | Some envelope \<Rightarrow>
               (case as_dict (dget envelope (u ''meta'')) of
                  None \<Rightarrow> Inl (Exc (UserError (u ''KeyError'')) (u ''meta''))
                | Some meta \<Rightarrow>
                    (case dget meta (u ''id'') of
                       None \<Rightarrow> Inl (Exc (UserError (u ''KeyError'')) (u ''id''))
                     | Some v \<Rightarrow> Inr v))))"

definition publish ::
  "'w app \<Rightarrow> pystr \<Rightarrow> pyval dict \<Rightarrow> pystr option \<Rightarrow> pystr option \<Rightarrow> headers \<Rightarrow> pystr \<Rightarrow> pystr \<Rightarrow> int
     \<Rightarrow> ('w shared, pyval) op" where
  "publish a urn0 data queue trace_id headers fresh_trace fresh_id now_ms =
     bind_op (publish_envelope a urn0 data queue trace_id headers fresh_trace fresh_id now_ms)
       (\<lambda>p. lift_res (published_id p))"

end
