(* ===== verification/Settlement.thy ===== *)
theory Settlement
  imports Dispatch
begin

text \<open>
  What one dispatch does to a delivery, for every transport, handler and observer: how often it may
  be acknowledged, placed elsewhere or dropped, and in which order. The proofs go through the
  rules of \<open>Effects\<close>, one lemma per method, over three predicates on the history of the run.
\<close>

section \<open>The history\<close>

text \<open>Calls that place the message, or a record of it, somewhere else.\<close>

fun places :: "call \<Rightarrow> bool" where
  "places (Write q b) = True"
| "places (Redeliver b) = True"
| "places (DeadLetterWrite q b) = True"
| "places c = False"

fun is_handler :: "call \<Rightarrow> bool" where
  "is_handler (Handler k) = True"
| "is_handler c = False"

fun is_drop :: "log_record \<Rightarrow> bool" where
  "is_drop DroppedUndeliverable = True"
| "is_drop (DroppedExhausted n) = True"
| "is_drop (DroppedPoison c) = True"
| "is_drop DroppedTierlessPoison = True"
| "is_drop l = False"

definition acks :: "'w rt \<Rightarrow> nat" where
  "acks s = length (filter (\<lambda>c. fst c = Ack) (rt_calls s))"

definition placed :: "'w rt \<Rightarrow> nat" where
  "placed s = length (filter (\<lambda>c. places (fst c) \<and> snd c) (rt_calls s))"

text \<open>The message was handled or written elsewhere, and the call returned.\<close>

definition justifies :: "(call \<times> bool) list \<Rightarrow> bool" where
  "justifies cs \<longleftrightarrow> (\<exists>c \<in> set cs. snd c \<and> (is_handler (fst c) \<or> places (fst c)))"

text \<open>A drop the configuration asks for: logged, or silent under the strategy \<open>delete\<close>.\<close>

definition drop_allowed :: "'w app \<Rightarrow> 'w rt \<Rightarrow> bool" where
  "drop_allowed a s \<longleftrightarrow> a_on_unknown_urn a = DELETE \<or> list_ex is_drop (rt_logs s)"

definition acks_justified :: "'w app \<Rightarrow> 'w rt \<Rightarrow> bool" where
  "acks_justified a s \<longleftrightarrow>
     (\<forall>before ok after. rt_calls s = before @ (Ack, ok) # after \<longrightarrow> justifies before \<or> drop_allowed a s)"

definition untouched :: "'w rt \<Rightarrow> bool" where
  "untouched s \<longleftrightarrow> acks s = 0 \<and> placed s = 0"

definition may_ack :: "'w app \<Rightarrow> 'w rt \<Rightarrow> bool" where
  "may_ack a s \<longleftrightarrow> acks s = 0 \<and> placed s \<le> 1 \<and> (justifies (rt_calls s) \<or> drop_allowed a s)"

definition settled :: "'w app \<Rightarrow> 'w rt \<Rightarrow> bool" where
  "settled a s \<longleftrightarrow> acks s \<le> 1 \<and> placed s \<le> 1 \<and> acks_justified a s"

lemma acks_0: "acks s = 0 \<longleftrightarrow> (\<forall>ok. (Ack, ok) \<notin> set (rt_calls s))"
  by (auto simp: acks_def filter_empty_conv)

lemma acks_justified_0: "acks s = 0 \<Longrightarrow> acks_justified a s"
  by (auto simp: acks_justified_def acks_0)

lemma untouched_settled: "untouched s \<Longrightarrow> settled a s"
  by (simp add: untouched_def settled_def acks_justified_0)

lemma may_ack_settled: "may_ack a s \<Longrightarrow> settled a s"
  by (simp add: may_ack_def settled_def acks_justified_0)

text \<open>What an exception leaves: an \<open>Exception\<close> means nothing was settled.\<close>

definition failed :: "'w app \<Rightarrow> exc \<Rightarrow> 'w rt \<Rightarrow> bool" where
  "failed a e s \<longleftrightarrow> (if is_Exception e then untouched s else settled a s)"

lemma failedI: "untouched s \<Longrightarrow> failed a e s"
  by (simp add: failed_def untouched_settled)

section \<open>One rule per method\<close>

lemma history_call:
  "acks (s\<lparr>rt_shared := w, rt_calls := rt_calls s @ [(c, ok)]\<rparr>) = acks s + (if c = Ack then 1 else 0)"
  "placed (s\<lparr>rt_shared := w, rt_calls := rt_calls s @ [(c, ok)]\<rparr>) = placed s + (if places c \<and> ok then 1 else 0)"
  "drop_allowed a (s\<lparr>rt_shared := w, rt_calls := rt_calls s @ [(c, ok)]\<rparr>) = drop_allowed a s"
  by (auto simp: acks_def placed_def drop_allowed_def)

lemma history_log:
  "acks (s\<lparr>rt_logs := ls\<rparr>) = acks s" "placed (s\<lparr>rt_logs := ls\<rparr>) = placed s"
  "drop_allowed a s \<Longrightarrow> drop_allowed a (s\<lparr>rt_logs := rt_logs s @ [l]\<rparr>)"
  "is_drop l \<Longrightarrow> drop_allowed a (s\<lparr>rt_logs := rt_logs s @ [l]\<rparr>)"
  by (auto simp: acks_def placed_def drop_allowed_def)

lemma history_phase [simp]:
  "acks (s\<lparr>rt_phase := p\<rparr>) = acks s" "placed (s\<lparr>rt_phase := p\<rparr>) = placed s"
  "acks (s\<lparr>rt_shared := w\<rparr>) = acks s" "placed (s\<lparr>rt_shared := w\<rparr>) = placed s"
  "drop_allowed a (s\<lparr>rt_phase := p\<rparr>) = drop_allowed a s" "drop_allowed a (s\<lparr>rt_shared := w\<rparr>) = drop_allowed a s"
  "acks (leave_phase s) = acks s" "placed (leave_phase s) = placed s"
  "drop_allowed a (leave_phase s) = drop_allowed a s"
  by (simp_all add: acks_def placed_def drop_allowed_def leave_phase_def)

lemma settled_frame [simp]:
  "settled a (s\<lparr>rt_shared := w\<rparr>) = settled a s" "untouched (s\<lparr>rt_shared := w\<rparr>) = untouched s"
  "settled a (s\<lparr>rt_phase := p\<rparr>) = settled a s" "untouched (s\<lparr>rt_phase := p\<rparr>) = untouched s"
  "may_ack a (s\<lparr>rt_phase := p\<rparr>) = may_ack a s"
  "settled a (leave_phase s) = settled a s"
  by (simp_all add: settled_def untouched_def may_ack_def acks_justified_def leave_phase_def drop_allowed_def
      acks_def placed_def)

lemma settled_log: "settled a s \<Longrightarrow> settled a (s\<lparr>rt_logs := rt_logs s @ [l]\<rparr>)"
proof -
  assume s: "settled a s"
  let ?s = "s\<lparr>rt_logs := rt_logs s @ [l]\<rparr>"
  have "drop_allowed a s \<Longrightarrow> drop_allowed a ?s"
    by (rule history_log(3))
  with s have "acks_justified a ?s"
    unfolding settled_def acks_justified_def by fastforce
  with s show ?thesis
    by (simp add: settled_def history_log(1,2))
qed

text \<open>An acknowledgement of a message that may be acknowledged.\<close>

lemma acks_justified_ack:
  assumes "may_ack a s"
  shows "settled a (s\<lparr>rt_shared := w, rt_calls := rt_calls s @ [(Ack, ok)]\<rparr>)"
proof -
  let ?s = "s\<lparr>rt_shared := w, rt_calls := rt_calls s @ [(Ack, ok)]\<rparr>"
  have "justifies before \<or> drop_allowed a ?s"
    if "rt_calls s @ [(Ack, ok)] = before @ (Ack, ok') # after" for before ok' after
  proof (cases "after = []")
    case True
    with that assms show ?thesis by (auto simp: may_ack_def history_call)
  next
    case False
    then obtain after' x where "after = after' @ [x]" by (cases after rule: rev_cases) auto
    with that have "(Ack, ok') \<in> set (rt_calls s)" by auto
    with assms show ?thesis by (auto simp: may_ack_def acks_0)
  qed
  then have "acks_justified a ?s" by (simp add: acks_justified_def)
  with assms show ?thesis by (simp add: settled_def may_ack_def history_call)
qed

lemma valid_ack_settled:
  "valid (may_ack a) (ack_settled a r) (\<lambda>x. settled a) (\<lambda>e s. \<not> is_Exception e \<and> settled a s)"
  unfolding ack_settled_def
proof (rule valid_catch [where F = "\<lambda>e. settled a"])
  show "valid (may_ack a) (call_out Ack (t_ack (a_transport a) r)) (\<lambda>x. settled a) (\<lambda>e. settled a)"
    by (auto simp: valid_def call_out_def acks_justified_ack split: prod.splits sum.splits)
  show "valid (settled a) (log AckFailed) (\<lambda>x. settled a) (\<lambda>e s. \<not> is_Exception e \<and> settled a s)" for e :: exc
    unfolding log_def
    by (auto simp: valid_def modify_def settled_log)
qed simp

lemma valid_call_untouched:
  "c \<noteq> Ack \<Longrightarrow> \<not> places c \<Longrightarrow> valid untouched (call_out c f) (\<lambda>x. untouched) (\<lambda>e. untouched)"
  by (auto simp: valid_def call_out_def untouched_def history_call split: prod.splits sum.splits)

lemma valid_call_places:
  "places c \<Longrightarrow> valid untouched (call_out c f) (\<lambda>x. may_ack a) (\<lambda>e. untouched)"
proof -
  assume c: "places c"
  then have "c \<noteq> Ack" by auto
  with c show ?thesis
    by (auto simp: valid_def call_out_def untouched_def may_ack_def history_call justifies_def
        split: prod.splits sum.splits)
qed

lemma valid_outside_settled: "valid (settled a) (outside f) (\<lambda>x. settled a) (\<lambda>e. settled a)"
  by (auto simp: valid_def outside_def split: prod.splits sum.splits)

lemma valid_log:
  "valid untouched (log l) (\<lambda>x. untouched) E"
  "valid (settled a) (log l) (\<lambda>x. settled a) E"
  "is_drop l \<Longrightarrow> valid untouched (log l) (\<lambda>x. may_ack a) E"
  by (auto simp: log_def valid_def modify_def settled_log untouched_def may_ack_def history_log)

text \<open>A method that settles an untouched delivery, or raises an \<open>Exception\<close> and settles nothing.\<close>

definition settles :: "'w app \<Rightarrow> ('w rt, 'a) op \<Rightarrow> bool" where
  "settles a m \<longleftrightarrow> valid untouched m (\<lambda>x. settled a) (failed a)"

lemma settles_lift: "(\<And>x. settles a (f x)) \<Longrightarrow> settles a (bind_op (lift_res r) f)"
  unfolding settles_def
  by (rule valid_bind [where R = "\<lambda>x. untouched"]) (auto simp: valid_def lift_res_def failedI split: sum.splits)

lemma settles_get: "(\<And>x. settles a (f x)) \<Longrightarrow> settles a (bind_op (\<lambda>s. (Inr (g s), s)) f)"
  by (simp add: settles_def valid_def bind_op_def)

lemma settles_raise: "settles a (raise_op e)"
  by (auto simp: settles_def valid_def raise_op_def failedI)

lemma settles_ret: "settles a (ret x)"
  by (auto simp: settles_def valid_def ret_def untouched_settled)

lemma settles_then:
  "valid untouched m (\<lambda>x. untouched) (\<lambda>e. untouched) \<Longrightarrow> settles a k \<Longrightarrow> settles a (then_op m k)"
  unfolding settles_def
  by (rule valid_then [where R = untouched]) (auto elim: valid_weaken intro: failedI)

lemma settles_place_ack:
  assumes "valid untouched m (\<lambda>x. may_ack a) (\<lambda>e. untouched)"
  shows "settles a (then_op m (ack_settled a r))"
  unfolding settles_def
proof (rule valid_then [where R = "may_ack a"])
  show "valid untouched m (\<lambda>x. may_ack a) (failed a)"
    by (rule valid_weaken [OF assms]) (auto intro: failedI)
  show "valid (may_ack a) (ack_settled a r) (\<lambda>x. settled a) (failed a)"
    by (rule valid_weaken [OF valid_ack_settled]) (auto simp: failed_def)
qed

lemma settles_ack_drop: "is_drop l \<Longrightarrow> settles a (then_op (log l) (ack_settled a r))"
  by (rule settles_place_ack) (rule valid_log)

lemma settles_ack_delete: "a_on_unknown_urn a = DELETE \<Longrightarrow> settles a (ack_settled a r)"
  unfolding settles_def
  by (rule valid_weaken [OF valid_ack_settled]) (auto simp: untouched_def may_ack_def drop_allowed_def failed_def)

lemma settles_catch:
  assumes "settles a m" "\<And>e. settles a (h e)"
  shows "settles a (catch_exc m h)"
  unfolding settles_def
proof (rule valid_catch [where F = "failed a"])
  show "valid untouched m (\<lambda>x. settled a) (failed a)"
    using assms(1) by (simp add: settles_def)
  show "valid (failed a e) (h e) (\<lambda>x. settled a) (failed a)" if "is_Exception e" for e
  proof -
    have "failed a e = untouched"
      using that by (auto simp: failed_def)
    with assms(2) [of e] show ?thesis
      by (simp add: settles_def)
  qed
qed

lemma valid_ret_untouched [simp]: "valid untouched (ret x) (\<lambda>x. untouched) (\<lambda>e. untouched)"
  by (simp add: valid_def ret_def)

lemma settles_if: "(c \<Longrightarrow> settles a m) \<Longrightarrow> (\<not> c \<Longrightarrow> settles a k) \<Longrightarrow> settles a (if c then m else k)"
  by simp

lemma valid_publish_for: "valid untouched (publish_for a r q b) (\<lambda>x. may_ack a) (\<lambda>e. untouched)"
  unfolding publish_for_def by (rule valid_call_places) simp

lemma settles_release: "settles a (release a r body delay)"
proof (cases "t_redeliver (a_transport a)")
  case None
  then show ?thesis
    by (auto simp: release_def intro!: settles_lift settles_place_ack valid_publish_for)
next
  case (Some f)
  have "valid untouched (call_out (Redeliver body) (f r body delay)) (\<lambda>x. may_ack a) (\<lambda>e. untouched)"
    by (rule valid_call_places) simp
  then show ?thesis
    using Some by (auto simp: release_def settles_def elim!: valid_weaken intro: may_ack_settled failedI)
qed

text \<open>A failing observer changes nothing, and raises no \<open>Exception\<close>.\<close>

lemma valid_notify:
  "valid (settled a) (notify_dead_letter a q dq reason) (\<lambda>x. settled a) (\<lambda>e s. \<not> is_Exception e \<and> settled a s)"
proof (cases "a_observer a")
  case (Some f)
  then show ?thesis
    by (auto simp: notify_dead_letter_def intro!: valid_catch [OF valid_outside_settled] valid_log)
qed (simp add: notify_dead_letter_def valid_def ret_def)

lemma settles_notify:
  assumes "settles a m"
  shows "settles a (then_op m (notify_dead_letter a q dq reason))"
  unfolding settles_def
proof (rule valid_then [where R = "settled a"])
  show "valid untouched m (\<lambda>x. settled a) (failed a)"
    using assms by (simp add: settles_def)
  show "valid (settled a) (notify_dead_letter a q dq reason) (\<lambda>x. settled a) (failed a)"
    by (rule valid_weaken [OF valid_notify]) (auto simp: failed_def)
qed

lemma settles_write_dead_letter: "settles a (write_dead_letter a r q body src reason)"
proof -
  have "settles a (case t_dead_letter (a_transport a) of
          Some write \<Rightarrow> call_out (DeadLetterWrite q body) (write r q body)
        | None \<Rightarrow> then_op (publish_for a r q body) (ack_settled a r))"
  proof (cases "t_dead_letter (a_transport a)")
    case (Some f)
    have "valid untouched (call_out (DeadLetterWrite q body) (f r q body)) (\<lambda>x. may_ack a) (\<lambda>e. untouched)"
      by (rule valid_call_places) simp
    then show ?thesis
      using Some by (auto simp: settles_def elim!: valid_weaken intro: may_ack_settled failedI)
  qed (auto intro: settles_place_ack valid_publish_for)
  then show ?thesis
    unfolding write_dead_letter_def by (rule settles_notify)
qed

text \<open>Rewinding, abandoning and settling natively leave the delivery untouched.\<close>

lemma valid_catch_log:
  "valid untouched m (\<lambda>x. untouched) (\<lambda>e. untouched) \<Longrightarrow>
     valid untouched (catch_exc m (\<lambda>e. log l)) (\<lambda>x. untouched) (\<lambda>e. untouched)"
  by (rule valid_catch) (auto intro: valid_log)

lemma valid_rewind: "valid untouched (rewind_unsettled a r) (\<lambda>x. untouched) (\<lambda>e. untouched)"
  by (auto simp: rewind_unsettled_def
      intro!: valid_catch_log valid_call_untouched split: option.split)

lemma valid_abandon: "valid untouched (abandon_unsettled a r) (\<lambda>x. untouched) (\<lambda>e. untouched)"
  by (auto simp: abandon_unsettled_def intro!: valid_catch_log valid_call_untouched valid_rewind split: option.split)

lemma settles_untouched:
  "valid untouched m (\<lambda>x. untouched) (\<lambda>e. untouched) \<Longrightarrow> settles a m"
  unfolding settles_def by (erule valid_weaken) (auto intro: untouched_settled failedI)

lemma settles_leave_republish: "settles a (leave_republish_unsettled a r)"
  unfolding leave_republish_unsettled_def
  by (intro settles_then settles_untouched valid_rewind valid_log)

lemma untouched_notify:
  "valid untouched (notify_dead_letter a q dq reason) (\<lambda>x. untouched) (\<lambda>e. untouched)"
proof (cases "a_observer a")
  case (Some f)
  have "valid untouched (outside g) (\<lambda>x. untouched) (\<lambda>e. untouched)" for g :: "('a shared, unit) op"
    by (auto simp: valid_def outside_def split: prod.splits sum.splits)
  with Some show ?thesis
    by (auto simp: notify_dead_letter_def intro: valid_catch_log)
qed (simp add: notify_dead_letter_def valid_def ret_def)

lemma valid_settle_native: "valid untouched (settle_native a r reason d) (\<lambda>x. untouched) (\<lambda>e. untouched)"
proof -
  have seq: "valid untouched (then_op (log l) (then_op m (ret x))) (\<lambda>x. untouched) (\<lambda>e. untouched)"
    if "valid untouched m (\<lambda>x. untouched) (\<lambda>e. untouched)" for l and m :: "('a rt, unit) op" and x :: bool
    by (intro valid_then [where R = untouched] valid_log that valid_ret_untouched)
  have dl: "valid untouched (bind_op (call_out SettleNativeDeadLetter f)
      (\<lambda>b. if b then notify_dead_letter a q [] [] else ret ())) (\<lambda>x. untouched) (\<lambda>e. untouched)"
    for f :: "('a shared, bool) op" and q
    by (rule valid_bind [where R = "\<lambda>x. untouched"])
       (auto intro: valid_call_untouched untouched_notify)
  show ?thesis
    by (auto simp: settle_native_def intro!: seq valid_catch_log dl valid_call_untouched split: option.split)
qed

lemma settles_bind_native:
  "(\<And>x. settles a (f x)) \<Longrightarrow> settles a (bind_op (settle_native a r reason d) f)"
  unfolding settles_def
  by (rule valid_bind [where R = "\<lambda>x. untouched"])
     (auto intro: valid_weaken [OF valid_settle_native] failedI)

lemma settles_dead_letter: "settles a (dead_letter a r envelope reason exc)"
  unfolding dead_letter_def Let_def
  by (intro settles_lift settles_get settles_write_dead_letter)

lemma settles_retry_or_dead_letter: "settles a (retry_or_dead_letter a r envelope exc)"
  unfolding retry_or_dead_letter_def Let_def
  by (intro settles_lift settles_if settles_catch settles_release settles_leave_republish settles_dead_letter
      settles_ack_drop) simp

lemma settles_version_gated: "settles a (settle_version_gated a r always reason)"
  unfolding settle_version_gated_def
  by (intro settles_if settles_lift settles_write_dead_letter settles_bind_native settles_ret settles_ack_drop) simp

lemma settles_transport_poison: "settles a (settle_transport_poison a r cause n)"
  unfolding settle_transport_poison_def Let_def
  by (intro settles_get settles_lift settles_write_dead_letter)

lemma settles_route_poison: "settles a (route_poison a r)"
  unfolding route_poison_def
  by (intro settles_if settles_ack_delete settles_version_gated settles_ack_drop settles_retry_or_dead_letter) simp_all

lemma settles_route_body_poison: "settles a (route_body_poison a r cause)"
  unfolding route_body_poison_def
  by (intro settles_if settles_lift settles_transport_poison settles_bind_native settles_ret settles_ack_drop
      settles_retry_or_dead_letter) simp_all

lemma settles_route_unknown: "settles a (route_unknown a key r envelope)"
  unfolding route_unknown_def
  by (intro settles_if settles_route_poison settles_transport_poison settles_ack_delete settles_version_gated
      settles_catch settles_release settles_leave_republish settles_dead_letter settles_raise)

section \<open>Dispatch\<close>

lemma valid_set_phase:
  "valid untouched (set_phase p) (\<lambda>x. untouched) E" "valid (may_ack a) (set_phase p) (\<lambda>x. may_ack a) E"
  by (simp_all add: set_phase_def valid_def modify_def)

lemma valid_handler: "valid untouched (call_out (Handler k) f) (\<lambda>x. may_ack a) (\<lambda>e. untouched)"
  by (auto simp: valid_def call_out_def untouched_def may_ack_def history_call justifies_def
      split: prod.splits sum.splits)

lemma valid_invoke: "valid untouched (invoke k h r envelope) (\<lambda>x. may_ack a) (\<lambda>e. untouched)"
proof -
  have lift: "valid untouched (lift_res x) (\<lambda>y. untouched) (\<lambda>e. untouched)" for x :: "pyval dict res"
    by (auto simp: valid_def lift_res_def split: sum.splits)
  show ?thesis
    unfolding invoke_def
    by (rule valid_bind [OF lift], rule valid_bind [OF lift], rule valid_then [OF valid_handler])
       (rule valid_set_phase)
qed

definition tried :: "'w app \<Rightarrow> bool \<Rightarrow> 'w rt \<Rightarrow> bool" where
  "tried a b s = (if b then may_ack a s else settled a s)"

lemma valid_dispatch_try:
  "valid untouched (dispatch_try a r envelope) (tried a) (failed a)"
proof -
  have left: "valid untouched (then_op (set_phase Settling) (then_op m (ret False)))
      (tried a) (failed a)" if "settles a m" for m :: "('a rt, unit) op"
    by (rule valid_then [where R = untouched, OF valid_set_phase(1)], rule valid_then [where R = "settled a"])
       (use that in \<open>auto simp: settles_def tried_def intro: valid_ret\<close>)
  have ran: "valid untouched (then_op (set_phase Handling) (then_op (invoke k h r envelope)
      (then_op (set_phase Settling) (ret True)))) (tried a) (failed a)" for k h
    by (rule valid_then [where R = untouched, OF valid_set_phase(1)], rule valid_then [where R = "may_ack a"],
        rule valid_weaken [OF valid_invoke], assumption, assumption, rule failedI, assumption,
        rule valid_then [where R = "may_ack a", OF valid_set_phase(2)]) (simp add: tried_def valid_def ret_def)
  show ?thesis
    unfolding dispatch_try_def Let_def
    by (auto intro!: left ran settles_route_body_poison settles_route_unknown split: option.split)
qed

lemma settles_dispatch_failed: "settles a (dispatch_failed a r envelope e)"
  unfolding dispatch_failed_def
  by (intro settles_then settles_if settles_retry_or_dead_letter settles_untouched valid_rewind valid_abandon
      valid_set_phase valid_log)

lemma settles_dispatch_core: "settles a (dispatch_core a r envelope)"
  unfolding settles_def valid_def
proof (intro allI impI)
  fix s :: "'a rt"
  assume s: "untouched s"
  obtain res s' where t: "dispatch_try a r envelope s = (res, s')" by force
  show "case dispatch_core a r envelope s of (Inl e, s') \<Rightarrow> failed a e s' | (Inr x, s') \<Rightarrow> settled a s'"
  proof (cases res)
    case (Inl e)
    with validD(2) [OF valid_dispatch_try s] t have "failed a e s'" by simp
    then show ?thesis
      using Inl t settles_dispatch_failed [of a r envelope e]
      by (auto simp: dispatch_core_def settles_def valid_def failed_def)
  next
    case (Inr b)
    with validD(1) [OF valid_dispatch_try s] t have b: "if b then may_ack a s' else settled a s'" by (fastforce simp: tried_def)
    show ?thesis
    proof (cases b)
      case True
      obtain res2 s2 where k: "ack_settled a r s' = (res2, s2)" by force
      have "case res2 of Inl e \<Rightarrow> \<not> is_Exception e \<and> settled a s2 | Inr x \<Rightarrow> settled a s2"
        using valid_ack_settled [of a r] True b k by (auto simp: valid_def split: sum.splits)
      with True Inr t k show ?thesis
        by (auto simp: dispatch_core_def failed_def split: sum.splits)
    next
      case False
      with b Inr t show ?thesis by (simp add: dispatch_core_def)
    qed
  qed
qed

lemma settles_dispatch: "settles a (dispatch a r)"
proof -
  have "valid untouched (finally_op (dispatch_core a r envelope) leave_phase) (\<lambda>x. settled a) (failed a)" for envelope
    using settles_dispatch_core [of a r envelope]
    by (intro valid_finally) (auto simp: settles_def failed_def untouched_def elim!: valid_weaken)
  then have "settles a (finally_op (dispatch_core a r envelope) leave_phase)" for envelope
    by (simp add: settles_def)
  then show ?thesis
    unfolding dispatch_def by (rule settles_lift)
qed

section \<open>Properties\<close>

text \<open>
  C1: no message is lost and none is settled twice. Whatever the transport, the handlers and the
  observer do, one dispatch acknowledges the delivery at most once and places it (or a record of
  it) elsewhere at most once, and it acknowledges only after the handler returned or the write was
  confirmed, unless the configuration asks for a drop (the strategy \<open>delete\<close>, or a drop that was
  logged). When \<open>dispatch\<close> raises an \<open>Exception\<close>, nothing was settled.
\<close>

theorem dispatch_settles_once:
  assumes "rt_calls s = []" "dispatch a r s = (res, s')"
  shows "acks s' \<le> 1 \<and> placed s' \<le> 1
    \<and> (\<forall>before ok after. rt_calls s' = before @ (Ack, ok) # after \<longrightarrow>
         justifies before \<or> a_on_unknown_urn a = DELETE \<or> list_ex is_drop (rt_logs s'))
    \<and> (\<forall>e. res = Inl e \<longrightarrow> is_Exception e \<longrightarrow> acks s' = 0 \<and> placed s' = 0)"
proof -
  have "untouched s"
    using assms(1) by (simp add: untouched_def acks_def placed_def)
  with settles_dispatch [of a r] assms(2)
  have post: "case res of Inl e \<Rightarrow> failed a e s' | Inr x \<Rightarrow> settled a s'"
    by (fastforce simp: settles_def valid_def split: sum.splits)
  then have "settled a s'"
    by (auto simp: failed_def untouched_settled split: sum.splits if_splits)
  with post show ?thesis
    by (auto simp: settled_def acks_justified_def drop_allowed_def failed_def untouched_def split: sum.splits)
qed

end
