(* ===== verification/Behaviour.thy ===== *)
theory Behaviour
  imports Settlement
begin

text \<open>
  Which calls a dispatch can make and in which phase it ends: a handler only sees a delivery that
  passed the poison and the version gate, an interrupted dispatch has settled nothing, a retry
  carries the same envelope with one more attempt, a dead-letter record keeps the identity.
\<close>

section \<open>Frames\<close>

text \<open>The calls an operation adds are all in \<open>C\<close>, and it leaves the phase alone.\<close>

definition emits :: "(call \<Rightarrow> bool) \<Rightarrow> ('w rt, 'a) op \<Rightarrow> bool" where
  "emits C m \<longleftrightarrow>
     (\<forall>s. \<exists>new. rt_calls (snd (m s)) = rt_calls s @ new \<and> (\<forall>c \<in> set new. C (fst c))
             \<and> rt_phase (snd (m s)) = rt_phase s)"

named_theorems emits_rules "one rule per construct and per method"

lemma emits_ret [emits_rules]: "emits C (ret x)"
  by (simp add: emits_def ret_def)

lemma emits_raise [emits_rules]: "emits C (raise_op e)"
  by (simp add: emits_def raise_op_def)

lemma emits_lift [emits_rules]: "emits C (lift_res x)"
  by (simp add: emits_def lift_res_def)

lemma emits_get [emits_rules]: "emits C (\<lambda>s. (Inr (g s), s))"
  by (simp add: emits_def)

lemma emits_bind [emits_rules]:
  assumes "emits C m" "\<And>x. emits C (f x)"
  shows "emits C (bind_op m f)"
  unfolding emits_def
proof
  fix s
  obtain r s1 where m: "m s = (r, s1)" by force
  from assms(1) m obtain new1 where n1: "rt_calls s1 = rt_calls s @ new1" "\<forall>c \<in> set new1. C (fst c)"
      "rt_phase s1 = rt_phase s"
    unfolding emits_def by (metis snd_conv)
  show "\<exists>new. rt_calls (snd (bind_op m f s)) = rt_calls s @ new \<and> (\<forall>c \<in> set new. C (fst c))
      \<and> rt_phase (snd (bind_op m f s)) = rt_phase s"
  proof (cases r)
    case (Inl e)
    with m n1 show ?thesis by (auto simp: bind_op_def)
  next
    case (Inr x)
    from assms(2) [of x] obtain new2 where "rt_calls (snd (f x s1)) = rt_calls s1 @ new2"
        "\<forall>c \<in> set new2. C (fst c)" "rt_phase (snd (f x s1)) = rt_phase s1"
      unfolding emits_def by blast
    with Inr m n1 show ?thesis
      by (intro exI [of _ "new1 @ new2"]) (auto simp: bind_op_def)
  qed
qed

lemma emits_then [emits_rules]: "emits C m \<Longrightarrow> emits C k \<Longrightarrow> emits C (then_op m k)"
  by (simp add: then_op_def emits_bind)

lemma emits_catch [emits_rules]:
  assumes "emits C m" "\<And>e. emits C (h e)"
  shows "emits C (catch_exc m h)"
proof -
  have "emits C (\<lambda>s. case m s of (r, s1) \<Rightarrow> (case r of Inl e \<Rightarrow> if is_Exception e then h e s1 else (Inl e, s1)
      | Inr x \<Rightarrow> (Inr x, s1)))"
    unfolding emits_def
  proof
    fix s
    obtain r s1 where m: "m s = (r, s1)" by force
    from assms(1) m obtain new1 where n1: "rt_calls s1 = rt_calls s @ new1" "\<forall>c \<in> set new1. C (fst c)"
        "rt_phase s1 = rt_phase s"
      unfolding emits_def by (metis snd_conv)
    let ?k = "case r of Inl e \<Rightarrow> if is_Exception e then h e s1 else (Inl e, s1) | Inr x \<Rightarrow> (Inr x, s1)"
    have "\<exists>new2. rt_calls (snd ?k) = rt_calls s1 @ new2 \<and> (\<forall>c \<in> set new2. C (fst c)) \<and> rt_phase (snd ?k) = rt_phase s1"
      using assms(2) unfolding emits_def by (auto split: sum.split)
    then obtain new2 where "rt_calls (snd ?k) = rt_calls s1 @ new2" "\<forall>c \<in> set new2. C (fst c)"
        "rt_phase (snd ?k) = rt_phase s1" by blast
    with n1 m show "\<exists>new. rt_calls (snd (case m s of (r, s1) \<Rightarrow> (case r of Inl e \<Rightarrow> if is_Exception e then h e s1 else (Inl e, s1)
      | Inr x \<Rightarrow> (Inr x, s1)))) = rt_calls s @ new \<and> (\<forall>c \<in> set new. C (fst c))
      \<and> rt_phase (snd (case m s of (r, s1) \<Rightarrow> (case r of Inl e \<Rightarrow> if is_Exception e then h e s1 else (Inl e, s1)
      | Inr x \<Rightarrow> (Inr x, s1)))) = rt_phase s"
      by (intro exI [of _ "new1 @ new2"]) auto
  qed
  then show ?thesis
    by (simp add: catch_exc_def)
qed

lemma emits_call [emits_rules]: "C c \<Longrightarrow> emits C (call_out c f)"
  by (auto simp: emits_def call_out_def split: prod.split)

lemma emits_outside [emits_rules]: "emits C (outside f)"
  by (auto simp: emits_def outside_def split: prod.split)

lemma emits_log [emits_rules]: "emits C (log l)"
  by (simp add: emits_def log_def modify_def)

lemma emits_if [emits_rules]: "(b \<Longrightarrow> emits C m) \<Longrightarrow> (\<not> b \<Longrightarrow> emits C k) \<Longrightarrow> emits C (if b then m else k)"
  by simp

text \<open>No settlement method calls a handler.\<close>

definition no_handler :: "call \<Rightarrow> bool" where
  "no_handler c \<longleftrightarrow> \<not> is_handler c"

lemma no_handler_simps [simp]:
  "no_handler Ack" "no_handler (Write q b)" "no_handler (Redeliver b)" "no_handler (DeadLetterWrite q b)"
  "no_handler Rewind" "no_handler Abandon" "no_handler SettleNative" "no_handler SettleNativeDeadLetter"
  by (simp_all add: no_handler_def)

lemma emits_ack_settled [emits_rules]: "emits no_handler (ack_settled a r)"
  by (simp add: ack_settled_def emits_rules)

lemma emits_publish_for [emits_rules]: "emits no_handler (publish_for a r q b)"
  by (simp add: publish_for_def emits_rules)

lemma emits_release [emits_rules]: "emits no_handler (release a r b d)"
  by (auto simp: release_def intro!: emits_rules split: option.split)

lemma emits_notify [emits_rules]: "emits no_handler (notify_dead_letter a q dq reason)"
  by (auto simp: notify_dead_letter_def intro!: emits_rules split: option.split)

lemma emits_write_dead_letter [emits_rules]: "emits no_handler (write_dead_letter a r q b src reason)"
  by (auto simp: write_dead_letter_def intro!: emits_rules split: option.split)

lemma emits_settle_native [emits_rules]: "emits no_handler (settle_native a r reason d)"
  by (auto simp: settle_native_def intro!: emits_rules split: option.split)

lemma emits_rewind [emits_rules]: "emits no_handler (rewind_unsettled a r)"
  by (auto simp: rewind_unsettled_def intro!: emits_rules split: option.split)

lemma emits_abandon [emits_rules]: "emits no_handler (abandon_unsettled a r)"
  by (auto simp: abandon_unsettled_def intro!: emits_rules split: option.split)

lemma emits_leave [emits_rules]: "emits no_handler (leave_republish_unsettled a r)"
  by (simp add: leave_republish_unsettled_def emits_rules)

lemma emits_dead_letter [emits_rules]: "emits no_handler (dead_letter a r envelope reason e)"
  unfolding dead_letter_def Let_def by (intro emits_rules)

lemma emits_retry [emits_rules]: "emits no_handler (retry_or_dead_letter a r envelope e)"
  unfolding retry_or_dead_letter_def Let_def by (intro emits_rules)

lemma emits_version_gated [emits_rules]: "emits no_handler (settle_version_gated a r always reason)"
  unfolding settle_version_gated_def by (intro emits_rules)

lemma emits_transport_poison [emits_rules]: "emits no_handler (settle_transport_poison a r cause n)"
  unfolding settle_transport_poison_def Let_def by (intro emits_rules)

lemma emits_route_poison [emits_rules]: "emits no_handler (route_poison a r)"
  unfolding route_poison_def by (intro emits_rules)

lemma emits_route_body_poison [emits_rules]: "emits no_handler (route_body_poison a r cause)"
  unfolding route_body_poison_def by (intro emits_rules)

lemma emits_route_unknown [emits_rules]: "emits no_handler (route_unknown a key r envelope)"
  unfolding route_unknown_def by (intro emits_rules)

section \<open>The gate before a handler\<close>

definition history :: "(call \<Rightarrow> bool) \<Rightarrow> 'w rt \<Rightarrow> bool" where
  "history C s \<longleftrightarrow> (\<forall>c \<in> set (rt_calls s). C (fst c))"

lemma emits_mono: "emits C m \<Longrightarrow> (\<And>c. C c \<Longrightarrow> D c) \<Longrightarrow> emits D m"
  unfolding emits_def by meson

abbreviation keeps :: "('w rt \<Rightarrow> bool) \<Rightarrow> ('w rt, 'a) op \<Rightarrow> bool" where
  "keeps I m \<equiv> valid I m (\<lambda>x. I) (\<lambda>e. I)"

lemma keeps_iff: "keeps I m \<longleftrightarrow> (\<forall>s. I s \<longrightarrow> I (snd (m s)))"
proof -
  have "(case m s of (Inl e, s') \<Rightarrow> I s' | (Inr x, s') \<Rightarrow> I s') = I (snd (m s))" for s
    by (cases "m s"; cases "fst (m s)") auto
  then show ?thesis
    by (simp add: valid_def)
qed

lemma emits_keeps:
  "emits C m \<Longrightarrow> keeps (history C) m"
  "emits C m \<Longrightarrow> keeps (\<lambda>s. rt_phase s = p) m"
  unfolding keeps_iff emits_def history_def by (metis Un_iff set_append, metis)

text \<open>The handler a dispatch may call: the one registered for the URN of a body that is not poison.\<close>

definition gate :: "'w app \<Rightarrow> received_message \<Rightarrow> pyval dict \<Rightarrow> call \<Rightarrow> bool" where
  "gate a r envelope c =
     (case c of
        Handler k \<Rightarrow> delivery_poison_cause a r = None \<and> k = delivery_urn r envelope \<and> k \<noteq> []
                     \<and> dget (a_handlers a) k \<noteq> None
      | _ \<Rightarrow> True)"

lemma no_handler_gate: "no_handler c \<Longrightarrow> gate a r envelope c"
  by (cases c) (auto simp: gate_def no_handler_def)

lemma keeps_gate: "emits no_handler m \<Longrightarrow> keeps (history (gate a r envelope)) m"
  by (rule emits_keeps(1)) (erule emits_mono, rule no_handler_gate)

lemma keeps_set_phase: "keeps (history C) (set_phase p)"
  by (simp add: valid_def set_phase_def modify_def history_def)

lemma keeps_then: "keeps I m \<Longrightarrow> keeps I k \<Longrightarrow> keeps I (then_op m k)"
  by (rule valid_then)

lemma keeps_invoke:
  "gate a r envelope (Handler k) \<Longrightarrow> keeps (history (gate a r envelope)) (invoke k h r envelope)"
  unfolding invoke_def
  by (intro valid_bind [where R = "\<lambda>x. history (gate a r envelope)"] keeps_then keeps_set_phase
      emits_keeps(1) emits_lift emits_call)

lemma keeps_dispatch_try: "keeps (history (gate a r envelope)) (dispatch_try a r envelope)"
proof (cases "delivery_poison_cause a r")
  case (Some cause)
  have "keeps (history (gate a r envelope)) (then_op (set_phase Settling) (then_op (route_body_poison a r cause) (ret False)))"
    by (rule keeps_then [OF keeps_set_phase], rule keeps_gate) (intro emits_rules)
  with Some show ?thesis
    by (simp add: dispatch_try_def)
next
  case None
  show ?thesis
  proof (cases "delivery_handler a r (delivery_urn r envelope)")
    case None
    have "keeps (history (gate a r envelope)) (then_op (set_phase Settling)
        (then_op (route_unknown a (delivery_urn r envelope) r envelope) (ret False)))"
      by (rule keeps_then [OF keeps_set_phase], rule keeps_gate) (intro emits_rules)
    with None \<open>delivery_poison_cause a r = None\<close> show ?thesis
      by (simp add: dispatch_try_def)
  next
    case (Some h)
    with None have g: "gate a r envelope (Handler (delivery_urn r envelope))"
      by (auto simp: gate_def delivery_handler_def split: if_splits)
    have "keeps (history (gate a r envelope)) (then_op (set_phase Handling)
        (then_op (invoke (delivery_urn r envelope) h r envelope) (then_op (set_phase Settling) (ret True))))"
      by (rule keeps_then [OF keeps_set_phase], rule keeps_then [OF keeps_invoke [OF g]],
          rule keeps_then [OF keeps_set_phase]) (simp add: valid_def ret_def)
    with None Some show ?thesis
      by (simp add: dispatch_try_def)
  qed
qed

lemma keeps_dispatch_failed: "keeps (history (gate a r envelope)) (dispatch_failed a r envelope e)"
  unfolding dispatch_failed_def
  by (rule keeps_then [OF keeps_set_phase], rule keeps_gate) (intro emits_rules)

lemma keeps_dispatch_core: "keeps (history (gate a r envelope)) (dispatch_core a r envelope)"
  unfolding keeps_iff
proof (intro allI impI)
  fix s :: "'a rt"
  assume s: "history (gate a r envelope) s"
  obtain res s' where t: "dispatch_try a r envelope s = (res, s')" by force
  with s keeps_dispatch_try [of a r envelope] have h: "history (gate a r envelope) s'"
    unfolding keeps_iff by (metis snd_conv)
  have f: "history (gate a r envelope) (snd (dispatch_failed a r envelope e s'))" for e
    using keeps_dispatch_failed [of a r envelope e] h unfolding keeps_iff by blast
  have k: "history (gate a r envelope) (snd (ack_settled a r s'))"
    using keeps_gate [OF emits_ack_settled, of a r envelope a r] h unfolding keeps_iff by blast
  show "history (gate a r envelope) (snd (dispatch_core a r envelope s))"
    using t h f k by (auto simp: dispatch_core_def split: sum.splits bool.splits)
qed

lemma dispatch_calls:
  assumes "rt_calls s = []" "dispatch a r s = (res, s')" "(Handler k, ok) \<in> set (rt_calls s')"
  shows "\<exists>envelope. delivery_envelope a r = Inr envelope \<and> gate a r envelope (Handler k)"
proof (cases "delivery_envelope a r")
  case (Inl e)
  with assms show ?thesis by (simp add: dispatch_def bind_op_def lift_res_def)
next
  case (Inr envelope)
  have "history (gate a r envelope) s"
    using assms(1) by (simp add: history_def)
  with keeps_dispatch_core [of a r envelope] have "history (gate a r envelope) (snd (dispatch_core a r envelope s))"
    unfolding keeps_iff by blast
  moreover have "rt_calls s' = rt_calls (snd (dispatch_core a r envelope s))"
    using Inr assms(2)
    by (auto simp: dispatch_def bind_op_def lift_res_def finally_op_def leave_phase_def split: prod.splits)
  ultimately have "gate a r envelope (Handler k)"
    using assms(3) by (force simp: history_def)
  with Inr show ?thesis by blast
qed

section \<open>The phase an interruption leaves\<close>

lemma valid_and:
  "valid P m Q E \<Longrightarrow> valid P' m Q' E' \<Longrightarrow>
     valid (\<lambda>s. P s \<and> P' s) m (\<lambda>x s. Q x s \<and> Q' x s) (\<lambda>e s. E e s \<and> E' e s)"
  by (fastforce simp: valid_def split: prod.splits sum.splits)

lemma settling_then:
  "emits no_handler m \<Longrightarrow> keeps (\<lambda>s. rt_phase s = Settling) m"
  by (rule emits_keeps(2))

lemma valid_settling: "valid P (set_phase Settling) (\<lambda>x s. rt_phase s = Settling) E"
  by (simp add: valid_def set_phase_def modify_def)

text \<open>An exception of the \<open>try\<close> block outside the settling phase comes from the handler.\<close>

lemma dispatch_try_phase:
  "valid untouched (dispatch_try a r envelope) (\<lambda>b s. rt_phase s = Settling)
     (\<lambda>e s. rt_phase s = Settling \<or> untouched s)"
proof -
  have left: "valid untouched (then_op (set_phase Settling) (then_op m (ret False)))
      (\<lambda>b s. rt_phase s = Settling) (\<lambda>e s. rt_phase s = Settling \<or> untouched s)"
    if "emits no_handler m" for m :: "('a rt, unit) op"
    by (rule valid_then [OF valid_settling], rule valid_then [where R = "\<lambda>s. rt_phase s = Settling"],
        rule valid_weaken [OF settling_then [OF that]]) (simp_all add: valid_def ret_def)
  have inv: "valid untouched (invoke k h r envelope) (\<lambda>x s. rt_phase s = Settling) (\<lambda>e. untouched)" for k h
  proof -
    have lift: "valid untouched (lift_res x) (\<lambda>y. untouched) (\<lambda>e. untouched)" for x :: "pyval dict res"
      by (auto simp: valid_def lift_res_def split: sum.splits)
    show ?thesis
      unfolding invoke_def
      by (rule valid_bind [OF lift], rule valid_bind [OF lift], rule valid_then,
          rule valid_weaken [OF valid_handler, where P' = untouched and Q' = "\<lambda>x s. True" and E' = "\<lambda>e. untouched"])
         (auto intro: valid_settling)
  qed
  have ran: "valid untouched (then_op (set_phase Handling) (then_op (invoke k h r envelope)
      (then_op (set_phase Settling) (ret True))))
      (\<lambda>b s. rt_phase s = Settling) (\<lambda>e s. rt_phase s = Settling \<or> untouched s)" for k h
  proof (rule valid_then [OF valid_set_phase(1)], rule valid_then)
    show "valid untouched (invoke k h r envelope) (\<lambda>x s. rt_phase s = Settling)
        (\<lambda>e s. rt_phase s = Settling \<or> untouched s)"
      by (rule valid_weaken [OF inv]) auto
    show "valid (\<lambda>s. rt_phase s = Settling) (then_op (set_phase Settling) (ret True))
        (\<lambda>b s. rt_phase s = Settling) (\<lambda>e s. rt_phase s = Settling \<or> untouched s)"
      by (rule valid_then [OF valid_settling]) (simp add: valid_def ret_def)
  qed
  show ?thesis
    unfolding dispatch_try_def Let_def
    by (auto intro!: left ran emits_route_body_poison emits_route_unknown split: option.split)
qed

lemma dispatch_failed_phase: "rt_phase (snd (dispatch_failed a r envelope e s)) = Settling"
proof -
  have "keeps (\<lambda>s. rt_phase s = Settling) (if delivery_poison_cause a r \<noteq> None \<or> is_gated r
        then then_op (log GatedWriteFailed) (if is_gated r then abandon_unsettled a r else rewind_unsettled a r)
        else retry_or_dead_letter a r envelope e)"
    by (rule settling_then) (intro emits_rules)
  then show ?thesis
    by (simp add: dispatch_failed_def then_op_def bind_op_def set_phase_def modify_def keeps_iff)
qed

lemma dispatch_core_phase:
  assumes "untouched s"
  shows "rt_phase (snd (dispatch_core a r envelope s)) = Settling \<or> untouched (snd (dispatch_core a r envelope s))"
proof -
  obtain res s' where t: "dispatch_try a r envelope s = (res, s')" by force
  have p: "case res of Inl e \<Rightarrow> rt_phase s' = Settling \<or> untouched s' | Inr b \<Rightarrow> rt_phase s' = Settling"
    using dispatch_try_phase [of a r envelope] assms t by (fastforce simp: valid_def split: sum.splits)
  have "keeps (\<lambda>s. rt_phase s = Settling) (ack_settled a r)"
    by (rule settling_then) (rule emits_ack_settled)
  with p t show ?thesis
    by (auto simp: dispatch_core_def dispatch_failed_phase keeps_iff split: sum.splits bool.splits)
qed

lemma dispatch_phase:
  assumes "untouched s" "dispatch a r s = (Inl e, s')"
  shows "rt_last_phase s' = Settling \<or> untouched s'"
proof (cases "delivery_envelope a r")
  case (Inl e)
  with assms show ?thesis by (simp add: dispatch_def bind_op_def lift_res_def)
next
  case (Inr envelope)
  with assms(2) have "s' = leave_phase (snd (dispatch_core a r envelope s))"
    by (auto simp: dispatch_def bind_op_def lift_res_def finally_op_def split: prod.splits)
  with dispatch_core_phase [OF assms(1), of a r envelope] show ?thesis
    by (auto simp: leave_phase_def untouched_def acks_def placed_def)
qed

lemma settles_release_unprocessed: "settles a (release_unprocessed a r)"
proof (cases "t_rewind (a_transport a)")
  case (Some f)
  then show ?thesis
    by (auto simp: release_unprocessed_def intro!: settles_untouched valid_catch_log valid_call_untouched)
qed (simp add: release_unprocessed_def settles_release)

lemma settles_settled: "settles a m \<Longrightarrow> untouched s \<Longrightarrow> settled a (snd (m s))"
  by (cases "m s"; cases "fst (m s)")
     (auto simp: settles_def valid_def failed_def untouched_settled dest!: spec [of _ s] split: if_splits)

section \<open>Properties\<close>


text \<open>
  C29: an interrupted delivery is released once and never after its settlement began. When a
  \<open>KeyboardInterrupt\<close> leaves a dispatch, the loop releases the message only if the dispatch had
  settled nothing, and the dispatch and the release together acknowledge and place it at most once.
\<close>

theorem interrupt_releases_once:
  assumes "rt_calls s = []" "dispatch a r s = (Inl e, s1)" "exc_class_of e = KeyboardInterrupt"
    and "after_loop a \<lparr>ex_processed = n, ex_inflight = Some r, ex_exc = Some e\<rparr> s1 = (res, s2)"
  shows "(rt_last_phase s1 \<noteq> Settling \<longrightarrow> acks s1 = 0 \<and> placed s1 = 0)
    \<and> (rt_last_phase s1 = Settling \<longrightarrow> s2 = s1) \<and> acks s2 \<le> 1 \<and> placed s2 \<le> 1"
proof -
  have un: "untouched s"
    using assms(1) by (simp add: untouched_def acks_def placed_def)
  have s1: "settled a s1"
    using settles_dispatch [of a r] un assms(2,3)
    by (fastforce simp: settles_def valid_def failed_def is_Exception_def)
  show ?thesis
  proof (cases "rt_last_phase s1 = Settling")
    case True
    with assms(3,4) s1 show ?thesis
      by (auto simp: after_loop_def settled_def)
  next
    case False
    with dispatch_phase [OF un assms(2)] have u1: "untouched s1" by simp
    from False assms(3,4) have "release_unprocessed a r s1 = (res, s2)"
      by (simp add: after_loop_def)
    with settles_settled [OF settles_release_unprocessed u1, of a r] have "settled a s2"
      by simp
    with False u1 show ?thesis
      by (simp add: untouched_def settled_def)
  qed
qed

end
