(* ===== verification/Retry.thy ===== *)
theory Retry
  imports Behaviour
begin

text \<open>
  What the runtime writes when a delivery fails: a retry carries the same envelope with one more
  attempt, a dead-letter record the same envelope with the block added. Also what happens when
  \<open>attempts\<close> is \<open>null\<close>, which the poison verdict accepts and \<open>int()\<close> does not.
\<close>

section \<open>The first call\<close>

text \<open>The operation first calls \<open>c\<close>; all later calls are in \<open>D\<close>.\<close>

definition opens :: "call \<Rightarrow> (call \<Rightarrow> bool) \<Rightarrow> ('w rt, 'a) op \<Rightarrow> bool" where
  "opens c D m \<longleftrightarrow>
     (\<forall>s. \<exists>ok rest. rt_calls (snd (m s)) = rt_calls s @ (c, ok) # rest \<and> (\<forall>x \<in> set rest. D (fst x)))"

lemma opens_call: "opens c D (call_out c f)"
  by (auto simp: opens_def call_out_def split: prod.split)

lemma opens_then:
  assumes "opens c D m" "emits D k"
  shows "opens c D (then_op m k)"
  unfolding opens_def
proof
  fix s
  obtain r s1 where m: "m s = (r, s1)" by force
  with assms(1) obtain ok rest where r1: "rt_calls s1 = rt_calls s @ (c, ok) # rest" "\<forall>x \<in> set rest. D (fst x)"
    unfolding opens_def by (metis snd_conv)
  obtain new where "rt_calls (snd (k s1)) = rt_calls s1 @ new" "\<forall>x \<in> set new. D (fst x)"
    using assms(2) unfolding emits_def by blast
  with r1 m show "\<exists>ok rest. rt_calls (snd (then_op m k s)) = rt_calls s @ (c, ok) # rest \<and> (\<forall>x \<in> set rest. D (fst x))"
    by (cases r) (auto simp: then_op_def bind_op_def)
qed

lemma opens_catch:
  assumes "opens c D m" "\<And>e. emits D (h e)"
  shows "opens c D (catch_exc m h)"
  unfolding opens_def
proof
  fix s
  obtain r s1 where m: "m s = (r, s1)" by force
  with assms(1) obtain ok rest where r1: "rt_calls s1 = rt_calls s @ (c, ok) # rest" "\<forall>x \<in> set rest. D (fst x)"
    unfolding opens_def by (metis snd_conv)
  have "\<exists>new. rt_calls (snd (h e s1)) = rt_calls s1 @ new \<and> (\<forall>x \<in> set new. D (fst x))" for e
    using assms(2) unfolding emits_def by blast
  then obtain new where n: "\<And>e. rt_calls (snd (h e s1)) = rt_calls s1 @ new e \<and> (\<forall>x \<in> set (new e). D (fst x))"
    by metis
  show "\<exists>ok rest. rt_calls (snd (catch_exc m h s)) = rt_calls s @ (c, ok) # rest \<and> (\<forall>x \<in> set rest. D (fst x))"
  proof (cases r)
    case (Inl e)
    with m r1 n [of e] show ?thesis by (auto simp: catch_exc_def)
  qed (use m r1 in \<open>auto simp: catch_exc_def\<close>)
qed

lemma opens_mono: "opens c D m \<Longrightarrow> (\<And>x. D x \<Longrightarrow> D' x) \<Longrightarrow> opens c D' m"
  unfolding opens_def by meson

definition afterwards :: "call \<Rightarrow> bool" where
  "afterwards c \<longleftrightarrow> c = Ack \<or> c = Rewind"

lemma emits_afterwards:
  "emits afterwards (ack_settled a r)" "emits afterwards (leave_republish_unsettled a r)"
  "emits afterwards (notify_dead_letter a q dq reason)"
  by (auto simp: ack_settled_def leave_republish_unsettled_def rewind_unsettled_def notify_dead_letter_def
      afterwards_def intro!: emits_rules split: option.split)

text \<open>Where the message goes: the native redelivery, or a publish to its own queue.\<close>

definition retry_target :: "'w app \<Rightarrow> received_message \<Rightarrow> pystr \<Rightarrow> call" where
  "retry_target a r body =
     (if t_redeliver (a_transport a) = None then Write (rm_queue r) body else Redeliver body)"

definition dead_letter_call :: "'w app \<Rightarrow> pystr \<Rightarrow> pystr \<Rightarrow> call" where
  "dead_letter_call a queue body =
     (if t_dead_letter (a_transport a) = None then Write queue body else DeadLetterWrite queue body)"

lemma without_forbidden_keys_id:
  assumes "loads body = Inr (PDict e)" "first_encode_violation e = None"
  shows "without_forbidden_keys body = Inr body"
  using assms by (simp add: without_forbidden_keys_def parse_envelope_def first_encode_violation_None)

lemma opens_release:
  assumes "without_forbidden_keys body = Inr body"
  shows "opens (retry_target a r body) afterwards (release a r body d)"
proof (cases "t_redeliver (a_transport a)")
  case None
  have "opens (Write (rm_queue r) body) afterwards (then_op (publish_for a r (rm_queue r) body) (ack_settled a r))"
    unfolding publish_for_def by (intro opens_then opens_call emits_afterwards)
  with None assms show ?thesis
    by (simp add: release_def retry_target_def lift_res_def bind_op_def)
next
  case (Some f)
  then show ?thesis
    by (simp add: release_def retry_target_def opens_call)
qed

lemma opens_write_dead_letter: "opens (dead_letter_call a q body) afterwards (write_dead_letter a r q body src reason)"
  unfolding write_dead_letter_def dead_letter_call_def publish_for_def
  by (auto intro!: opens_then opens_call emits_afterwards split: option.split)

section \<open>What can be written\<close>

lemma int64_dumpable: "INT64_MIN \<le> i \<Longrightarrow> i \<le> INT64_MAX + 1 \<Longrightarrow> dumpable d (PInt i)"
proof -
  assume "INT64_MIN \<le> i" "i \<le> INT64_MAX + 1"
  then have "nat \<bar>i\<bar> < 10 ^ 20"
    by (simp add: INT64_MIN_def INT64_MAX_def)
  then have "length (nat_str (nat \<bar>i\<bar>)) \<le> 20"
    by (intro length_nat_str) simp_all
  then show ?thesis
    by (simp add: int_max_str_digits_def)
qed

lemma decode_result:
  assumes "fst (decode raw) = Inr e" "e \<noteq> []"
  shows "dumpable max_nesting (PDict e)" "wf_val (PDict e)" "first_encode_violation e = None"
    "is_valid_urn (dget e (u ''job''))"
proof -
  from assms(1) decode_decode_lenient have l: "fst (decode_lenient raw) = Inr e"
    by simp
  from l obtain d where d: "loads raw = Inr (PDict d)" "fold_identity d = (e, snd (decode_lenient raw))"
    using assms(2) by (cases rule: decode_lenient_cases) auto
  show "dumpable max_nesting (PDict e)" "wf_val (PDict e)"
    using loads_dumpable [OF d(1)] writable_fold_identity [OF d(2)] by simp_all
  show "first_encode_violation e = None"
    by (rule fold_identity_encodable [OF d(2)])
  show "is_valid_urn (dget e (u ''job''))"
    using assms(1) d by (auto simp: decode_def parse_object_def Let_def split: if_splits)
qed

text \<open>Setting a key that is not forbidden, \<open>job\<close> or \<open>urn\<close> keeps an envelope writable.\<close>

lemma dset_writable:
  assumes "dumpable max_nesting (PDict e)" "wf_val (PDict e)" "first_encode_violation e = None"
    and "is_valid_urn (dget e (u ''job''))" "floats_ok (PDict e)"
    and "k \<notin> {u ''job'', u ''urn'', u ''meta'', u ''timestamp''}"
    and "dumpable (max_nesting - 1) v" "wf_val v" "floats_ok v"
  shows "\<exists>body. encode (dset k v e) = Inr body \<and> decode body = (Inr (dset k v e), [])
    \<and> without_forbidden_keys body = Inr body"
proof -
  let ?e = "dset k v e"
  have carries: "carries ?e ck = carries e ck" if "ck \<in> set FORBIDDEN_KEYS" for ck
    using that assms(6) by (auto simp: FORBIDDEN_KEYS_def carries_def key_target_def)
  have viol: "first_encode_violation ?e = None"
    using assms(3,6) carries by (auto simp: first_encode_violation_None has_forbidden_keys_def list_ex_iff)
  have w: "dumpable max_nesting (PDict ?e)" "wf_val (PDict ?e)" "floats_ok (PDict ?e)"
    using assms writable_dset by blast+
  have j: "is_valid_urn (dget ?e (u ''job''))"
    using assms(4,6) by auto
  from dumpable_dumps [OF w(1), of False] viol obtain body where body: "encode ?e = Inr body"
    by (auto simp: encode_def dumps_def)
  note d = encode_decodes [OF body j w(2,3)]
  from decode_object(1) [OF d(1,3,2)] without_forbidden_keys_id [OF d(1) viol] body show ?thesis
    by blast
qed

section \<open>Properties\<close>

text \<open>
  C5: a retry loses nothing and counts. When an envelope that decoded fails before its last
  attempt, the first thing the runtime does is hand it back (natively, or by a publish to the queue
  it came from) as a body that decodes to the same envelope with \<open>attempts\<close> increased by one; only
  an acknowledgement or a rewind can follow.
\<close>

theorem retry_hands_back_envelope:
  assumes "fst (decode raw) = Inr e" "e \<noteq> []" "floats_ok (PDict e)"
    and "int_attempts e = Inr n" "INT64_MIN \<le> n" "n \<le> INT64_MAX" "n + 1 < a_max_attempts a"
    and "app_retry_delay a (n + 1) = Inr d" "rt_calls s = []"
  shows "\<exists>body ok rest. rt_calls (snd (retry_or_dead_letter a r e exc s)) = (retry_target a r body, ok) # rest
    \<and> decode body = (Inr (dset (u ''attempts'') (PInt (n + 1)) e), [])
    \<and> (\<forall>x \<in> set rest. fst x = Ack \<or> fst x = Rewind)"
proof -
  let ?e = "dset (u ''attempts'') (PInt (n + 1)) e"
  have "dumpable (max_nesting - 1) (PInt (n + 1))"
    using assms(5,6) by (intro int64_dumpable) simp_all
  then obtain body where body: "encode ?e = Inr body" "decode body = (Inr ?e, [])"
      "without_forbidden_keys body = Inr body"
    using dset_writable [OF decode_result(1-4) [OF assms(1,2)] assms(3), of "u ''attempts''" "PInt (n + 1)"]
    by auto
  have "opens (retry_target a r body) afterwards
      (catch_exc (release a r body d) (\<lambda>e. leave_republish_unsettled a r))"
    by (intro opens_catch opens_release body(3) emits_afterwards)
  moreover have "retry_or_dead_letter a r e exc s
      = catch_exc (release a r body d) (\<lambda>e. leave_republish_unsettled a r) s"
    using assms(4,7,8) body(1)
    by (simp add: retry_or_dead_letter_def bind_op_def lift_res_def Let_def)
  ultimately obtain ok rest where
      "rt_calls (snd (retry_or_dead_letter a r e exc s)) = (retry_target a r body, ok) # rest"
      "\<forall>x \<in> set rest. afterwards (fst x)"
    using assms(9) unfolding opens_def by (metis append_Nil)
  with body(2) show ?thesis
    unfolding afterwards_def by blast
qed

text \<open>
  C6: a dead-letter record keeps the message. The record of an envelope that decoded decodes to
  the same envelope with the \<open>dead_letter\<close> block set: identity, trace, data, meta and attempts as
  they were, the block naming the reason, the original queue and the exception.
\<close>

theorem dead_letter_keeps_envelope:
  assumes "fst (decode raw) = Inr e" "e \<noteq> []" "floats_ok (PDict e)"
    and "int_attempts e = Inr n" "INT64_MIN \<le> n" "n \<le> INT64_MAX"
    and "INT64_MIN \<le> a_now_ms a (rt_shared s)" "a_now_ms a (rt_shared s) \<le> INT64_MAX"
    and "original_queue e r = Inr source" "dead_letter_target a r = Inr target" "rt_calls s = []"
  shows "\<exists>body ok rest e'. rt_calls (snd (dead_letter a r e reason exc s)) = (dead_letter_call a target body, ok) # rest
    \<and> decode body = (Inr e', [])
    \<and> (\<forall>k. k \<noteq> u ''dead_letter'' \<longrightarrow> dget e' k = dget e k)
    \<and> dget e' (u ''dead_letter'') = Some (dead_letter_block reason source n (map_option exc_str exc)
         (map_option (\<lambda>x. exc_name (exc_class_of x)) exc) SOURCE_LANG (a_now_ms a (rt_shared s)))
    \<and> (\<forall>x \<in> set rest. fst x = Ack \<or> fst x = Rewind)"
proof -
  let ?block = "dead_letter_block reason source n (map_option exc_str exc)
         (map_option (\<lambda>x. exc_name (exc_class_of x)) exc) SOURCE_LANG (a_now_ms a (rt_shared s))"
  let ?e = "dset (u ''dead_letter'') ?block e"
  have "dumpable (max_nesting - 1) ?block"
    using int64_dumpable [of n "max_nesting - 1 - 1"] int64_dumpable [of "a_now_ms a (rt_shared s)" "max_nesting - 1 - 1"]
      assms(5-8)
    by (cases exc) (auto simp: dead_letter_block_def opt_str_def max_nesting_def)
  then obtain body where body: "encode ?e = Inr body" "decode body = (Inr ?e, [])"
    using dset_writable [OF decode_result(1-4) [OF assms(1,2)] assms(3), of "u ''dead_letter''" ?block] block_ok
    by auto
  have "dead_letter a r e reason exc s = write_dead_letter a r target body source reason s"
    using assms(4,9,10) body(1)
    by (simp add: dead_letter_def bind_op_def lift_res_def Let_def annotate_def)
  then obtain ok rest where
      "rt_calls (snd (dead_letter a r e reason exc s)) = (dead_letter_call a target body, ok) # rest"
      "\<forall>x \<in> set rest. afterwards (fst x)"
    using opens_write_dead_letter [of a target body r source reason] assms(11)
    unfolding opens_def by (metis append_Nil)
  with body(2) show ?thesis
    unfolding afterwards_def by (intro exI [of _ body] exI [of _ ok] exI [of _ rest] exI [of _ ?e]) auto
qed

text \<open>
  C31: a body whose \<open>attempts\<close> is \<open>null\<close> is not poison, yet it cannot be retried or dead-lettered:
  when no handler is registered for it (strategy \<open>fail\<close>), \<open>int(None)\<close> raises a \<open>TypeError\<close> that leaves
  \<open>dispatch\<close> itself, so it ends the consume loop, and the delivery stays unsettled.
\<close>

theorem null_attempts_leaves_dispatch:
  assumes "delivery_envelope a r = Inr e" "delivery_poison_cause a r = None"
    and "dget e (u ''attempts'') = Some PNone" "rm_route r = Route []"
    and "delivery_handler a r (delivery_urn r e) = None"
    and "a_on_unknown_urn a = FAIL" "rt_calls s = []"
  shows "(\<exists>err. fst (dispatch a r s) = Inl err \<and> exc_class_of err = TypeError)
    \<and> acks (snd (dispatch a r s)) = 0 \<and> placed (snd (dispatch a r s)) = 0"
proof -
  have g: "\<not> is_gated r" "route_str (rm_route r) \<noteq> NON_NUMERIC_ATTEMPTS_ROUTE"
    using assms(4) by (simp_all add: is_gated_def UNSUPPORTED_SCHEMA_ROUTE_PREFIX_def NON_NUMERIC_ATTEMPTS_ROUTE_def
        starts_with_def)
  have s: "FAIL \<noteq> DELETE" "FAIL \<noteq> RELEASE" "FAIL \<noteq> DEAD_LETTER"
    by (simp_all add: FAIL_def DELETE_def RELEASE_def DEAD_LETTER_def)
  obtain err where tried: "dispatch_try a r e s = (Inl err, s\<lparr>rt_phase := Settling\<rparr>)"
      "exc_class_of err = UnknownUrnError"
    using assms(2,4-6) g s
    by (simp add: dispatch_try_def Let_def then_op_def bind_op_def set_phase_def modify_def route_unknown_def
        raise_op_def)
  have "int_attempts e = Inl (Exc TypeError (u ''int() argument must be a string, a bytes-like object or a real number''))"
    using assms(3) by (simp add: int_attempts_def)
  then have fail: "dispatch_failed a r e err s'
      = (Inl (Exc TypeError (u ''int() argument must be a string, a bytes-like object or a real number'')),
         s'\<lparr>rt_phase := Settling\<rparr>)" for s'
    using assms(2) g(1)
    by (simp add: dispatch_failed_def then_op_def bind_op_def set_phase_def modify_def
        retry_or_dead_letter_def lift_res_def)
  have "dispatch a r s = (Inl (Exc TypeError (u ''int() argument must be a string, a bytes-like object or a real number'')),
      leave_phase (s\<lparr>rt_phase := Settling\<rparr>))"
    using assms(1) tried fail [of "s\<lparr>rt_phase := Settling\<rparr>"]
    by (simp add: dispatch_def bind_op_def lift_res_def finally_op_def dispatch_core_def is_Exception_def)
  then show ?thesis
    using assms(7) by (simp add: acks_def placed_def leave_phase_def)
qed

end
