(* ===== verification/Lifecycle.thy ===== *)
theory Lifecycle
  imports Retry
begin

text \<open>
  The life of a consumer: the bounded consume loop ends, the shutdown signals interrupt only what
  they may, and a published message decodes to the envelope that was reported.
\<close>

section \<open>The loop\<close>

lemma consume_step_count:
  assumes "consume_step a target True processed s = (res, s')"
  shows "case res of Inl ex \<Rightarrow> ex_processed ex = processed | Inr p \<Rightarrow> p = Suc processed"
  using assms
  by (auto simp: consume_step_def exit_of_def Let_def split: prod.splits sum.splits option.splits if_splits)

lemma consume_loop_ends:
  "m - processed < fuel \<Longrightarrow>
     \<exists>ex s'. consume_loop fuel a target (Some m) processed s = Some (ex, s')
       \<and> processed \<le> ex_processed ex \<and> ex_processed ex \<le> max processed m"
proof (induction fuel arbitrary: processed s)
  case (Suc fuel)
  show ?case
  proof (cases "sh_stop (rt_shared s) \<or> m \<le> processed")
    case True
    then show ?thesis by (simp add: exit_of_def)
  next
    case False
    obtain res s1 where st: "consume_step a target True processed s = (res, s1)" by force
    show ?thesis
    proof (cases res)
      case (Inl ex)
      with consume_step_count [OF st] st False show ?thesis by simp
    next
      case (Inr p)
      with consume_step_count [OF st] have p: "p = Suc processed" by simp
      have "processed < m" using False by simp
      with Suc.prems p have "m - p < fuel" by arith
      from Suc.IH [OF this, of s1] Inr st False p show ?thesis by auto
    qed
  qed
qed simp

section \<open>Signals\<close>

text \<open>
  The consumer as a state machine: whether \<open>consume\<close> runs, its phase and the shared flags. A step is
  a signal, the expiry of the deadline, a move of the runtime to the next phase, another thread's
  \<open>stop()\<close>, or the entry and the exit of \<open>consume\<close>. Its label is the exception raised in the
  interrupted code, if any; the dispatch it interrupts leaves the phase idle.
\<close>

record 'w life =
  lf_running :: bool
  lf_phase :: phase
  lf_shared :: "'w shared"

inductive life_step :: "'w app \<Rightarrow> 'w life \<Rightarrow> exc option \<Rightarrow> 'w life \<Rightarrow> bool" for a where
  signal: "on_shutdown_signal a (lf_phase l) (lf_shared l) = (Inr (), w) \<Longrightarrow> lf_running l \<Longrightarrow>
     life_step a l None (l\<lparr>lf_shared := w\<rparr>)"
| interrupt: "on_shutdown_signal a (lf_phase l) (lf_shared l) = (Inl e, w) \<Longrightarrow> lf_running l \<Longrightarrow>
     life_step a l (Some e) (l\<lparr>lf_shared := w, lf_phase := Idle\<rparr>)"
| deadline: "deadline_expires a (lf_phase l) (lf_shared l) = (Inr (), w) \<Longrightarrow> lf_running l \<Longrightarrow>
     life_step a l None (l\<lparr>lf_shared := w\<rparr>)"
| deadline_interrupt: "deadline_expires a (lf_phase l) (lf_shared l) = (Inl e, w) \<Longrightarrow> lf_running l \<Longrightarrow>
     life_step a l (Some e) (l\<lparr>lf_shared := w, lf_phase := Idle\<rparr>)"
| handle: "lf_running l \<Longrightarrow> lf_phase l = Idle \<Longrightarrow> life_step a l None (l\<lparr>lf_phase := Handling\<rparr>)"
| settle: "lf_running l \<Longrightarrow> life_step a l None (l\<lparr>lf_phase := Settling\<rparr>)"
| idle: "lf_running l \<Longrightarrow> lf_phase l = Settling \<Longrightarrow> life_step a l None (l\<lparr>lf_phase := Idle\<rparr>)"
| stop: "life_step a l None (l\<lparr>lf_shared := stop_consume (lf_shared l)\<rparr>)"
| enter: "\<not> lf_running l \<Longrightarrow>
     life_step a l None
       (l\<lparr>lf_running := True, lf_shared := (lf_shared l)\<lparr>sh_signalled := False, sh_deadline_hit := False\<rparr>\<rparr>)"
| leave: "lf_running l \<Longrightarrow> lf_phase l = Idle \<Longrightarrow>
     life_step a l None
       (l\<lparr>lf_running := False, lf_shared := (lf_shared l)\<lparr>sh_deadline_timer := False, sh_stop := False\<rparr>\<rparr>)"

inductive_cases life_stepE: "life_step a l x l'"
inductive_simps life_raises: "life_step a l (Some e) l'"

definition initial_life :: "'w \<Rightarrow> 'w life" where
  "initial_life w =
     \<lparr>lf_running = False, lf_phase = Idle,
      lf_shared = \<lparr>sh_stop = False, sh_signalled = False, sh_deadline_hit = False, sh_deadline_timer = False,
                  sh_env = w\<rparr>\<rparr>"

inductive reachable :: "'w app \<Rightarrow> 'w \<Rightarrow> 'w life \<Rightarrow> bool" for a w where
  init: "reachable a w (initial_life w)"
| step: "reachable a w l \<Longrightarrow> life_step a l x l' \<Longrightarrow> reachable a w l'"

text \<open>
  A deadline runs only after a signal of a running consumer stopped it, and it has expired only
  after such a signal; an idle consumer has neither.
\<close>

definition life_inv :: "'w life \<Rightarrow> bool" where
  "life_inv l \<longleftrightarrow>
     (sh_deadline_timer (lf_shared l) \<longrightarrow> lf_running l \<and> sh_signalled (lf_shared l) \<and> sh_stop (lf_shared l)) \<and>
     (lf_running l \<longrightarrow> sh_deadline_hit (lf_shared l) \<longrightarrow> sh_signalled (lf_shared l) \<and> sh_stop (lf_shared l)) \<and>
     (lf_running l \<longrightarrow> sh_signalled (lf_shared l) \<longrightarrow> sh_stop (lf_shared l)) \<and>
     (\<not> lf_running l \<longrightarrow> lf_phase l = Idle)"

lemma life_inv_step: "life_step a l x l' \<Longrightarrow> life_inv l \<Longrightarrow> life_inv l'"
  by (induction rule: life_step.induct)
     (auto simp: life_inv_def on_shutdown_signal_def deadline_expires_def stop_consume_def Let_def split: if_splits)

lemma reachable_inv: "reachable a w l \<Longrightarrow> life_inv l"
proof (induction rule: reachable.induct)
  case init
  show ?case by (simp add: life_inv_def initial_life_def)
next
  case (step l x l')
  then show ?case by (blast intro: life_inv_step)
qed

section \<open>Publishing\<close>

lemma make_envelope_plain:
  assumes "make_envelope urn0 data queue trace_id PNone fresh_trace fresh_id now_ms = Inr e"
  shows "is_valid_urn (dget e (u ''job''))" "dget e (u ''job'') = Some (PStr (strip ASCII_WHITESPACE urn0))"
    and "wf_val (PDict data) \<Longrightarrow> wf_val (PDict e)" and "floats_ok (PDict data) \<Longrightarrow> floats_ok (PDict e)"
    and "published_id \<lparr>pr_envelope = Some e, pr_error = None\<rparr> = Inr (PStr fresh_id)"
proof -
  obtain trace where u: "strip ASCII_WHITESPACE urn0 \<noteq> []"
    and e: "e = [(u ''job'', PStr (strip ASCII_WHITESPACE urn0)), (u ''trace_id'', PStr trace), (u ''data'', PDict data),
        (u ''meta'', PDict [(u ''id'', PStr fresh_id), (u ''queue'', PStr queue), (u ''lang'', PStr SOURCE_LANG),
            (u ''schema_version'', PInt SCHEMA_VERSION), (u ''created_at'', PInt now_ms)]),
        (u ''attempts'', PInt 0)]"
    using assms
    by (auto simp: make_envelope_def Let_def producer_meta_def dupdate_def split: if_splits)
  show "is_valid_urn (dget e (u ''job''))" "dget e (u ''job'') = Some (PStr (strip ASCII_WHITESPACE urn0))"
    using u by (simp_all add: e is_valid_urn_def)
  show "wf_val (PDict data) \<Longrightarrow> wf_val (PDict e)" "floats_ok (PDict data) \<Longrightarrow> floats_ok (PDict e)"
    "published_id \<lparr>pr_envelope = Some e, pr_error = None\<rparr> = Inr (PStr fresh_id)"
    by (simp_all add: e published_id_def)
qed

definition publish_target :: "'w app \<Rightarrow> pystr option \<Rightarrow> pystr" where
  "publish_target a queue = (case queue of None \<Rightarrow> a_queue a | Some q \<Rightarrow> if q = [] then a_queue a else q)"

definition publish_call :: "'w app \<Rightarrow> pystr \<Rightarrow> pystr \<Rightarrow> headers \<Rightarrow> ('w shared, unit) op" where
  "publish_call a target body hs =
     (case t_publish_with_headers (a_transport a) of
        Some with_headers \<Rightarrow> if hs \<noteq> [] then with_headers target body hs else t_publish (a_transport a) target body
      | None \<Rightarrow> t_publish (a_transport a) target body)"

lemma publish_envelope_eq:
  "publish_envelope a urn0 data queue trace_id hs ft fi now s =
     (case bind_res (make_envelope urn0 data (publish_target a queue) trace_id PNone ft fi now)
             (\<lambda>e. bind_res (encode e) (\<lambda>body. Inr (e, body))) of
        Inl err \<Rightarrow> (Inr \<lparr>pr_envelope = None, pr_error = Some err\<rparr>, s)
      | Inr (e, body) \<Rightarrow>
          (case publish_call a (publish_target a queue) body hs s of
             (Inl err, s') \<Rightarrow>
               if is_Exception err then (Inr \<lparr>pr_envelope = Some e, pr_error = Some err\<rparr>, s') else (Inl err, s')
           | (Inr x, s') \<Rightarrow> (Inr \<lparr>pr_envelope = Some e, pr_error = None\<rparr>, s')))"
proof -
  have c: "(case t_publish_with_headers (a_transport a) of
                          Some with_headers \<Rightarrow>
                            if hs \<noteq> [] then with_headers t body hs s
                            else t_publish (a_transport a) t body s
                        | None \<Rightarrow> t_publish (a_transport a) t body s) = publish_call a t body hs s" for t body
    by (simp add: publish_call_def split: option.split)
  show ?thesis
    unfolding publish_envelope_def Let_def publish_target_def [symmetric] c by simp
qed

section \<open>Properties\<close>

text \<open>
  A bounded consume ends. With \<open>max_messages=m\<close> the loop takes at most \<open>m + 1\<close> iterations on
  any transport and any handlers, and counts at most \<open>m\<close> messages.
\<close>

theorem bounded_consume_returns:
  "\<exists>ex s'. consume_loop (Suc m) a target (Some m) 0 s = Some (ex, s') \<and> ex_processed ex \<le> m"
  using consume_loop_ends [of m 0 "Suc m" a target s] by auto

text \<open>
  A shutdown signal never interrupts a settlement. In every reachable state of the consumer, a
  signal or an expired deadline that raises does so outside the settling phase and after a first
  signal had set the stop flag, and the deadline exception interrupts a running handler only.
\<close>

theorem signals_spare_settlement:
  assumes "reachable a w l" "life_step a l (Some e) l'"
  shows "lf_phase l \<noteq> Settling \<and> sh_signalled (lf_shared l') \<and> sh_stop (lf_shared l')
    \<and> (exc_class_of e = ShutdownDeadline \<and> lf_phase l = Handling
       \<or> exc_class_of e = KeyboardInterrupt \<and> sh_signalled (lf_shared l))"
  using assms(2) reachable_inv [OF assms(1)]
  by (auto simp: life_raises life_inv_def on_shutdown_signal_def deadline_expires_def Let_def split: if_splits)

text \<open>
  A publish that reports no error sent the envelope it reports. The body handed to the
  transport, for the queue asked for, decodes to that envelope, whose id is the one returned.
\<close>

theorem publish_sends_reported_envelope:
  assumes "publish_envelope a urn0 data queue trace_id hs ft fi now s = (Inr p, s')" "pr_error p = None"
    and "wf_val (PDict data)" "floats_ok (PDict data)"
  shows "\<exists>e body. pr_envelope p = Some e \<and> decode body = (Inr e, []) \<and> urn e = strip ASCII_WHITESPACE urn0
    \<and> published_id p = Inr (PStr fi)
    \<and> publish_call a (publish_target a queue) body hs s = (Inr (), s')"
proof -
  obtain e body where e: "make_envelope urn0 data (publish_target a queue) trace_id PNone ft fi now = Inr e"
      "encode e = Inr body"
    and c: "publish_call a (publish_target a queue) body hs s = (Inr (), s')"
    and p: "p = \<lparr>pr_envelope = Some e, pr_error = None\<rparr>"
    using assms(1,2)
    by (auto simp: publish_envelope_eq bind_res_Inr split: sum.splits prod.splits if_splits)
  note m = make_envelope_plain [OF e(1)]
  note d = encode_decodes [OF e(2) m(1) m(3) [OF assms(3)] m(4) [OF assms(4)]]
  have "decode body = (Inr e, [])"
    by (rule decode_object(1) [OF d(1,3,2)])
  moreover have "urn e = strip ASCII_WHITESPACE urn0"
    using m(1,2) by (simp add: urn_eq)
  ultimately show ?thesis
    using c p m(5) by (intro exI [of _ e] exI [of _ body]) simp
qed

end
