(* ===== verification/Witnesses.thy ===== *)
theory Witnesses
  imports Lifecycle
begin

text \<open>
  The theorems of \<open>Settlement\<close>, \<open>Behaviour\<close>, \<open>Retry\<close> and \<open>Lifecycle\<close> applied to one concrete consumer:
  the in-process transport, one handler, one queue and one well-formed message, each in the
  configuration that reaches the branch the theorem speaks of.
\<close>

section \<open>A consumer\<close>

definition demo_transport :: "memory shared transport" where
  "demo_transport = memory_transport sh_env (\<lambda>m w. w\<lparr>sh_env := m\<rparr>)"

definition demo_app :: "(memory shared, unit) op \<Rightarrow> pystr \<Rightarrow> int \<Rightarrow> memory app" where
  "demo_app run strategy max_attempts =
     \<lparr>a_transport = demo_transport,
      a_handlers = [(u ''urn:x'', \<lparr>wants_envelope = False, run_handler = (\<lambda>hs replay data meta e. run)\<rparr>)],
      a_queue = u ''q'', a_on_unknown_urn = strategy, a_max_attempts = max_attempts, a_dead_letter = True,
      a_dead_letter_queue = None, a_dead_letter_suffix = None, a_retry_backoff = 0, a_retry_multiplier = 1,
      a_retry_max = 0, a_retry_jitter = u ''none'', a_uniform = (\<lambda>x y. x), a_unknown_delay = 0,
      a_shutdown_timeout = 30, a_observer = None, a_now_ms = (\<lambda>w. 1000)\<rparr>"

definition demo_message :: "pystr \<Rightarrow> received_message" where
  "demo_message body =
     \<lparr>rm_body = body, rm_queue = u ''q'', rm_handle = 0, rm_headers = [], rm_route = Route [], rm_key = None,
      rm_native_attempts = 0\<rparr>"

definition demo_state :: "memory rt" where
  "demo_state =
     \<lparr>rt_phase = Idle, rt_last_phase = Idle, rt_calls = [], rt_logs = [],
      rt_shared = \<lparr>sh_stop = False, sh_signalled = False, sh_deadline_hit = False, sh_deadline_timer = False,
                   sh_env = \<lparr>m_queues = [], m_headers = []\<rparr>\<rparr>\<rparr>"

definition null_attempts_body :: pystr where
  "null_attempts_body = u ''{\"job\":\"urn:y\",\"attempts\":null}''"

lemma demo_calls [simp]: "rt_calls demo_state = []"
  by (simp add: demo_state_def)

lemma demo_handled:
  "dispatch (demo_app (ret ()) FAIL 3) (demo_message demo_body) demo_state
     = (Inr (), demo_state\<lparr>rt_calls := [(Handler (u ''urn:x''), True), (Ack, True)], rt_last_phase := Settling\<rparr>)"
  by code_simp

definition demo_interrupt :: exc where
  "demo_interrupt = Exc KeyboardInterrupt []"

text \<open>The state an interrupt in the handler leaves, and the one the release then leaves.\<close>

definition demo_interrupted :: "memory rt" where
  "demo_interrupted =
     demo_state\<lparr>rt_calls := [(Handler (u ''urn:x''), False)], rt_last_phase := Handling\<rparr>"

definition demo_released :: "memory rt" where
  "demo_released =
     demo_interrupted
       \<lparr>rt_calls := [(Handler (u ''urn:x''), False), (Write (u ''q'') demo_body, True), (Ack, True)],
        rt_shared := (rt_shared demo_state)
          \<lparr>sh_env := \<lparr>m_queues = [(u ''q'', [demo_body])], m_headers = [(u ''q'', [[]])]\<rparr>\<rparr>\<rparr>"

lemma demo_interrupt_dispatch:
  "dispatch (demo_app (raise_op demo_interrupt) FAIL 3) (demo_message demo_body) demo_state
     = (Inl demo_interrupt, demo_interrupted)"
  by code_simp

lemma demo_interrupt_release:
  "after_loop (demo_app (raise_op demo_interrupt) FAIL 3)
     \<lparr>ex_processed = 0, ex_inflight = Some (demo_message demo_body), ex_exc = Some demo_interrupt\<rparr> demo_interrupted
     = (Inr (), demo_released)"
  by code_simp

section \<open>Settling\<close>

theorem dispatch_settles_once_witness:
  "acks (demo_state\<lparr>rt_calls := [(Handler (u ''urn:x''), True), (Ack, True)], rt_last_phase := Settling\<rparr>) \<le> 1"
  using dispatch_settles_once [OF demo_calls demo_handled] by blast


theorem interrupt_releases_once_witness: "acks demo_released \<le> 1 \<and> placed demo_released \<le> 1"
proof -
  have "exc_class_of demo_interrupt = KeyboardInterrupt"
    by (simp add: demo_interrupt_def)
  from interrupt_releases_once [OF demo_calls demo_interrupt_dispatch this demo_interrupt_release]
  show ?thesis by blast
qed

section \<open>Retrying and dead-lettering\<close>

lemma demo_lenient: "fst (decode demo_body) = Inr demo_envelope"
  by (simp add: demo_decode)

lemma demo_attempts: "int_attempts demo_envelope = Inr 0"
  by code_simp

theorem retry_hands_back_envelope_witness:
  "\<exists>body. decode body = (Inr (dset (u ''attempts'') (PInt (0 + 1)) demo_envelope), [])"
proof -
  let ?a = "demo_app (ret ()) FAIL 3"
  have "INT64_MIN \<le> 0" "0 \<le> INT64_MAX" "0 + 1 < a_max_attempts ?a" "app_retry_delay ?a (0 + 1) = Inr 0"
    by (simp_all add: INT64_MIN_def INT64_MAX_def demo_app_def app_retry_delay_def retry_delay_def float_pow_def
        float_range_def)
  from retry_hands_back_envelope [OF demo_lenient demo_writable(4,3) demo_attempts this demo_calls] show ?thesis
    by blast
qed

theorem dead_letter_keeps_envelope_witness:
  "\<exists>body e'. decode body = (Inr e', []) \<and> dget e' (u ''trace_id'') = Some (PStr (u ''t''))"
proof -
  let ?a = "demo_app (ret ()) FAIL 3" and ?r = "demo_message demo_body"
  have i: "INT64_MIN \<le> 0" "0 \<le> INT64_MAX"
    "INT64_MIN \<le> a_now_ms ?a (rt_shared demo_state)" "a_now_ms ?a (rt_shared demo_state) \<le> INT64_MAX"
    by (simp_all add: INT64_MIN_def INT64_MAX_def demo_app_def)
  have t: "original_queue demo_envelope ?r = Inr (u ''q'')" "dead_letter_target ?a ?r = Inr (u ''q.dlq'')"
    by code_simp+
  from dead_letter_keeps_envelope [OF demo_lenient demo_writable(4,3) demo_attempts i t demo_calls]
  obtain body e' where "decode body = (Inr e', [])"
      "\<forall>k. k \<noteq> u ''dead_letter'' \<longrightarrow> dget e' k = dget demo_envelope k"
    by blast
  then have "decode body = (Inr e', []) \<and> dget e' (u ''trace_id'') = Some (PStr (u ''t''))"
    by (simp add: demo_envelope_def)
  then show ?thesis by blast
qed

theorem null_attempts_leaves_dispatch_witness:
  "\<exists>err. fst (dispatch (demo_app (ret ()) FAIL 3) (demo_message null_attempts_body) demo_state) = Inl err
     \<and> exc_class_of err = TypeError"
proof -
  let ?a = "demo_app (ret ()) FAIL 3" and ?r = "demo_message null_attempts_body"
  let ?e = "[(u ''job'', PStr (u ''urn:y'')), (u ''attempts'', PNone)]"
  have e: "delivery_envelope ?a ?r = Inr ?e" "delivery_poison_cause ?a ?r = None"
    by code_simp+
  have h: "dget ?e (u ''attempts'') = Some PNone" "rm_route ?r = Route []"
    "delivery_handler ?a ?r (delivery_urn ?r ?e) = None" "a_on_unknown_urn ?a = FAIL"
    by (simp_all add: demo_message_def demo_app_def delivery_handler_def delivery_urn_def get_or_none_def
        py_str_def)
  from null_attempts_leaves_dispatch [OF e h demo_calls] show ?thesis by blast
qed

section \<open>Signals and publishing\<close>

text \<open>A second signal while the runtime is idle.\<close>

theorem signals_spare_settlement_witness:
  "\<exists>l l'. reachable (demo_app (ret ()) FAIL 3) \<lparr>m_queues = [], m_headers = []\<rparr> l
     \<and> life_step (demo_app (ret ()) FAIL 3) l (Some demo_interrupt) l' \<and> lf_phase l \<noteq> Settling"
proof -
  let ?a = "demo_app (ret ()) FAIL 3" and ?w = "\<lparr>m_queues = [], m_headers = []\<rparr> :: memory"
  let ?l0 = "initial_life ?w"
  let ?l1 = "?l0\<lparr>lf_running := True,
      lf_shared := (lf_shared ?l0)\<lparr>sh_signalled := False, sh_deadline_hit := False\<rparr>\<rparr>"
  let ?l2 = "?l1\<lparr>lf_shared := (lf_shared ?l1)\<lparr>sh_signalled := True, sh_stop := True\<rparr>\<rparr>"
  have "life_step ?a ?l0 None ?l1"
    by (rule life_step.enter) (simp add: initial_life_def)
  moreover have "life_step ?a ?l1 None ?l2"
    by (rule life_step.signal) (simp_all add: initial_life_def on_shutdown_signal_def)
  ultimately have r: "reachable ?a ?w ?l2"
    by (blast intro: reachable.intros)
  have s: "life_step ?a ?l2 (Some demo_interrupt) (?l2\<lparr>lf_shared := lf_shared ?l2, lf_phase := Idle\<rparr>)"
    by (rule life_step.interrupt) (simp_all add: initial_life_def on_shutdown_signal_def demo_interrupt_def)
  from signals_spare_settlement [OF r s] r s show ?thesis by blast
qed

theorem publish_sends_reported_envelope_witness:
  "\<exists>e body. decode body = (Inr e, []) \<and> urn e = u ''urn:x''"
proof -
  let ?a = "demo_app (ret ()) FAIL 3" and ?d = "[(u ''n'', PInt 1)]" and ?w = "rt_shared demo_state"
  let ?r = "publish_envelope ?a (u '' urn:x'') ?d None None [] (u ''t'') (u ''1'') 0 ?w"
  have "case ?r of (Inr p, s') \<Rightarrow> pr_error p = None | _ \<Rightarrow> False"
    by code_simp
  then obtain p s' where p: "?r = (Inr p, s')" "pr_error p = None"
    by (auto split: prod.splits sum.splits)
  have "wf_val (PDict ?d)" "floats_ok (PDict ?d)" by simp_all
  from publish_sends_reported_envelope [OF p this] obtain e body where
    "decode body = (Inr e, [])" "urn e = strip ASCII_WHITESPACE (u '' urn:x'')" by blast
  moreover have "strip ASCII_WHITESPACE (u '' urn:x'') = u ''urn:x''"
    by code_simp
  ultimately show ?thesis by metis
qed

end
