(* ===== verification/Outbox.thy ===== *)
theory Outbox
  imports Transport "HOL-Library.Sublist"
begin

text \<open>
  \<open>outbox.py\<close>: the transactional outbox. \<open>Outbox.write\<close> stores an encoded envelope, \<open>OutboxRelay\<close>
  publishes the stored rows and marks each published or failed, \<open>InMemoryOutboxStore\<close> is the
  reference store. What the relay needs of a store is the locale \<open>outbox_contract\<close>; the relay's
  guarantees are proved inside it and reach the reference store by an interpretation.
\<close>

section \<open>Records and stores\<close>

record outbox_record =
  or_id :: pystr
  or_body :: pystr
  or_queue :: pystr
  or_attempts :: int

record relay_result =
  rr_published :: nat
  rr_failed :: nat

definition rr_attempted :: "relay_result \<Rightarrow> nat" where
  "rr_attempted r = rr_published r + rr_failed r"

text \<open>The protocol \<open>OutboxStore\<close>: operations of a store with state \<open>'st\<close>, which may raise.\<close>

record 'st outbox_store =
  os_save :: "pystr \<Rightarrow> pystr \<Rightarrow> ('st, pystr) op"
  os_fetch_unpublished :: "int \<Rightarrow> ('st, outbox_record list) op"
  os_mark_published :: "pystr list \<Rightarrow> ('st, unit) op"
  os_mark_failed :: "pystr \<Rightarrow> pystr \<Rightarrow> ('st, unit) op"

section \<open>The write side\<close>

definition queue_of :: "pyval dict \<Rightarrow> pystr" where
  "queue_of envelope =
     (case dget envelope (u ''meta'') of
        Some (PDict meta) \<Rightarrow>
          (case dget meta (u ''queue'') of
             Some (PStr q) \<Rightarrow> if q \<noteq> [] then q else u ''default''
           | _ \<Rightarrow> u ''default'')
      | _ \<Rightarrow> u ''default'')"

definition outbox_write :: "'st outbox_store \<Rightarrow> pyval dict \<Rightarrow> ('st, pystr) op" where
  "outbox_write store envelope =
     (let queue = queue_of envelope
      in bind_op (lift_res (encode envelope)) (\<lambda>encoded. os_save store encoded queue))"

section \<open>The relay\<close>

text \<open>
  The broker and the store are separate state; \<open>ow_sent\<close> is history: the queue and body of every
  publish that returned, oldest first. Sleeping is an operation of the surroundings.
\<close>

record ('w, 'st) relay_world =
  ow_broker :: 'w
  ow_store :: 'st
  ow_sent :: "(pystr \<times> pystr) list"

record ('w, 'st) outbox_relay =
  rl_publish :: "pystr \<Rightarrow> pystr \<Rightarrow> ('w, unit) op"
  rl_store :: "'st outbox_store"
  rl_batch_size :: int
  rl_backoff_step :: rat
  rl_backoff_cap :: rat
  rl_sleeper :: "rat \<Rightarrow> ('w, unit) op"

definition on_store :: "('st, 'a) op \<Rightarrow> (('w, 'st) relay_world, 'a) op" where
  "on_store f = (\<lambda>s. case f (ow_store s) of (r, st) \<Rightarrow> (r, s\<lparr>ow_store := st\<rparr>))"

definition on_broker :: "('w, 'a) op \<Rightarrow> (('w, 'st) relay_world, 'a) op" where
  "on_broker f = (\<lambda>s. case f (ow_broker s) of (r, w) \<Rightarrow> (r, s\<lparr>ow_broker := w\<rparr>))"

definition relay_send :: "('w, 'st) outbox_relay \<Rightarrow> outbox_record \<Rightarrow> (('w, 'st) relay_world, unit) op" where
  "relay_send rl r =
     then_op (on_broker (rl_publish rl (or_queue r) (or_body r)))
       (modify (\<lambda>s. s\<lparr>ow_sent := ow_sent s @ [(or_queue r, or_body r)]\<rparr>))"

definition backoff_for :: "('w, 'st) outbox_relay \<Rightarrow> int \<Rightarrow> rat" where
  "backoff_for rl prior_attempts =
     (let delay = rl_backoff_step rl * rat_of_int (max 1 (prior_attempts + 1))
      in min delay (rl_backoff_cap rl))"

definition relay_sleep :: "('w, 'st) outbox_relay \<Rightarrow> rat \<Rightarrow> (('w, 'st) relay_world, unit) op" where
  "relay_sleep rl seconds = (if 0 < seconds then on_broker (rl_sleeper rl seconds) else ret ())"

definition relay_reason :: "exc \<Rightarrow> pystr" where
  "relay_reason e = exc_name (exc_class_of e) @ u '': '' @ exc_str e"

text \<open>One row: publish it; a raise marks it failed and backs off. \<open>True\<close> when it was published.\<close>

definition relay_one :: "('w, 'st) outbox_relay \<Rightarrow> outbox_record \<Rightarrow> (('w, 'st) relay_world, bool) op" where
  "relay_one rl r =
     catch_exc (then_op (relay_send rl r) (ret True))
       (\<lambda>e. then_op (on_store (os_mark_failed (rl_store rl) (or_id r) (relay_reason e)))
              (then_op (relay_sleep rl (backoff_for rl (or_attempts r))) (ret False)))"

text \<open>The loop over the batch: the ids published so far, in order, and how many failed.\<close>

fun relay_batch ::
  "('w, 'st) outbox_relay \<Rightarrow> outbox_record list \<Rightarrow> pystr list \<Rightarrow> nat
     \<Rightarrow> (('w, 'st) relay_world, pystr list \<times> nat) op" where
  "relay_batch rl [] ids failed = ret (ids, failed)"
| "relay_batch rl (r # rs) ids failed =
     bind_op (relay_one rl r) (\<lambda>ok.
       if ok then relay_batch rl rs (ids @ [or_id r]) failed else relay_batch rl rs ids (Suc failed))"

definition flush :: "('w, 'st) outbox_relay \<Rightarrow> (('w, 'st) relay_world, relay_result) op" where
  "flush rl =
     bind_op (on_store (os_fetch_unpublished (rl_store rl) (rl_batch_size rl))) (\<lambda>records.
     bind_op (relay_batch rl records [] 0) (\<lambda>(ids, failed).
     then_op (if ids \<noteq> [] then on_store (os_mark_published (rl_store rl) ids) else ret ())
       (ret \<lparr>rr_published = length ids, rr_failed = failed\<rparr>)))"

definition DEFAULT_DRAIN_CEILING :: nat where
  "DEFAULT_DRAIN_CEILING = 10000"

fun drain_passes ::
  "nat \<Rightarrow> ('w, 'st) outbox_relay \<Rightarrow> nat \<Rightarrow> nat \<Rightarrow> (('w, 'st) relay_world, relay_result) op" where
  "drain_passes 0 rl published failed = ret \<lparr>rr_published = published, rr_failed = failed\<rparr>"
| "drain_passes (Suc n) rl published failed =
     bind_op (flush rl) (\<lambda>result.
       let published' = published + rr_published result; failed' = failed + rr_failed result
       in if rr_published result = 0 then ret \<lparr>rr_published = published', rr_failed = failed'\<rparr>
          else drain_passes n rl published' failed')"

definition drain_outbox :: "('w, 'st) outbox_relay \<Rightarrow> int \<Rightarrow> (('w, 'st) relay_world, relay_result) op" where
  "drain_outbox rl max_passes =
     drain_passes (if 0 < max_passes then nat max_passes else DEFAULT_DRAIN_CEILING) rl 0 0"

section \<open>The in-memory store\<close>

record outbox_row =
  row_body :: pystr
  row_queue :: pystr
  row_attempts :: int
  row_published :: bool
  row_error :: pystr

record outbox_table =
  ot_rows :: "outbox_row dict"
  ot_sequence :: nat

definition empty_table :: outbox_table where
  "empty_table = \<lparr>ot_rows = [], ot_sequence = 0\<rparr>"

definition row_id :: "nat \<Rightarrow> pystr" where
  "row_id n = u ''ob-'' @ nat_str n"

definition save :: "pystr \<Rightarrow> pystr \<Rightarrow> outbox_table \<Rightarrow> pystr res \<times> outbox_table" where
  "save encoded queue t =
     (let n = Suc (ot_sequence t);
          row = \<lparr>row_body = encoded, row_queue = queue, row_attempts = 0, row_published = False, row_error = []\<rparr>
      in (Inr (row_id n), t\<lparr>ot_sequence := n, ot_rows := dset (row_id n) row (ot_rows t)\<rparr>))"

definition record_of :: "pystr \<Rightarrow> outbox_row \<Rightarrow> outbox_record" where
  "record_of i row =
     \<lparr>or_id = i, or_body = row_body row, or_queue = row_queue row, or_attempts = row_attempts row\<rparr>"

text \<open>The limit is tested after a row was appended, so the first pending row is always returned.\<close>

fun fetch_rows :: "int \<Rightarrow> outbox_record list \<Rightarrow> outbox_row dict \<Rightarrow> outbox_record list" where
  "fetch_rows limit records [] = records"
| "fetch_rows limit records ((i, row) # rows) =
     (if row_published row then fetch_rows limit records rows
      else let records' = records @ [record_of i row]
           in if limit \<le> int (length records') then records' else fetch_rows limit records' rows)"

definition fetch_unpublished :: "int \<Rightarrow> outbox_table \<Rightarrow> outbox_record list res \<times> outbox_table" where
  "fetch_unpublished limit t = (Inr (fetch_rows limit [] (ot_rows t)), t)"

definition change_row :: "pystr \<Rightarrow> (outbox_row \<Rightarrow> outbox_row) \<Rightarrow> outbox_table \<Rightarrow> outbox_table" where
  "change_row i f t =
     (case dget (ot_rows t) i of
        None \<Rightarrow> t
      | Some row \<Rightarrow> t\<lparr>ot_rows := dset i (f row) (ot_rows t)\<rparr>)"

definition mark_published :: "pystr list \<Rightarrow> outbox_table \<Rightarrow> unit res \<times> outbox_table" where
  "mark_published ids t = (Inr (), fold (\<lambda>i. change_row i (\<lambda>row. row\<lparr>row_published := True\<rparr>)) ids t)"

definition mark_failed :: "pystr \<Rightarrow> pystr \<Rightarrow> outbox_table \<Rightarrow> unit res \<times> outbox_table" where
  "mark_failed i error t =
     (Inr (), change_row i (\<lambda>row. row\<lparr>row_attempts := row_attempts row + 1, row_error := error\<rparr>) t)"

definition pending_count :: "outbox_table \<Rightarrow> nat" where
  "pending_count t = length (filter (\<lambda>p. \<not> row_published (snd p)) (ot_rows t))"

definition attempts_of :: "pystr \<Rightarrow> outbox_table \<Rightarrow> int" where
  "attempts_of i t = (case dget (ot_rows t) i of None \<Rightarrow> 0 | Some row \<Rightarrow> row_attempts row)"

definition last_error_of :: "pystr \<Rightarrow> outbox_table \<Rightarrow> pystr" where
  "last_error_of i t = (case dget (ot_rows t) i of None \<Rightarrow> [] | Some row \<Rightarrow> row_error row)"

definition in_memory_store :: "outbox_table outbox_store" where
  "in_memory_store =
     \<lparr>os_save = save, os_fetch_unpublished = fetch_unpublished, os_mark_published = mark_published,
      os_mark_failed = mark_failed\<rparr>"

section \<open>What the relay needs of a store\<close>

definition row_msg :: "outbox_record \<Rightarrow> pystr \<times> pystr" where
  "row_msg r = (or_queue r, or_body r)"

definition row_key :: "outbox_record \<Rightarrow> pystr \<times> pystr \<times> pystr" where
  "row_key r = (or_id r, row_msg r)"

lemma relay_send_cases:
  assumes "relay_send rl r s = (res, s')"
  shows "ow_store s' = ow_store s \<and> ow_sent s' = ow_sent s @ (if isl res then [] else [row_msg r])"
  using assms
  by (auto simp: relay_send_def then_op_def bind_op_def on_broker_def modify_def row_msg_def
      split: prod.splits sum.splits)

lemma relay_sleep_cases:
  "relay_sleep rl d s = (res, s') \<Longrightarrow> ow_store s' = ow_store s \<and> ow_sent s' = ow_sent s"
  by (auto simp: relay_sleep_def on_broker_def ret_def split: prod.splits if_splits)

text \<open>From rows \<open>K\<close> and messages sent \<open>S\<close>, every row stays or its message is sent, and nothing else is.\<close>

definition kept :: "('a \<times> 'b) set \<Rightarrow> 'b set \<Rightarrow> ('a \<times> 'b) set \<Rightarrow> 'b set \<Rightarrow> bool" where
  "kept K S K' S' \<longleftrightarrow> (\<forall>k \<in> K. k \<in> K' \<or> snd k \<in> S') \<and> S \<subseteq> S' \<and> S' \<subseteq> S \<union> snd ` K \<and> K' \<subseteq> K"

lemma kept_trans:
  assumes "kept K S K1 S1" "kept K1 S1 K2 S2"
  shows "kept K S K2 S2"
proof -
  have "\<forall>k \<in> K. k \<in> K2 \<or> snd k \<in> S2"
    using assms unfolding kept_def by (metis subsetD)
  moreover have "snd ` K1 \<subseteq> snd ` K"
    using assms(1) by (intro image_mono) (simp add: kept_def)
  then have "S2 \<subseteq> S \<union> snd ` K"
    using assms unfolding kept_def by (meson Un_least le_supI2 order_trans)
  ultimately show ?thesis
    using assms unfolding kept_def by (meson order_trans)
qed

locale outbox_contract =
  fixes store :: "'st outbox_store"
    and inv :: "'st \<Rightarrow> bool"
    and pending :: "'st \<Rightarrow> outbox_record list"
  assumes save_appends: "inv st \<Longrightarrow> os_save store body queue st = (saved, st') \<Longrightarrow>
        inv st' \<and> (\<exists>i. saved = Inr i \<and>
          pending st' = pending st @ [\<lparr>or_id = i, or_body = body, or_queue = queue, or_attempts = 0\<rparr>])"
    and fetch_oldest: "inv st \<Longrightarrow> 0 < n \<Longrightarrow>
        os_fetch_unpublished store n st = (Inr (take (nat n) (pending st)), st)"
    and mark_published_drops: "inv st \<Longrightarrow> os_mark_published store ids st = (res, st') \<Longrightarrow>
        res = Inr () \<and> inv st' \<and> pending st' = filter (\<lambda>x. or_id x \<notin> set ids) (pending st)"
    and mark_failed_keeps: "inv st \<Longrightarrow> os_mark_failed store i err st = (res, st') \<Longrightarrow>
        res = Inr () \<and> inv st' \<and> map row_key (pending st') = map row_key (pending st)"
    and pending_distinct: "inv st \<Longrightarrow> distinct (map or_id (pending st))"
begin

abbreviation keys :: "('w, 'st) relay_world \<Rightarrow> (pystr \<times> pystr \<times> pystr) list" where
  "keys s \<equiv> map row_key (pending (ow_store s))"

lemma relay_one_step:
  assumes "relay_one rl r s = (res, s')" "rl_store rl = store" "inv (ow_store s)"
  shows "inv (ow_store s') \<and> keys s' = keys s
    \<and> (\<exists>sent. ow_sent s' = ow_sent s @ (if sent then [row_msg r] else []) \<and> (\<forall>ok. res = Inr ok \<longrightarrow> ok = sent))"
proof -
  obtain r1 s1 where s1: "relay_send rl r s = (r1, s1)" by force
  note c1 = relay_send_cases [OF s1]
  show ?thesis
  proof (cases r1)
    case (Inr x)
    with assms(1) s1 have "res = Inr True" "s' = s1"
      by (simp_all add: relay_one_def catch_exc_def then_op_def bind_op_def ret_def)
    with c1 Inr assms(3) show ?thesis by (intro conjI exI [of _ True]) simp_all
  next
    case (Inl e)
    show ?thesis
    proof (cases "is_Exception e")
      case False
      with assms(1) s1 Inl have "res = Inl e" "s' = s1"
        by (simp_all add: relay_one_def catch_exc_def then_op_def bind_op_def)
      with c1 Inl assms(3) show ?thesis by (intro conjI exI [of _ False]) simp_all
    next
      case True
      obtain r2 st2 where m: "os_mark_failed store (or_id r) (relay_reason e) (ow_store s1) = (r2, st2)" by force
      have "inv (ow_store s1)" using assms(3) c1 by simp
      note k = mark_failed_keeps [OF this m]
      obtain r3 s3 where z: "relay_sleep rl (backoff_for rl (or_attempts r)) (s1\<lparr>ow_store := st2\<rparr>) = (r3, s3)"
        by force
      have "s' = s3" "\<forall>ok. res = Inr ok \<longrightarrow> \<not> ok"
        using assms(1,2) s1 Inl True m k z
        by (auto simp: relay_one_def catch_exc_def then_op_def bind_op_def on_store_def ret_def split: sum.splits)
      with c1 Inl k relay_sleep_cases [OF z] show ?thesis
        by (intro conjI exI [of _ False]) auto
    qed
  qed
qed

lemma relay_batch_steps:
  assumes "relay_batch rl rs ids failed s = (res, s')" "rl_store rl = store" "inv (ow_store s)"
  shows "inv (ow_store s') \<and> keys s' = keys s
    \<and> (\<exists>ps. subseq ps rs \<and> ow_sent s' = ow_sent s @ map row_msg ps
         \<and> (\<forall>ids' failed'. res = Inr (ids', failed') \<longrightarrow>
              ids' = ids @ map or_id ps \<and> failed' + length ps = failed + length rs))"
  using assms(1,3)
proof (induction rs arbitrary: ids failed s)
  case Nil
  then show ?case by (auto simp: ret_def)
next
  case (Cons r rs)
  obtain r1 s1 where one: "relay_one rl r s = (r1, s1)" by force
  from relay_one_step [OF one assms(2) Cons.prems(2)] obtain sent where st: "inv (ow_store s1)" "keys s1 = keys s"
      "ow_sent s1 = ow_sent s @ (if sent then [row_msg r] else [])" "\<forall>ok. r1 = Inr ok \<longrightarrow> ok = sent"
    by blast
  show ?case
  proof (cases r1)
    case (Inl e)
    with Cons.prems one have "res = Inl e" "s' = s1"
      by (simp_all add: bind_op_def)
    with st show ?thesis
      by (intro conjI exI [of _ "if sent then [r] else []"]) (auto simp: subseq_singleton_left)
  next
    case (Inr ok)
    with st(4) have ok: "ok = sent" by simp
    define ids1 where "ids1 = (if sent then ids @ [or_id r] else ids)"
    define failed1 where "failed1 = (if sent then failed else Suc failed)"
    have "relay_batch rl rs ids1 failed1 s1 = (res, s')"
      using Cons.prems(1) one Inr ok by (simp add: bind_op_def ids1_def failed1_def split: if_splits)
    from Cons.IH [OF this st(1)] obtain ps where ps: "inv (ow_store s')" "keys s' = keys s1" "subseq ps rs"
        "ow_sent s' = ow_sent s1 @ map row_msg ps"
        "\<forall>ids' failed'. res = Inr (ids', failed') \<longrightarrow>
           ids' = ids1 @ map or_id ps \<and> failed' + length ps = failed1 + length rs"
      by blast
    let ?ps = "if sent then r # ps else ps"
    have "subseq ?ps (r # rs)" using ps(3) by (simp add: list_emb_Cons)
    moreover have "ow_sent s' = ow_sent s @ map row_msg ?ps" using ps(4) st(3) by simp
    moreover have "\<forall>ids' failed'. res = Inr (ids', failed') \<longrightarrow>
        ids' = ids @ map or_id ?ps \<and> failed' + length ?ps = failed + length (r # rs)"
      using ps(5) by (auto simp: ids1_def failed1_def)
    moreover have "keys s' = keys s" using ps(2) st(2) by simp
    ultimately show ?thesis using ps(1)
      by (intro conjI exI [of _ ?ps])
  qed
qed

text \<open>One pass, whatever the broker does: some rows of the batch are sent once each, in order.\<close>

lemma flush_steps:
  assumes "flush rl s = (res, s')" "rl_store rl = store" "inv (ow_store s)" "0 < rl_batch_size rl"
  shows "inv (ow_store s') \<and> (\<exists>ps. subseq ps (take (nat (rl_batch_size rl)) (pending (ow_store s)))
      \<and> ow_sent s' = ow_sent s @ map row_msg ps
      \<and> (case res of
           Inl e \<Rightarrow> keys s' = keys s
         | Inr r \<Rightarrow> rr_published r = length ps
             \<and> rr_attempted r = min (nat (rl_batch_size rl)) (length (pending (ow_store s)))
             \<and> keys s' = filter (\<lambda>k. fst k \<notin> or_id ` set ps) (keys s)))"
proof -
  let ?rs = "take (nat (rl_batch_size rl)) (pending (ow_store s))"
  have f: "os_fetch_unpublished store (rl_batch_size rl) (ow_store s) = (Inr ?rs, ow_store s)"
    by (rule fetch_oldest [OF assms(3,4)])
  obtain r1 s1 where b: "relay_batch rl ?rs [] 0 s = (r1, s1)" by force
  from relay_batch_steps [OF b assms(2,3)] obtain ps where st: "inv (ow_store s1)" "keys s1 = keys s"
      "subseq ps ?rs" "ow_sent s1 = ow_sent s @ map row_msg ps"
      "\<forall>ids failed. r1 = Inr (ids, failed) \<longrightarrow> ids = map or_id ps \<and> failed + length ps = length ?rs"
    by auto
  show ?thesis
  proof (cases r1)
    case (Inl e)
    with assms(1,2) f b have "res = Inl e" "s' = s1"
      by (simp_all add: flush_def bind_op_def on_store_def)
    with st show ?thesis by (intro conjI exI [of _ ps]) simp_all
  next
    case (Inr p)
    then obtain ids failed where p: "r1 = Inr (ids, failed)" "ids = map or_id ps" "failed + length ps = length ?rs"
      using st(5) by (cases p) auto
    obtain r2 st2 where m: "os_mark_published store ids (ow_store s1) = (r2, st2)" by force
    note mp = mark_published_drops [OF st(1) m]
    have key: "map row_key (filter (\<lambda>x. or_id x \<notin> set ids) xs) = filter (\<lambda>k. fst k \<notin> set ids) (map row_key xs)" for xs
      by (induction xs) (simp_all add: row_key_def)
    have r: "res = Inr \<lparr>rr_published = length ids, rr_failed = failed\<rparr>"
      using assms(1,2) f b p m mp by (auto simp: flush_def bind_op_def then_op_def on_store_def ret_def split: if_splits)
    have "s' = (if ids = [] then s1 else s1\<lparr>ow_store := st2\<rparr>)"
      using assms(1,2) f b p(1) m mp by (auto simp: flush_def bind_op_def then_op_def on_store_def ret_def split: if_splits)
    then have "inv (ow_store s')" "ow_sent s' = ow_sent s1" "keys s' = filter (\<lambda>k. fst k \<notin> set ids) (keys s1)"
      using st(1) mp key [of "pending (ow_store s1)"] by (auto split: if_splits)
    with st p r show ?thesis
      by (intro conjI exI [of _ ps]) (simp_all add: rr_attempted_def min.commute)
  qed
qed

text \<open>No row is lost: it is still there, or its bytes were sent; and only stored bytes are sent.\<close>

definition keeps :: "('w, 'st) relay_world \<Rightarrow> ('w, 'st) relay_world \<Rightarrow> bool" where
  "keeps s s' \<longleftrightarrow> kept (set (keys s)) (set (ow_sent s)) (set (keys s')) (set (ow_sent s'))"

lemma keeps_refl: "keeps s s"
  by (simp add: keeps_def kept_def)

lemma keeps_trans: "keeps s t \<Longrightarrow> keeps t w \<Longrightarrow> keeps s w"
  unfolding keeps_def by (rule kept_trans)

lemma flush_keeps:
  assumes "flush rl s = (res, s')" "rl_store rl = store" "inv (ow_store s)" "0 < rl_batch_size rl"
  shows "inv (ow_store s') \<and> keeps s s'"
proof -
  let ?ps = "pending (ow_store s)"
  from flush_steps [OF assms] obtain ps where
    st: "inv (ow_store s')" "subseq ps (take (nat (rl_batch_size rl)) ?ps)" "ow_sent s' = ow_sent s @ map row_msg ps"
    and c: "case res of
           Inl e \<Rightarrow> keys s' = keys s
         | Inr r \<Rightarrow> rr_published r = length ps
             \<and> rr_attempted r = min (nat (rl_batch_size rl)) (length ?ps)
             \<and> keys s' = filter (\<lambda>k. fst k \<notin> or_id ` set ps) (keys s)"
    by blast
  have keys: "keys s' = keys s \<or> keys s' = filter (\<lambda>k. fst k \<notin> or_id ` set ps) (keys s)"
    using c by (cases res) simp_all
  have sub: "set ps \<subseteq> set ?ps"
    using list_emb_set [OF st(2)] set_take_subset by (metis subsetI subsetD)
  have inj: "inj_on or_id (set ?ps)"
    using pending_distinct [OF assms(3)] by (simp add: distinct_map)
  have "k \<in> set (keys s') \<or> snd k \<in> set (ow_sent s')" if k: "k \<in> set (keys s)" for k
  proof -
    from k obtain x where x: "x \<in> set ?ps" "k = row_key x" by auto
    show ?thesis
    proof (cases "or_id x \<in> or_id ` set ps")
      case True
      with x(1) sub inj have "x \<in> set ps" by (auto dest: inj_onD)
      with st(3) x(2) show ?thesis by (simp add: row_key_def)
    next
      case False
      then have "k \<in> set (filter (\<lambda>k. fst k \<notin> or_id ` set ps) (keys s))"
        using k x(2) by (simp add: row_key_def)
      with k keys show ?thesis by metis
    qed
  qed
  moreover have "set (ow_sent s') \<subseteq> set (ow_sent s) \<union> snd ` set (keys s)"
    using st(3) sub by (auto simp: row_key_def image_image)
  moreover have "set (keys s') \<subseteq> set (keys s)"
    using keys by (metis filter_is_subset order_refl)
  ultimately show ?thesis
    using st by (simp add: keeps_def kept_def)
qed

lemma drain_passes_keeps:
  assumes "drain_passes n rl p f s = (res, s')" "rl_store rl = store" "inv (ow_store s)" "0 < rl_batch_size rl"
  shows "inv (ow_store s') \<and> keeps s s'"
  using assms(1,3)
proof (induction n arbitrary: p f s)
  case 0
  then show ?case by (simp add: ret_def keeps_refl)
next
  case (Suc n)
  obtain r1 s1 where fl: "flush rl s = (r1, s1)" by force
  from flush_keeps [OF fl assms(2) Suc.prems(2) assms(4)] have st: "inv (ow_store s1)" "keeps s s1"
    by simp_all
  show ?case
  proof (cases "\<exists>r. r1 = Inr r \<and> rr_published r \<noteq> 0")
    case True
    then obtain r where r: "r1 = Inr r" "rr_published r \<noteq> 0" by blast
    have "drain_passes n rl (p + rr_published r) (f + rr_failed r) s1 = (res, s')"
      using Suc.prems(1) fl r by (simp add: bind_op_def Let_def)
    from Suc.IH [OF this st(1)] st(2) show ?thesis by (blast intro: keeps_trans)
  next
    case False
    with Suc.prems(1) fl have "s' = s1"
      by (auto simp: bind_op_def ret_def Let_def split: sum.splits)
    with st show ?thesis by simp
  qed
qed

text \<open>With a broker that accepts everything, a pass sends the oldest rows and drops them.\<close>

definition reliable :: "('w, 'st) outbox_relay \<Rightarrow> bool" where
  "reliable rl \<longleftrightarrow> (\<forall>q b w. \<exists>w'. rl_publish rl q b w = (Inr (), w'))"

lemma relay_batch_reliable:
  assumes "reliable rl"
  shows "\<exists>s'. relay_batch rl rs ids failed s = (Inr (ids @ map or_id rs, failed), s')
    \<and> ow_store s' = ow_store s \<and> ow_sent s' = ow_sent s @ map row_msg rs"
proof (induction rs arbitrary: ids s)
  case Nil
  show ?case by (simp add: ret_def)
next
  case (Cons r rs)
  obtain w where w: "rl_publish rl (or_queue r) (or_body r) (ow_broker s) = (Inr (), w)"
    using assms unfolding reliable_def by blast
  let ?s = "s\<lparr>ow_broker := w, ow_sent := ow_sent s @ [row_msg r]\<rparr>"
  have "relay_one rl r s = (Inr True, ?s)"
    using w by (simp add: relay_one_def relay_send_def catch_exc_def then_op_def bind_op_def on_broker_def
        modify_def ret_def row_msg_def)
  with Cons.IH [of "ids @ [or_id r]" ?s] show ?case by (auto simp: bind_op_def)
qed

lemma flush_reliable:
  assumes "reliable rl" "rl_store rl = store" "inv (ow_store s)" "0 < rl_batch_size rl"
  defines "n \<equiv> nat (rl_batch_size rl)"
  shows "\<exists>s'. flush rl s = (Inr \<lparr>rr_published = min n (length (pending (ow_store s))), rr_failed = 0\<rparr>, s')
    \<and> inv (ow_store s') \<and> keys s' = drop n (keys s)
    \<and> ow_sent s' = ow_sent s @ map row_msg (take n (pending (ow_store s)))"
proof -
  let ?ps = "pending (ow_store s)"
  have f: "os_fetch_unpublished store (rl_batch_size rl) (ow_store s) = (Inr (take n ?ps), ow_store s)"
    unfolding n_def by (rule fetch_oldest [OF assms(3,4)])
  obtain s1 where b: "relay_batch rl (take n ?ps) [] 0 s = (Inr (map or_id (take n ?ps), 0), s1)"
      "ow_store s1 = ow_store s" "ow_sent s1 = ow_sent s @ map row_msg (take n ?ps)"
    using relay_batch_reliable [OF assms(1), of "take n ?ps" "[]" 0 s] by auto
  obtain r2 st2 where m: "os_mark_published store (map or_id (take n ?ps)) (ow_store s1) = (r2, st2)" by force
  have "inv (ow_store s1)" using assms(3) b(2) by simp
  note mp = mark_published_drops [OF this m]
  have "or_id ` set (take n ?ps) \<inter> or_id ` set (drop n ?ps) = {}"
    using pending_distinct [OF assms(3)] by (metis append_take_drop_id distinct_append map_append set_map)
  then have "filter (\<lambda>x. or_id x \<notin> or_id ` set (take n ?ps)) (take n ?ps @ drop n ?ps) = drop n ?ps"
    unfolding filter_append by (auto simp: filter_empty_conv filter_id_conv)
  then have d: "filter (\<lambda>x. or_id x \<notin> or_id ` set (take n ?ps)) ?ps = drop n ?ps"
    by simp
  show ?thesis
  proof (cases "take n ?ps = []")
    case True
    then have "drop n ?ps = ?ps" "min n (length ?ps) = 0" by auto
    with True assms(2,3) f b show ?thesis
      by (auto simp: flush_def bind_op_def then_op_def on_store_def ret_def drop_map)
  next
    case False
    with assms(2) f b mp d m show ?thesis
      by (auto simp: flush_def bind_op_def then_op_def on_store_def ret_def drop_map min.commute)
  qed
qed

lemma drain_passes_reliable:
  assumes "reliable rl" "rl_store rl = store" "inv (ow_store s)" "0 < rl_batch_size rl"
    and "length (pending (ow_store s)) \<le> n * nat (rl_batch_size rl)"
  shows "\<exists>s'. drain_passes n rl p f s = (Inr \<lparr>rr_published = p + length (pending (ow_store s)), rr_failed = f\<rparr>, s')
    \<and> pending (ow_store s') = [] \<and> ow_sent s' = ow_sent s @ map row_msg (pending (ow_store s))"
  using assms(3,5)
proof (induction n arbitrary: p s)
  case 0
  then show ?case by (simp add: ret_def)
next
  case (Suc n)
  let ?b = "nat (rl_batch_size rl)" and ?ps = "pending (ow_store s)"
  from flush_reliable [OF assms(1,2) Suc.prems(1) assms(4)] obtain s1 where
    fl: "flush rl s = (Inr \<lparr>rr_published = min ?b (length ?ps), rr_failed = 0\<rparr>, s1)"
      "inv (ow_store s1)" "keys s1 = drop ?b (keys s)" "ow_sent s1 = ow_sent s @ map row_msg (take ?b ?ps)"
    by blast
  have msgs: "map row_msg (pending (ow_store s1)) = drop ?b (map row_msg ?ps)"
  proof -
    have "map snd (keys s1) = map snd (drop ?b (keys s))" using fl(3) by simp
    then show ?thesis by (simp add: row_key_def comp_def drop_map)
  qed
  then have len: "length (pending (ow_store s1)) = length ?ps - ?b"
    by (metis length_drop length_map)
  show ?case
  proof (cases "?ps = []")
    case True
    with fl len show ?thesis by (auto simp: bind_op_def ret_def)
  next
    case False
    with assms(4) have "min ?b (length ?ps) \<noteq> 0" by simp
    moreover have "length (pending (ow_store s1)) \<le> n * ?b"
      using Suc.prems(2) len by simp
    from Suc.IH [OF fl(2) this, of "p + min ?b (length ?ps)"] obtain s' where
      "drain_passes n rl (p + min ?b (length ?ps)) f s1
         = (Inr \<lparr>rr_published = p + min ?b (length ?ps) + length (pending (ow_store s1)), rr_failed = f\<rparr>, s')"
      "pending (ow_store s') = []" "ow_sent s' = ow_sent s1 @ map row_msg (pending (ow_store s1))"
      by blast
    moreover have "map row_msg (take ?b ?ps) @ map row_msg (pending (ow_store s1)) = map row_msg ?ps"
      unfolding msgs take_map [symmetric] by simp
    ultimately show ?thesis
      using fl len by (auto simp: bind_op_def min_def)
  qed
qed

end

section \<open>The reference store keeps the contract\<close>

definition table_inv :: "outbox_table \<Rightarrow> bool" where
  "table_inv t \<longleftrightarrow> wf_keys (ot_rows t) \<and> (\<forall>i \<in> fst ` set (ot_rows t). \<exists>n \<le> ot_sequence t. i = row_id n)"

definition pending_rows :: "outbox_row dict \<Rightarrow> outbox_record list" where
  "pending_rows rows = map (\<lambda>p. record_of (fst p) (snd p)) (filter (\<lambda>p. \<not> row_published (snd p)) rows)"

definition table_pending :: "outbox_table \<Rightarrow> outbox_record list" where
  "table_pending t = pending_rows (ot_rows t)"

lemma pending_rows_simps [simp]:
  "pending_rows [] = []"
  "pending_rows (p # rows) =
     (if row_published (snd p) then pending_rows rows else record_of (fst p) (snd p) # pending_rows rows)"
  by (simp_all add: pending_rows_def)

lemma pending_rows_append: "pending_rows (xs @ ys) = pending_rows xs @ pending_rows ys"
  by (simp add: pending_rows_def)

lemma fetch_rows_take:
  "int (length rs) < limit \<Longrightarrow> fetch_rows limit rs rows = take (nat limit) (rs @ pending_rows rows)"
proof (induction limit rs rows rule: fetch_rows.induct)
  case (2 limit rs i row rows)
  show ?case
  proof (cases "limit \<le> int (length rs) + 1")
    case True
    with 2(3) have "nat limit - length rs = 1" by linarith
    with True 2 show ?thesis by (simp add: Let_def)
  next
    case False
    with 2 show ?thesis by (simp add: Let_def)
  qed
qed simp

lemma dset_present:
  "wf_keys d \<Longrightarrow> dget d k = Some w \<Longrightarrow> dset k v d = map (\<lambda>p. if fst p = k then (k, v) else p) d"
proof (induction d)
  case (Cons p d)
  show ?case
  proof (cases "fst p = k")
    case True
    with Cons.prems(1) have "map (\<lambda>p. if fst p = k then (k, v) else p) d = d"
      by (intro map_idI) (metis image_eqI distinct.simps(2) list.simps(9) set_map)
    with True show ?thesis by (cases p) simp
  next
    case False
    with Cons show ?thesis by (cases p) auto
  qed
qed simp

lemma change_row_absent: "dget (ot_rows t) i = None \<Longrightarrow> change_row i f t = t"
  by (simp add: change_row_def)

lemma change_row_rows:
  assumes "wf_keys (ot_rows t)"
  shows "ot_rows (change_row i f t) = map (\<lambda>p. if fst p = i then (i, f (snd p)) else p) (ot_rows t)"
proof (cases "dget (ot_rows t) i")
  case None
  then have "map (\<lambda>p. if fst p = i then (i, f (snd p)) else p) (ot_rows t) = ot_rows t"
    by (intro map_idI) (auto simp: map_of_eq_None_iff)
  with None show ?thesis by (simp add: change_row_absent)
next
  case (Some row)
  have "snd p = row" if "p \<in> set (ot_rows t)" "fst p = i" for p
    using that Some assms by (metis map_of_is_SomeI option.inject prod.collapse)
  then have "map (\<lambda>p. if fst p = i then (i, f row) else p) (ot_rows t)
      = map (\<lambda>p. if fst p = i then (i, f (snd p)) else p) (ot_rows t)"
    by (intro map_cong refl) auto
  with Some show ?thesis by (simp add: change_row_def dset_present [OF assms Some])
qed

lemma change_row_inv:
  assumes "table_inv t"
  shows "table_inv (change_row i f t)"
proof -
  have "map fst (ot_rows (change_row i f t)) = map fst (ot_rows t)"
    using assms by (simp add: change_row_rows table_inv_def comp_def if_distrib)
  moreover have "ot_sequence (change_row i f t) = ot_sequence t"
    by (simp add: change_row_def split: option.splits)
  ultimately show ?thesis
    using assms unfolding table_inv_def by (metis list.set_map)
qed

lemma publish_row_pending:
  assumes "table_inv t"
  shows "table_pending (change_row i (\<lambda>row. row\<lparr>row_published := True\<rparr>) t)
    = filter (\<lambda>x. or_id x \<noteq> i) (table_pending t)"
proof -
  have "pending_rows (map (\<lambda>p. if fst p = i then (i, snd p\<lparr>row_published := True\<rparr>) else p) rows)
      = filter (\<lambda>x. or_id x \<noteq> i) (pending_rows rows)" for rows
    by (induction rows) (auto simp: record_of_def)
  with assms show ?thesis
    by (simp add: table_pending_def change_row_rows table_inv_def)
qed

lemma publish_rows_pending:
  "table_inv t \<Longrightarrow>
     table_inv (fold (\<lambda>i. change_row i (\<lambda>row. row\<lparr>row_published := True\<rparr>)) ids t)
     \<and> table_pending (fold (\<lambda>i. change_row i (\<lambda>row. row\<lparr>row_published := True\<rparr>)) ids t)
       = filter (\<lambda>x. or_id x \<notin> set ids) (table_pending t)"
proof (induction ids arbitrary: t)
  case (Cons i ids)
  let ?t = "change_row i (\<lambda>row. row\<lparr>row_published := True\<rparr>) t"
  from Cons.IH [OF change_row_inv [OF Cons.prems]] publish_row_pending [OF Cons.prems, of i] show ?case
    by (simp add: conj_commute)
qed simp

lemma fail_row_pending:
  assumes "table_inv t"
  shows "map row_key (table_pending (change_row i
           (\<lambda>row. row\<lparr>row_attempts := row_attempts row + 1, row_error := err\<rparr>) t))
    = map row_key (table_pending t)"
proof -
  have "map row_key (pending_rows (map (\<lambda>p. if fst p = i
          then (i, snd p\<lparr>row_attempts := row_attempts (snd p) + 1, row_error := err\<rparr>) else p) rows))
      = map row_key (pending_rows rows)" for rows
    by (induction rows) (auto simp: record_of_def row_key_def row_msg_def)
  with assms show ?thesis
    by (simp add: table_pending_def change_row_rows table_inv_def)
qed

lemma row_id_inject [simp]: "row_id m = row_id n \<longleftrightarrow> m = n"
  by (simp add: row_id_def)

lemma save_pending:
  assumes "table_inv t" "save body queue t = (res, t')"
  shows "res = Inr (row_id (Suc (ot_sequence t)))" "table_inv t'"
    "ot_rows t' = ot_rows t @ [(row_id (Suc (ot_sequence t)),
        \<lparr>row_body = body, row_queue = queue, row_attempts = 0, row_published = False, row_error = []\<rparr>)]"
proof -
  have new: "row_id (Suc (ot_sequence t)) \<notin> fst ` set (ot_rows t)"
    using assms(1) by (auto simp: table_inv_def dest!: bspec)
  show "res = Inr (row_id (Suc (ot_sequence t)))"
    using assms(2) by (auto simp: save_def Let_def)
  show rows: "ot_rows t' = ot_rows t @ [(row_id (Suc (ot_sequence t)),
        \<lparr>row_body = body, row_queue = queue, row_attempts = 0, row_published = False, row_error = []\<rparr>)]"
    using assms(2) new by (auto simp: save_def Let_def dset_new)
  have "ot_sequence t' = Suc (ot_sequence t)"
    using assms(2) by (auto simp: save_def Let_def)
  with rows new assms(1) show "table_inv t'"
    by (auto simp: table_inv_def intro: le_SucI dest!: bspec)
qed

interpretation in_memory: outbox_contract in_memory_store table_inv table_pending
proof (unfold_locales, goal_cases)
  case (1 t body queue res t')
  then have "save body queue t = (res, t')" by (simp add: in_memory_store_def)
  from save_pending [OF 1(1) this] show ?case
    by (simp add: table_pending_def pending_rows_append record_of_def)
next
  case (2 t n)
  then show ?case
    by (simp add: in_memory_store_def fetch_unpublished_def fetch_rows_take table_pending_def)
next
  case (3 t ids res t')
  then show ?case
    using publish_rows_pending [of t ids] by (auto simp: in_memory_store_def mark_published_def)
next
  case (4 t i err res t')
  then show ?case
    using fail_row_pending [of t i err] change_row_inv [of t] by (auto simp: in_memory_store_def mark_failed_def)
next
  case (5 t)
  have "map or_id (pending_rows rows) = map fst (filter (\<lambda>p. \<not> row_published (snd p)) rows)" for rows
    by (simp add: pending_rows_def record_of_def comp_def)
  with 5 show ?case
    by (simp add: table_pending_def table_inv_def distinct_map_filter)
qed

section \<open>Properties\<close>

text \<open>
  C12: the relay never loses a row, and never makes one up. Whatever the broker does (accept, fail,
  or interrupt the process), after a \<open>drain\<close> every row that was pending is still pending with its
  queue and body, or exactly those bytes were accepted by the broker for that queue; nothing else
  was sent, and no row became pending.
\<close>

theorem relay_loses_nothing:
  assumes "drain_outbox rl max_passes s = (res, s')" "rl_store rl = in_memory_store"
    and "table_inv (ow_store s)" "0 < rl_batch_size rl"
  shows "(\<forall>x \<in> set (table_pending (ow_store s)).
        (\<exists>y \<in> set (table_pending (ow_store s')). or_id y = or_id x \<and> or_queue y = or_queue x \<and> or_body y = or_body x)
        \<or> (or_queue x, or_body x) \<in> set (ow_sent s'))
    \<and> set (ow_sent s') \<subseteq> set (ow_sent s) \<union> (\<lambda>x. (or_queue x, or_body x)) ` set (table_pending (ow_store s))
    \<and> or_id ` set (table_pending (ow_store s')) \<subseteq> or_id ` set (table_pending (ow_store s))
    \<and> table_inv (ow_store s')"
proof -
  have inv: "table_inv (ow_store s')" and k: "in_memory.keeps s s'"
    using in_memory.drain_passes_keeps [OF _ assms(2-4)] assms(1) by (auto simp: drain_outbox_def)
  have "(\<exists>y \<in> set (table_pending (ow_store s')). row_key y = row_key x) \<or> row_msg x \<in> set (ow_sent s')"
    if x: "x \<in> set (table_pending (ow_store s))" for x
  proof -
    have "row_key x \<in> row_key ` set (table_pending (ow_store s')) \<or> snd (row_key x) \<in> set (ow_sent s')"
      using k x unfolding in_memory.keeps_def kept_def by simp
    then show ?thesis by (auto simp: row_key_def)
  qed
  moreover have "snd ` row_key ` A = row_msg ` A" "fst ` row_key ` A = or_id ` A" for A
    by (simp_all add: image_image row_key_def)
  then have "set (ow_sent s') \<subseteq> set (ow_sent s) \<union> row_msg ` set (table_pending (ow_store s))"
    "or_id ` set (table_pending (ow_store s')) \<subseteq> or_id ` set (table_pending (ow_store s))"
    using k unfolding in_memory.keeps_def kept_def by (metis list.set_map, metis image_mono list.set_map)
  ultimately show ?thesis
    using inv unfolding row_msg_def row_key_def by (simp add: eq_commute)
qed


text \<open>
  What \<open>Outbox.write\<close> stores is the envelope. It appends one pending row, after the older ones,
  whose body decodes to the envelope written and whose queue is \<open>meta.queue\<close> or \<open>default\<close>.
\<close>

theorem outbox_write_stores_envelope:
  assumes "outbox_write in_memory_store e t = (Inr i, t')" "table_inv t"
    and "is_valid_urn (dget e (u ''job''))" "wf_val (PDict e)" "floats_ok (PDict e)"
  shows "\<exists>body. table_pending t' = table_pending t @
        [\<lparr>or_id = i, or_body = body, or_queue = queue_of e, or_attempts = 0\<rparr>]
    \<and> decode body = (Inr e, []) \<and> table_inv t'"
proof -
  obtain body where b: "encode e = Inr body" "save body (queue_of e) t = (Inr i, t')"
    using assms(1)
    by (auto simp: outbox_write_def Let_def bind_op_def lift_res_def in_memory_store_def split: sum.splits)
  note sp = save_pending [OF assms(2) b(2)]
  note d = encode_decodes [OF b(1) assms(3-5)]
  have "decode body = (Inr e, [])"
    by (rule decode_object(1) [OF d(1,3,2)])
  with sp show ?thesis
    by (simp add: table_pending_def pending_rows_append record_of_def)
qed

section \<open>Witnesses\<close>

text \<open>A broker that refuses the queue \<open>bad\<close>, and two stored rows.\<close>

definition demo_table :: outbox_table where
  "demo_table = snd (save (u ''b'') (u ''bad'') (snd (save (u ''a'') (u ''q'') empty_table)))"

definition demo_relay :: "(nat, outbox_table) outbox_relay" where
  "demo_relay =
     \<lparr>rl_publish = (\<lambda>q b w. if q = u ''bad'' then (Inl (Exc (UserError (u ''ConnectionError'')) (u ''down'')), w)
                          else (Inr (), Suc w)),
      rl_store = in_memory_store, rl_batch_size = 100, rl_backoff_step = 1, rl_backoff_cap = 5,
      rl_sleeper = (\<lambda>d w. (Inr (), w))\<rparr>"

definition demo_world :: "(nat, outbox_table) relay_world" where
  "demo_world = \<lparr>ow_broker = 0, ow_store = demo_table, ow_sent = []\<rparr>"

lemma empty_table_inv [simp]: "table_inv empty_table"
  by (simp add: table_inv_def empty_table_def)

lemma demo_table_inv: "table_inv demo_table"
  unfolding demo_table_def
  by (metis empty_table_inv save_pending(2) prod.collapse)

theorem relay_loses_nothing_witness:
  "\<exists>s'. snd (drain_outbox demo_relay 0 demo_world) = s' \<and> table_inv (ow_store s')
     \<and> set (ow_sent s') \<subseteq> {(u ''q'', u ''a''), (u ''bad'', u ''b'')}"
proof -
  obtain res s' where d: "drain_outbox demo_relay 0 demo_world = (res, s')" by force
  have h: "rl_store demo_relay = in_memory_store" "table_inv (ow_store demo_world)" "0 < rl_batch_size demo_relay"
    by (simp_all add: demo_relay_def demo_world_def demo_table_inv)
  have "table_pending (ow_store demo_world) =
      [\<lparr>or_id = row_id 1, or_body = u ''a'', or_queue = u ''q'', or_attempts = 0\<rparr>,
       \<lparr>or_id = row_id 2, or_body = u ''b'', or_queue = u ''bad'', or_attempts = 0\<rparr>]" "ow_sent demo_world = []"
    by (simp_all add: demo_world_def demo_table_def save_def Let_def empty_table_def table_pending_def record_of_def
        eval_nat_numeral)
  with relay_loses_nothing [OF d h] d show ?thesis by auto
qed


theorem outbox_write_stores_envelope_witness:
  "\<exists>body. decode body = (Inr demo_envelope, [])
     \<and> or_queue (hd (table_pending (snd (outbox_write in_memory_store demo_envelope empty_table)))) = u ''default''"
proof -
  have w: "outbox_write in_memory_store demo_envelope empty_table
      = (Inr (row_id 1), snd (outbox_write in_memory_store demo_envelope empty_table))"
    by (simp add: outbox_write_def Let_def bind_op_def lift_res_def in_memory_store_def demo_encode save_def empty_table_def)
  have q: "queue_of demo_envelope = u ''default''"
    by (simp add: queue_of_def demo_envelope_def)
  from outbox_write_stores_envelope [OF w empty_table_inv demo_writable(1-3)] obtain body where
    "table_pending (snd (outbox_write in_memory_store demo_envelope empty_table)) = table_pending empty_table @
        [\<lparr>or_id = row_id 1, or_body = body, or_queue = queue_of demo_envelope, or_attempts = 0\<rparr>]"
    "decode body = (Inr demo_envelope, [])" by blast
  then show ?thesis
    by (auto simp: q table_pending_def empty_table_def)
qed

end
