(* ===== verification/Idempotency.thy ===== *)
theory Idempotency
  imports Effects PyValue
begin

text \<open>
  \<open>idempotency.py\<close>: the store of processed ids, the process-local store, and \<open>idempotent_wrap\<close>, which skips a
  message whose \<open>meta.id\<close> was already processed. A store is a record of operations; its contract is
  a locale, under which a wrapped handler succeeds at most once per id.
\<close>

record 's idempotency_store =
  is_seen :: "pystr \<Rightarrow> ('s, bool) op"
  is_remember :: "pystr \<Rightarrow> ('s, unit) op"
  is_forget :: "pystr \<Rightarrow> ('s, unit) op"

text \<open>\<open>InMemoryStore\<close>: its state is the set \<open>_seen\<close>; the lock makes each operation atomic.\<close>

definition store_seen :: "pystr \<Rightarrow> (pystr set, bool) op" where
  "store_seen message_id = (\<lambda>seen. (Inr (message_id \<in> seen), seen))"

definition store_remember :: "pystr \<Rightarrow> (pystr set, unit) op" where
  "store_remember message_id = (\<lambda>seen. (Inr (), insert message_id seen))"

definition store_forget :: "pystr \<Rightarrow> (pystr set, unit) op" where
  "store_forget message_id = (\<lambda>seen. (Inr (), seen - {message_id}))"

definition in_memory_ids :: "pystr set idempotency_store" where
  "in_memory_ids = \<lparr>is_seen = store_seen, is_remember = store_remember, is_forget = store_forget\<rparr>"

section \<open>The wrapper\<close>

text \<open>The positional arguments are values; \<open>args[1]\<close> is the message's \<open>meta\<close>.\<close>

definition message_id :: "pyval list \<Rightarrow> pystr option" where
  "message_id args =
     (let meta = (if 1 < length args then case args ! 1 of PDict m \<Rightarrow> m | _ \<Rightarrow> [] else [])
      in case get_or_none meta (u ''id'') of
           PStr i \<Rightarrow> if i = [] then None else Some i
         | _ \<Rightarrow> None)"

definition idempotent_wrap :: "'s idempotency_store \<Rightarrow> (pyval list \<Rightarrow> ('s, unit) op) \<Rightarrow> pyval list \<Rightarrow> ('s, unit) op" where
  "idempotent_wrap store handler args =
     (case message_id args of
        None \<Rightarrow> handler args
      | Some i \<Rightarrow>
          bind_op (is_seen store i) (\<lambda>seen.
            if seen then ret () else then_op (handler args) (is_remember store i)))"

section \<open>A sequence of deliveries\<close>

text \<open>
  The handler acts on its own world; \<open>iw_runs\<close> is history: the id of every run of the handler and
  whether it returned. A delivery whose handler raised is simply over (the runtime decides when it
  comes again, so any sequence of deliveries may follow).
\<close>

record ('w, 'st) idem_world =
  iw_world :: 'w
  iw_store :: 'st
  iw_runs :: "(pystr option \<times> bool) list"

definition on_ids :: "('st, 'a) op \<Rightarrow> (('w, 'st) idem_world, 'a) op" where
  "on_ids f = (\<lambda>s. case f (iw_store s) of (r, st) \<Rightarrow> (r, s\<lparr>iw_store := st\<rparr>))"

definition shared_store :: "'st idempotency_store \<Rightarrow> ('w, 'st) idem_world idempotency_store" where
  "shared_store store =
     \<lparr>is_seen = (\<lambda>i. on_ids (is_seen store i)), is_remember = (\<lambda>i. on_ids (is_remember store i)),
      is_forget = (\<lambda>i. on_ids (is_forget store i))\<rparr>"

definition recorded :: "(pyval list \<Rightarrow> ('w, unit) op) \<Rightarrow> pyval list \<Rightarrow> (('w, 'st) idem_world, unit) op" where
  "recorded handler args =
     (\<lambda>s. case handler args (iw_world s) of
            (r, w) \<Rightarrow> (r, s\<lparr>iw_world := w, iw_runs := iw_runs s @ [(message_id args, \<not> isl r)]\<rparr>))"

fun deliver_all ::
  "'st idempotency_store \<Rightarrow> (pyval list \<Rightarrow> ('w, unit) op) \<Rightarrow> pyval list list
     \<Rightarrow> ('w, 'st) idem_world \<Rightarrow> ('w, 'st) idem_world" where
  "deliver_all store handler [] s = s"
| "deliver_all store handler (args # rest) s =
     deliver_all store handler rest (snd (idempotent_wrap (shared_store store) (recorded handler) args s))"

locale idempotency_contract =
  fixes store :: "'st idempotency_store"
    and remembered :: "'st \<Rightarrow> pystr set"
  assumes seen_iff: "is_seen store i st = (Inr (i \<in> remembered st), st)"
    and remember_adds: "\<exists>st'. is_remember store i st = (Inr (), st') \<and> remembered st' = insert i (remembered st)"
    and forget_drops: "\<exists>st'. is_forget store i st = (Inr (), st') \<and> remembered st' = remembered st - {i}"
begin

text \<open>What holds of the history: an id is remembered once its run succeeded, and then never runs again.\<close>

definition once :: "('w, 'st) idem_world \<Rightarrow> bool" where
  "once s \<longleftrightarrow>
     (\<forall>i. (Some i, True) \<in> set (iw_runs s) \<longleftrightarrow> i \<in> remembered (iw_store s)) \<and>
     (\<forall>i before after. iw_runs s = before @ (Some i, True) # after \<longrightarrow> Some i \<notin> fst ` set after)"

lemma wrap_cases:
  fixes s :: "('w, 'st) idem_world"
  assumes "idempotent_wrap (shared_store store) (recorded handler) args s = (res, s')"
  obtains (skipped) i where "message_id args = Some i" "i \<in> remembered (iw_store s)" "s' = s" "res = Inr ()"
  | (ran) ok where "iw_runs s' = iw_runs s @ [(message_id args, ok)]" "ok = (\<not> isl res)"
      "\<forall>i. message_id args = Some i \<longrightarrow> i \<notin> remembered (iw_store s)"
      "remembered (iw_store s') = (if ok then set_option (message_id args) else {}) \<union> remembered (iw_store s)"
proof -
  obtain r w where h: "handler args (iw_world s) = (r, w)" by force
  show thesis
  proof (cases "message_id args")
    case None
    with assms h have "res = r" "s' = s\<lparr>iw_world := w, iw_runs := iw_runs s @ [(None, \<not> isl r)]\<rparr>"
      by (auto simp: idempotent_wrap_def recorded_def)
    with None show thesis by (intro ran [of "\<not> isl r"]) simp_all
  next
    case (Some i)
    show thesis
    proof (cases "i \<in> remembered (iw_store s)")
      case True
      with Some assms have "s' = s" "res = Inr ()"
        by (auto simp: idempotent_wrap_def shared_store_def bind_op_def on_ids_def seen_iff ret_def)
      with Some True show thesis by (intro skipped)
    next
      case False
      obtain st where st: "is_remember store i (iw_store s) = (Inr (), st)"
          "remembered st = insert i (remembered (iw_store s))"
        using remember_adds by blast
      have "res = r \<and> iw_runs s' = iw_runs s @ [(Some i, \<not> isl r)]
          \<and> iw_store s' = (if isl r then iw_store s else st)"
        using assms Some False h st(1)
        by (cases r) (auto simp: idempotent_wrap_def shared_store_def then_op_def bind_op_def on_ids_def seen_iff recorded_def)
      with Some False st(2) show thesis by (intro ran [of "\<not> isl r"]) (auto split: if_splits)
    qed
  qed
qed

lemma once_wrap:
  assumes "idempotent_wrap (shared_store store) (recorded handler) args s = (res, s')" "once s"
  shows "once s' \<and> set (iw_runs s) \<subseteq> set (iw_runs s')
    \<and> (\<forall>i. message_id args = Some i \<longrightarrow> Some i \<in> fst ` set (iw_runs s'))"
  using assms(1)
proof (cases rule: wrap_cases)
  case (skipped i)
  with assms(2) have "(Some i, True) \<in> set (iw_runs s)"
    by (simp add: once_def)
  then have "Some i \<in> fst ` set (iw_runs s)"
    by (rule rev_image_eqI) simp
  with skipped assms(2) show ?thesis by simp
next
  case (ran ok)
  have past: "Some i \<notin> fst ` set (after @ [(message_id args, ok)])"
    if "iw_runs s = before @ (Some i, True) # after" for i before after
  proof -
    from that have "i \<in> remembered (iw_store s)" "Some i \<notin> fst ` set after"
      using assms(2) by (auto simp: once_def)
    with ran(3) show ?thesis by auto
  qed
  have "Some i \<notin> fst ` set after" if "iw_runs s' = before @ (Some i, True) # after" for i before after
  proof (cases after rule: rev_cases)
    case (snoc xs x)
    with that ran(1) have "iw_runs s = before @ (Some i, True) # xs" "x = (message_id args, ok)"
      by (metis append_Cons append_assoc append1_eq_conv)+
    with past snoc show ?thesis by simp
  qed simp
  moreover have "\<forall>i. (Some i, True) \<in> set (iw_runs s') \<longleftrightarrow> i \<in> remembered (iw_store s')"
    using assms(2) ran by (auto simp: once_def)
  ultimately show ?thesis
    using ran(1) by (auto simp: once_def)
qed

lemma once_deliver_all:
  "once s \<Longrightarrow> once (deliver_all store handler argss s)
     \<and> set (iw_runs s) \<subseteq> set (iw_runs (deliver_all store handler argss s))
     \<and> (\<forall>args \<in> set argss. \<forall>i. message_id args = Some i \<longrightarrow>
          Some i \<in> fst ` set (iw_runs (deliver_all store handler argss s)))"
proof (induction argss arbitrary: s)
  case (Cons args argss)
  obtain res s1 where w: "idempotent_wrap (shared_store store) (recorded handler) args s = (res, s1)" by force
  note st = once_wrap [OF w Cons.prems]
  then have "once s1" by simp
  note ih = Cons.IH [OF this]
  have later: "x \<in> fst ` set (iw_runs (deliver_all store handler argss s1))" if "x \<in> fst ` set (iw_runs s1)" for x
    using that ih by (metis (no_types, lifting) image_mono subsetD)
  have "deliver_all store handler (args # argss) s = deliver_all store handler argss s1"
    using w by simp
  moreover have "set (iw_runs s) \<subseteq> set (iw_runs (deliver_all store handler argss s1))"
    using st ih by (meson order_trans)
  ultimately show ?case
    using ih st later by simp
qed simp

end

interpretation in_memory_ids: idempotency_contract in_memory_ids "\<lambda>seen. seen"
  by unfold_locales
    (simp_all add: in_memory_ids_def store_seen_def store_remember_def store_forget_def)

section \<open>Properties\<close>

text \<open>
  C14: a wrapped handler succeeds at most once per message id. Over any sequence of deliveries, with
  duplicates in any order and any of them failing, no run of the handler follows a successful run
  for the same id, the ids remembered are exactly those that succeeded, and every delivered id was
  run at least once (nothing is skipped that was not processed).
\<close>

theorem wrapped_handler_succeeds_once:
  assumes "s' = deliver_all in_memory_ids handler argss \<lparr>iw_world = w, iw_store = {}, iw_runs = []\<rparr>"
  shows "(\<forall>i before after. iw_runs s' = before @ (Some i, True) # after \<longrightarrow> (\<forall>ok. (Some i, ok) \<notin> set after))
    \<and> (\<forall>i. i \<in> iw_store s' \<longleftrightarrow> (Some i, True) \<in> set (iw_runs s'))
    \<and> (\<forall>args \<in> set argss. \<forall>i. message_id args = Some i \<longrightarrow> (\<exists>ok. (Some i, ok) \<in> set (iw_runs s')))"
proof -
  have "in_memory_ids.once \<lparr>iw_world = w, iw_store = {}, iw_runs = []\<rparr>"
    by (simp add: in_memory_ids.once_def)
  note d = in_memory_ids.once_deliver_all [OF this, of handler argss, folded assms]
  have ran: "x \<in> fst ` R \<Longrightarrow> \<exists>ok. (x, ok) \<in> R" "(x, ok) \<in> R \<Longrightarrow> x \<in> fst ` R"
    for x ok and R :: "(pystr option \<times> bool) set"
    by force+
  from d have c: "\<forall>i before after. iw_runs s' = before @ (Some i, True) # after \<longrightarrow> Some i \<notin> fst ` set after"
    "\<forall>i. i \<in> iw_store s' \<longleftrightarrow> (Some i, True) \<in> set (iw_runs s')"
    "\<forall>args \<in> set argss. \<forall>i. message_id args = Some i \<longrightarrow> Some i \<in> fst ` set (iw_runs s')"
    by (simp_all add: in_memory_ids.once_def)
  show ?thesis
  proof (intro conjI allI impI ballI)
    fix i before after ok
    assume "iw_runs s' = before @ (Some i, True) # after"
    with c(1) have "Some i \<notin> fst ` set after" by simp
    then show "(Some i, ok) \<notin> set after" using ran(2) by metis
  next
    fix i
    show "(i \<in> iw_store s') = ((Some i, True) \<in> set (iw_runs s'))" using c(2) by simp
  next
    fix args i
    assume "args \<in> set argss" "message_id args = Some i"
    with c(3) have "Some i \<in> fst ` set (iw_runs s')" by simp
    then show "\<exists>ok. (Some i, ok) \<in> set (iw_runs s')" by (rule ran(1))
  qed
qed

text \<open>Three deliveries of one message: the first run fails, the second succeeds, the third is skipped.\<close>

definition demo_args :: "pyval list" where
  "demo_args = [PDict [], PDict [(u ''id'', PStr (u ''m1''))]]"

definition demo_deliveries :: "(nat, pystr set) idem_world" where
  "demo_deliveries =
     deliver_all in_memory_ids (\<lambda>args n. (if n = 0 then Inl (Exc ValueError []) else Inr (), Suc n))
       [demo_args, demo_args, demo_args] \<lparr>iw_world = 0, iw_store = {}, iw_runs = []\<rparr>"

lemma demo_runs: "iw_runs demo_deliveries = [(Some (u ''m1''), False), (Some (u ''m1''), True)]"
  by code_simp

theorem wrapped_handler_succeeds_once_witness:
  "iw_runs demo_deliveries = [(Some (u ''m1''), False), (Some (u ''m1''), True)] \<and> u ''m1'' \<in> iw_store demo_deliveries"
  using wrapped_handler_succeeds_once [OF demo_deliveries_def] by (simp add: demo_runs)

end
