(* ===== verification/Redrive.thy ===== *)
theory Redrive
  imports Runtime Headers
begin

text \<open>
  \<open>redrive.py\<close>: replaying dead-lettered messages off a dead-letter queue. The queue is drained, the
  bodies are decoded, and each message is restored to the queue or re-published to its target with
  the dead-letter block dropped and the attempts reset.
\<close>

section \<open>The tool\<close>

record redrive_item =
  ri_message_id :: pystr
  ri_trace_id :: pystr
  ri_urn :: pystr
  ri_reason :: pystr
  ri_from_queue :: pystr
  ri_to :: pystr
  ri_redriven :: bool
  ri_bypassed :: bool

record redrive_result =
  rd_redriven :: nat
  rd_skipped :: nat
  rd_items :: "redrive_item list"

text \<open>The arguments of \<open>redrive\<close>; \<open>select\<close> is the caller's predicate, which may raise.\<close>

record redrive_args =
  ra_dlq :: pystr
  ra_to_queue :: "pystr option"
  ra_max :: int
  ra_dry_run :: bool
  ra_select :: "(pyval dict \<Rightarrow> bool res) option"
  ra_bypass :: bool

definition source_queue_of :: "pyval dict \<Rightarrow> pystr" where
  "source_queue_of envelope =
     (let meta_queue =
        (case dget envelope (u ''meta'') of
           Some (PDict meta) \<Rightarrow> (case dget meta (u ''queue'') of Some (PStr q) \<Rightarrow> q | _ \<Rightarrow> [])
         | _ \<Rightarrow> [])
      in case dget envelope (u ''dead_letter'') of
           Some (PDict dl) \<Rightarrow>
             (case dget dl (u ''original_queue'') of
                Some (PStr q) \<Rightarrow> if q \<noteq> [] then q else meta_queue
              | _ \<Rightarrow> meta_queue)
         | _ \<Rightarrow> meta_queue)"

definition decoded :: "pystr \<Rightarrow> pyval dict option res" where
  "decoded body =
     bind_res (fst (decode_lenient body)) (\<lambda>envelope.
       Inr (if envelope = [] then None
            else case dget envelope (u ''job'') of Some (PStr s) \<Rightarrow> Some envelope | _ \<Rightarrow> None))"

definition publish_redriven ::
  "'s transport \<Rightarrow> pystr \<Rightarrow> pystr \<Rightarrow> bool \<Rightarrow> route \<Rightarrow> pystr option \<Rightarrow> ('s, bool) op" where
  "publish_redriven t queue body bypass route key =
     (case (if bypass then t_publish_with_headers t else None) of
        Some with_headers \<Rightarrow>
          (let hs = [(HEADER_REPLAY_BYPASS, u ''1'')]
           in case t_publish_redriven t of
                Some redriven \<Rightarrow> then_op (redriven queue body hs route key) (ret True)
              | None \<Rightarrow> then_op (with_headers queue body hs) (ret True))
      | None \<Rightarrow> then_op (publish_keeping_route t queue body route key) (ret False))"

definition reset_envelope :: "pyval dict \<Rightarrow> pyval dict" where
  "reset_envelope envelope = dset (u ''attempts'') (PInt 0) (ddel (u ''dead_letter'') envelope)"

text \<open>Put a message back as it was, then acknowledge it.\<close>

definition restore :: "'s transport \<Rightarrow> pystr \<Rightarrow> received_message \<Rightarrow> ('s, unit) op" where
  "restore t dlq m =
     then_op (publish_keeping_route t dlq (rm_body m) (rm_route m) (rm_key m)) (t_ack t m)"

definition member_str :: "pyval dict \<Rightarrow> pystr \<Rightarrow> pystr" where
  "member_str d k = (case dget d k of None \<Rightarrow> [] | Some v \<Rightarrow> py_str v)"

definition dict_or_empty :: "pyval dict \<Rightarrow> pystr \<Rightarrow> pyval dict" where
  "dict_or_empty envelope k = (case dget envelope k of Some (PDict d) \<Rightarrow> d | _ \<Rightarrow> [])"

definition plan_item :: "pystr \<Rightarrow> pyval dict \<Rightarrow> redrive_item" where
  "plan_item dlq envelope =
     \<lparr>ri_message_id = member_str (dict_or_empty envelope (u ''meta'')) (u ''id''),
      ri_trace_id = member_str envelope (u ''trace_id''), ri_urn = urn envelope,
      ri_reason = member_str (dict_or_empty envelope (u ''dead_letter'')) (u ''reason''),
      ri_from_queue = dlq, ri_to = [], ri_redriven = False, ri_bypassed = False\<rparr>"

definition no_item :: "pystr \<Rightarrow> redrive_item" where
  "no_item dlq =
     \<lparr>ri_message_id = [], ri_trace_id = [], ri_urn = [], ri_reason = [], ri_from_queue = dlq, ri_to = [],
      ri_redriven = False, ri_bypassed = False\<rparr>"

text \<open>The re-publish; on an \<open>Exception\<close> the message is restored and the exception raised again.\<close>

definition replay_one ::
  "'s transport \<Rightarrow> redrive_args \<Rightarrow> received_message \<Rightarrow> pyval dict \<Rightarrow> pystr \<Rightarrow> ('s, bool) op" where
  "replay_one t a m envelope target =
     bind_op
       (catch_exc
          (bind_op (lift_res (encode (reset_envelope envelope))) (\<lambda>body.
             publish_redriven t target body (ra_bypass a) (rm_route m) (rm_key m)))
          (\<lambda>e. then_op (restore t (ra_dlq a) m) (raise_op e)))
       (\<lambda>bypassed. then_op (t_ack t m) (ret bypassed))"

definition redrive_one ::
  "'s transport \<Rightarrow> redrive_args \<Rightarrow> received_message \<Rightarrow> pyval dict option \<Rightarrow> ('s, redrive_item) op" where
  "redrive_one t a m envelope =
     (case (if route_str (rm_route m) = NON_NUMERIC_ATTEMPTS_ROUTE then None else envelope) of
        None \<Rightarrow> then_op (restore t (ra_dlq a) m) (ret (no_item (ra_dlq a)))
      | Some e \<Rightarrow>
          let item = plan_item (ra_dlq a) e
          in bind_op (lift_res (case ra_select a of None \<Rightarrow> Inr True | Some select \<Rightarrow> select e)) (\<lambda>selected.
               if \<not> selected then then_op (restore t (ra_dlq a) m) (ret item)
               else
                 let target = (case ra_to_queue a of Some q \<Rightarrow> if q \<noteq> [] then q else source_queue_of e
                                                   | None \<Rightarrow> source_queue_of e)
                 in if ra_dry_run a then then_op (restore t (ra_dlq a) m) (ret (item\<lparr>ri_to := target\<rparr>))
                    else bind_op (replay_one t a m e target) (\<lambda>bypassed.
                           ret (item\<lparr>ri_to := target, ri_redriven := True, ri_bypassed := bypassed\<rparr>))))"

definition count_item :: "redrive_result \<Rightarrow> redrive_item \<Rightarrow> redrive_result" where
  "count_item result item =
     (if ri_redriven item
      then result\<lparr>rd_redriven := Suc (rd_redriven result), rd_items := rd_items result @ [item]\<rparr>
      else result\<lparr>rd_skipped := Suc (rd_skipped result), rd_items := rd_items result @ [item]\<rparr>)"

fun redrive_all ::
  "'s transport \<Rightarrow> redrive_args \<Rightarrow> (received_message \<times> pyval dict option) list \<Rightarrow> redrive_result
     \<Rightarrow> ('s, redrive_result) op" where
  "redrive_all t a [] result = ret result"
| "redrive_all t a ((m, e) # batch) result =
     bind_op (redrive_one t a m e) (\<lambda>item. redrive_all t a batch (count_item result item))"

text \<open>
  The drain: at most \<open>max\<close> pops (0 is no limit) until one finds nothing. \<open>None\<close> when the bound on
  the number of pops is reached, as for a queue that never empties.
\<close>

fun drain_pops ::
  "nat \<Rightarrow> 's transport \<Rightarrow> redrive_args \<Rightarrow> received_message list \<Rightarrow> 's
     \<Rightarrow> (received_message list res \<times> 's) option" where
  "drain_pops 0 t a popped s = None"
| "drain_pops (Suc fuel) t a popped s =
     (if ra_max a = 0 \<or> int (length popped) < ra_max a
      then (case t_pop t (ra_dlq a) s of
              (Inl e, s') \<Rightarrow> Some (Inl e, s')
            | (Inr None, s') \<Rightarrow> Some (Inr popped, s')
            | (Inr (Some m), s') \<Rightarrow> drain_pops fuel t a (popped @ [m]) s')
      else Some (Inr popped, s))"

definition decoded_message :: "received_message \<Rightarrow> (received_message \<times> pyval dict option) res" where
  "decoded_message m =
     (if is_poison_route (rm_route m) then Inr (m, None)
      else bind_res (decoded (rm_body m)) (\<lambda>e. Inr (m, e)))"

definition redrive ::
  "nat \<Rightarrow> 's transport \<Rightarrow> redrive_args \<Rightarrow> 's \<Rightarrow> (redrive_result res \<times> 's) option" where
  "redrive fuel t a s =
     (case (case t_pop_batch t of
              Some pop_batch \<Rightarrow> Some (pop_batch (ra_dlq a) (ra_max a) s)
            | None \<Rightarrow> drain_pops fuel t a [] s) of
        None \<Rightarrow> None
      | Some (popped, s') \<Rightarrow>
          Some (bind_op (lift_res (bind_res popped (\<lambda>ms. seq_res (map decoded_message ms))))
                  (\<lambda>batch. redrive_all t a batch \<lparr>rd_redriven = 0, rd_skipped = 0, rd_items = []\<rparr>) s'))"

section \<open>The order of writes and acknowledgements\<close>

text \<open>Any transport with a history of its writes and acknowledgements, each with whether it returned.\<close>

datatype redrive_event = Wrote pystr pystr | Acked received_message

record 's logged =
  lg_state :: 's
  lg_events :: "(redrive_event \<times> bool) list"

definition noted :: "redrive_event \<Rightarrow> ('s, 'a) op \<Rightarrow> ('s logged, 'a) op" where
  "noted ev f =
     (\<lambda>s. case f (lg_state s) of (r, w) \<Rightarrow> (r, s\<lparr>lg_state := w, lg_events := lg_events s @ [(ev, \<not> isl r)]\<rparr>))"

definition unnoted :: "('s, 'a) op \<Rightarrow> ('s logged, 'a) op" where
  "unnoted f = (\<lambda>s. case f (lg_state s) of (r, w) \<Rightarrow> (r, s\<lparr>lg_state := w\<rparr>))"

definition logging :: "'s transport \<Rightarrow> 's logged transport" where
  "logging t =
     \<lparr>t_publish = (\<lambda>q b. noted (Wrote q b) (t_publish t q b)),
      t_pop = (\<lambda>q. unnoted (t_pop t q)),
      t_ack = (\<lambda>m. noted (Acked m) (t_ack t m)),
      t_close = unnoted (t_close t),
      t_classifies_poison = t_classifies_poison t,
      t_publish_with_headers =
        map_option (\<lambda>f q b hs. noted (Wrote q b) (f q b hs)) (t_publish_with_headers t),
      t_publish_routed = map_option (\<lambda>f q b route. noted (Wrote q b) (f q b route)) (t_publish_routed t),
      t_publish_settle = map_option (\<lambda>f q b route k. noted (Wrote q b) (f q b route k)) (t_publish_settle t),
      t_publish_redriven =
        map_option (\<lambda>f q b hs route k. noted (Wrote q b) (f q b hs route k)) (t_publish_redriven t),
      t_redeliver = None, t_dead_letter = None, t_rewind = None,
      t_dead_letter_queue_name = t_dead_letter_queue_name t, t_abandon = None, t_settle_native = None,
      t_settle_native_dead_letter = None,
      t_pop_batch = map_option (\<lambda>f q n. unnoted (f q n)) (t_pop_batch t),
      t_retry_tiers_ms = t_retry_tiers_ms t\<rparr>"

text \<open>What a write must be for the acknowledgement of a message: its own bytes, or its reset envelope.\<close>

definition written_for :: "redrive_args \<Rightarrow> received_message \<Rightarrow> pystr \<Rightarrow> pystr \<Rightarrow> bool" where
  "written_for a m q b \<longleftrightarrow>
     q = ra_dlq a \<and> b = rm_body m
     \<or> \<not> ra_dry_run a \<and> (\<exists>e. decoded (rm_body m) = Inr (Some e) \<and> encode (reset_envelope e) = Inr b)"

definition in_order :: "redrive_args \<Rightarrow> 's logged \<Rightarrow> bool" where
  "in_order a s \<longleftrightarrow>
     (\<forall>before m ok after. lg_events s = before @ (Acked m, ok) # after \<longrightarrow>
        (\<exists>earlier q b. before = earlier @ [(Wrote q b, True)] \<and> written_for a m q b))"

definition just_wrote :: "redrive_args \<Rightarrow> received_message \<Rightarrow> 's logged \<Rightarrow> bool" where
  "just_wrote a m s \<longleftrightarrow> in_order a s \<and>
     (\<exists>earlier q b. lg_events s = earlier @ [(Wrote q b, True)] \<and> written_for a m q b)"

lemma just_wrote_in_order: "just_wrote a m s \<Longrightarrow> in_order a s"
  by (simp add: just_wrote_def)

lemma in_order_snoc:
  assumes "in_order a s"
    and "\<And>m. ev = Acked m \<Longrightarrow> \<exists>earlier q b. lg_events s = earlier @ [(Wrote q b, True)] \<and> written_for a m q b"
  shows "in_order a (s\<lparr>lg_state := w, lg_events := lg_events s @ [(ev, ok)]\<rparr>)"
  unfolding in_order_def
proof (intro allI impI)
  fix before m ok' after
  assume "lg_events (s\<lparr>lg_state := w, lg_events := lg_events s @ [(ev, ok)]\<rparr>) = before @ (Acked m, ok') # after"
  then have e: "lg_events s @ [(ev, ok)] = before @ (Acked m, ok') # after" by simp
  show "\<exists>earlier q b. before = earlier @ [(Wrote q b, True)] \<and> written_for a m q b"
  proof (cases after rule: rev_cases)
    case Nil
    with e have "ev = Acked m" "before = lg_events s" by simp_all
    with assms(2) show ?thesis by simp
  next
    case (snoc xs x)
    with e have "lg_events s = before @ (Acked m, ok') # xs"
      by (metis append_Cons append_assoc butlast_snoc)
    with assms(1) show ?thesis unfolding in_order_def by blast
  qed
qed

lemma valid_noted_write:
  assumes "written_for a m q b"
  shows "valid (in_order a) (noted (Wrote q b) f) (\<lambda>x. just_wrote a m) (\<lambda>e. in_order a)"
  using in_order_snoc [of a _ "Wrote q b"] assms
  by (fastforce simp: valid_def noted_def just_wrote_def split: prod.splits sum.splits)

lemma valid_noted_ack:
  "valid (just_wrote a m) (noted (Acked m) f) (\<lambda>x. in_order a) (\<lambda>e. in_order a)"
  using in_order_snoc [of a _ "Acked m"]
  by (fastforce simp: valid_def noted_def just_wrote_def split: prod.splits sum.splits)

lemma publish_keeping_route_logging:
  "publish_keeping_route (logging t) q b route k = noted (Wrote q b) (publish_keeping_route t q b route k)"
  by (auto simp: publish_keeping_route_def logging_def split: option.split)

lemma valid_restore:
  "valid (in_order a) (restore (logging t) (ra_dlq a) m) (\<lambda>x. in_order a) (\<lambda>e. in_order a)"
  unfolding restore_def publish_keeping_route_logging
  by (rule valid_then [OF valid_noted_write [of a m]])
    (simp_all add: written_for_def valid_noted_ack logging_def)

lemma valid_publish_redriven:
  assumes "written_for a m q b"
  shows "valid (in_order a) (publish_redriven (logging t) q b bypass route k)
    (\<lambda>x. just_wrote a m) (\<lambda>e. in_order a)"
proof -
  have w: "valid (in_order a) (then_op (noted (Wrote q b) f) (ret x)) (\<lambda>x. just_wrote a m) (\<lambda>e. in_order a)"
    for f :: "('a, unit) op" and x :: bool
    by (rule valid_then [OF valid_noted_write [OF assms]]) (rule valid_ret)
  show ?thesis
    unfolding publish_redriven_def publish_keeping_route_logging
    using w by (auto simp: logging_def Let_def split: option.split)
qed

lemma valid_replay_one:
  assumes "decoded (rm_body m) = Inr (Some e)" "\<not> ra_dry_run a"
  shows "valid (in_order a) (replay_one (logging t) a m e target) (\<lambda>x. in_order a) (\<lambda>e. in_order a)"
  unfolding replay_one_def
proof (rule valid_bind [where R = "\<lambda>x. just_wrote a m"])
  have "valid (in_order a)
      (bind_op (lift_res (encode (reset_envelope e))) (\<lambda>body.
         publish_redriven (logging t) target body (ra_bypass a) (rm_route m) (rm_key m)))
      (\<lambda>x. just_wrote a m) (\<lambda>e. in_order a)"
    (is "valid _ ?m _ _")
  proof (cases "encode (reset_envelope e)")
    case (Inl err)
    then show ?thesis by (simp add: valid_def bind_op_def lift_res_def)
  next
    case (Inr body)
    with assms have "written_for a m target body" by (auto simp: written_for_def)
    from valid_publish_redriven [OF this, of t "ra_bypass a" "rm_route m" "rm_key m"] Inr show ?thesis
      by (simp add: valid_def bind_op_def lift_res_def)
  qed
  then show "valid (in_order a)
      (catch_exc ?m (\<lambda>e. then_op (restore (logging t) (ra_dlq a) m) (raise_op e)))
      (\<lambda>x. just_wrote a m) (\<lambda>e. in_order a)"
    by (rule valid_catch) (auto intro!: valid_then [OF valid_restore] valid_raise)
next
  show "valid (just_wrote a m) (then_op (t_ack (logging t) m) (ret x)) (\<lambda>x. in_order a) (\<lambda>e. in_order a)" for x
    by (rule valid_then [where R = "in_order a"]) (simp_all add: logging_def valid_noted_ack valid_ret)
qed

lemma valid_redrive_one:
  assumes "\<forall>x. e = Some x \<longrightarrow> decoded (rm_body m) = Inr (Some x)"
  shows "valid (in_order a) (redrive_one (logging t) a m e) (\<lambda>x. in_order a) (\<lambda>e. in_order a)"
proof -
  have r: "valid (in_order a) (then_op (restore (logging t) (ra_dlq a) m) (ret item)) (\<lambda>x. in_order a) (\<lambda>e. in_order a)"
    for item :: redrive_item
    by (rule valid_then [OF valid_restore]) (rule valid_ret)
  show ?thesis
  proof (cases "if route_str (rm_route m) = NON_NUMERIC_ATTEMPTS_ROUTE then None else e")
    case None
    with r show ?thesis by (simp add: redrive_one_def)
  next
    case (Some x)
    with assms have d: "decoded (rm_body m) = Inr (Some x)" by (auto split: if_splits)
    have b: "valid (in_order a) (bind_op (replay_one (logging t) a m x q) (\<lambda>y. ret (f y)))
        (\<lambda>x. in_order a) (\<lambda>e. in_order a)" if "\<not> ra_dry_run a" for q and f :: "bool \<Rightarrow> redrive_item"
      by (rule valid_bind [OF valid_replay_one [OF d that]]) (rule valid_ret)
    have "valid (in_order a) (redrive_one (logging t) a m e) (\<lambda>x. in_order a) (\<lambda>e. in_order a)"
      unfolding redrive_one_def Some option.case Let_def
      by (rule valid_bind [where R = "\<lambda>x. in_order a", OF valid_lift]) (auto intro: r b)
    then show ?thesis .
  qed
qed

lemma valid_redrive_all:
  "\<forall>(m, e) \<in> set batch. \<forall>x. e = Some x \<longrightarrow> decoded (rm_body m) = Inr (Some x) \<Longrightarrow>
     valid (in_order a) (redrive_all (logging t) a batch result) (\<lambda>x. in_order a) (\<lambda>e. in_order a)"
proof (induction batch arbitrary: result)
  case Nil
  show ?case by (simp add: valid_ret)
next
  case (Cons p batch)
  obtain m e where p: "p = (m, e)" by force
  with Cons.prems have "\<forall>x. e = Some x \<longrightarrow> decoded (rm_body m) = Inr (Some x)" by simp
  note one = valid_redrive_one [OF this, of a t]
  from p show ?case
    using Cons by (auto intro: valid_bind [OF one])
qed

text \<open>Draining and decoding write nothing.\<close>

lemma drain_pops_logging:
  "drain_pops fuel (logging t) a popped s = Some (r, s') \<Longrightarrow> lg_events s' = lg_events s"
proof (induction fuel arbitrary: popped s)
  case (Suc fuel)
  obtain x w where p: "t_pop t (ra_dlq a) (lg_state s) = (x, w)" by force
  then have pop: "t_pop (logging t) (ra_dlq a) s = (x, s\<lparr>lg_state := w\<rparr>)"
    by (simp add: logging_def unnoted_def)
  show ?case
  proof (cases "ra_max a = 0 \<or> int (length popped) < ra_max a")
    case False
    with Suc.prems show ?thesis by simp
  next
    case True
    with Suc.prems Suc.IH [of _ "s\<lparr>lg_state := w\<rparr>"] pop show ?thesis
      by (auto split: sum.splits option.splits)
  qed
qed simp

lemma decoded_messages:
  assumes "seq_res (map decoded_message ms) = Inr batch"
  shows "\<forall>(m, e) \<in> set batch. \<forall>x. e = Some x \<longrightarrow> decoded (rm_body m) = Inr (Some x)"
proof -
  have "list_all2 (\<lambda>m p. decoded_message m = Inr p) ms batch"
    using assms by (simp add: seq_res_map_Inr)
  then show ?thesis
    by (auto simp: list_all2_conv_all_nth in_set_conv_nth decoded_message_def bind_res_Inr split: if_splits)
       (metis (no_types, lifting) Pair_inject option.distinct(1) sum.inject(2))
qed

lemma decoded_messages_fst: "seq_res (map decoded_message ms) = Inr batch \<Longrightarrow> map fst batch = ms"
  by (induction ms arbitrary: batch) (auto simp: bind_res_Inr decoded_message_def split: if_splits)

lemma redrive_in_order:
  assumes "redrive fuel (logging t) a s = Some (res, s')" "lg_events s = []"
  shows "in_order a s'"
proof -
  obtain popped s1 where d: "(case t_pop_batch (logging t) of
              Some pop_batch \<Rightarrow> Some (pop_batch (ra_dlq a) (ra_max a) s)
            | None \<Rightarrow> drain_pops fuel (logging t) a [] s) = Some (popped, s1)"
      and r: "bind_op (lift_res (bind_res popped (\<lambda>ms. seq_res (map decoded_message ms))))
                  (\<lambda>batch. redrive_all (logging t) a batch \<lparr>rd_redriven = 0, rd_skipped = 0, rd_items = []\<rparr>) s1
        = (res, s')"
    using assms(1) by (auto simp: redrive_def split: option.splits)
  have "lg_events s1 = lg_events s"
    using d drain_pops_logging [of fuel t a "[]" s]
    by (auto simp: logging_def unnoted_def split: option.splits prod.splits)
  then have i: "in_order a s1"
    using assms(2) by (simp add: in_order_def)
  show ?thesis
  proof (cases "bind_res popped (\<lambda>ms. seq_res (map decoded_message ms))")
    case (Inl e)
    with r i show ?thesis by (simp add: bind_op_def lift_res_def)
  next
    case (Inr batch)
    then obtain ms where "seq_res (map decoded_message ms) = Inr batch"
      by (auto simp: bind_res_Inr)
    note v = valid_redrive_all [OF decoded_messages [OF this], of a t
        "\<lparr>rd_redriven = 0, rd_skipped = 0, rd_items = []\<rparr>"]
    from r Inr have "redrive_all (logging t) a batch \<lparr>rd_redriven = 0, rd_skipped = 0, rd_items = []\<rparr> s1 = (res, s')"
      by (simp add: bind_op_def lift_res_def)
    with v i show ?thesis
      by (cases res) (auto dest: validD)
  qed
qed

section \<open>What is written\<close>

lemma decoded_Some:
  assumes "decoded body = Inr (Some e)"
  obtains d where "loads body = Inr (PDict d)" "fold_identity d = (e, snd (decode_lenient body))"
proof -
  have "fst (decode_lenient body) = Inr e" "e \<noteq> []"
    using assms by (auto simp: decoded_def bind_res_Inr split: if_splits option.splits pyval.splits)
  then show thesis
    using that by (cases rule: decode_lenient_cases) auto
qed

lemma reset_envelope_get [simp]:
  "dget (reset_envelope e) k =
     (if k = u ''attempts'' then Some (PInt 0) else if k = u ''dead_letter'' then None else dget e k)"
  by (simp add: reset_envelope_def)

lemma reset_envelope_encodes:
  assumes "decoded body = Inr (Some e)" "floats_ok (PDict e)"
  shows "\<exists>b. encode (reset_envelope e) = Inr b \<and> fst (decode_lenient b) = Inr (reset_envelope e)"
proof -
  obtain d where d: "loads body = Inr (PDict d)" "fold_identity d = (e, snd (decode_lenient body))"
    by (rule decoded_Some [OF assms(1)])
  have w: "dumpable max_nesting (PDict e)" "wf_val (PDict e)"
    using loads_dumpable [OF d(1)] writable_fold_identity [OF d(2)] by simp_all
  have "carries (reset_envelope e) ck = carries e ck" if "ck \<in> set FORBIDDEN_KEYS" for ck
    using that by (auto simp: FORBIDDEN_KEYS_def carries_def key_target_def dhas_def)
  moreover have "dhas (u ''urn'') (reset_envelope e) = dhas (u ''urn'') e"
    by (simp add: dhas_def)
  ultimately have v: "first_encode_violation (reset_envelope e) = None"
    using fold_identity_encodable [OF d(2)]
    by (auto simp: first_encode_violation_None has_forbidden_keys_def list_ex_iff)
  have r: "dumpable max_nesting (PDict (reset_envelope e))" "wf_val (PDict (reset_envelope e))"
    "floats_ok (PDict (reset_envelope e))"
    unfolding reset_envelope_def
    by (intro writable_dset(1) writable_dset(2) writable_dset(3) writable_ddel w assms(2)
        | simp add: int_max_str_digits_def)+
  from dumpable_dumps [OF r(1), of False] v obtain b where b: "encode (reset_envelope e) = Inr b"
    by (auto simp: encode_def dumps_def)
  then have "loads b = Inr (PDict (reset_envelope e))"
    using loads_dumps r(2,3) by (auto dest: encode_clean)
  with fold_identity_id(1) [OF v] b show ?thesis
    by (simp add: decode_lenient_def parse_object_def case_prod_unfold)
qed

section \<open>On the in-process transport\<close>

definition memory_only :: "memory transport" where
  "memory_only = memory_transport (\<lambda>m. m) (\<lambda>m' m. m')"

definition memory_message :: "pystr \<Rightarrow> pystr \<times> headers \<Rightarrow> received_message" where
  "memory_message q x =
     \<lparr>rm_body = fst x, rm_queue = q, rm_handle = 0, rm_headers = snd x, rm_route = Route [], rm_key = None,
      rm_native_attempts = 0\<rparr>"

lemma memory_only_pop:
  assumes "memory_inv m"
  shows "\<exists>m'. t_pop memory_only q m =
      (Inr (case memory_contents m q of [] \<Rightarrow> None | x # xs \<Rightarrow> Some (memory_message q x)), m')
    \<and> memory_inv m' \<and> (\<forall>q'. memory_contents m' q' = (if q' = q then tl (memory_contents m q) else memory_contents m q'))"
proof -
  obtain r m' where p: "memory_pop q m = (r, m')" by force
  have m': "m' = snd (memory_pull q m)"
    by (simp add: memory_pull_def p split: sum.split option.split)
  have "r = Inr (case memory_contents m q of [] \<Rightarrow> None | x # xs \<Rightarrow> Some (memory_message q x))"
    using memory_pop_cases [OF assms, of q] p by (auto simp: memory_contents_def memory_message_def)
  with p m' memory_fifo.inv_pull [OF assms, of q] memory_fifo.contents_pull [OF assms, of q] show ?thesis
    by (simp add: memory_only_def memory_transport_def)
qed

lemma drain_pops_memory:
  assumes "memory_inv m" "ra_max a = 0" "length (memory_contents m (ra_dlq a)) < fuel"
  shows "\<exists>m'. drain_pops fuel memory_only a popped m =
        Some (Inr (popped @ map (memory_message (ra_dlq a)) (memory_contents m (ra_dlq a))), m')
    \<and> memory_inv m' \<and> (\<forall>q. memory_contents m' q = (if q = ra_dlq a then [] else memory_contents m q))"
  using assms(1,3)
proof (induction fuel arbitrary: popped m)
  case (Suc fuel)
  from memory_only_pop [OF Suc.prems(1), of "ra_dlq a"] obtain m1 where
    p: "t_pop memory_only (ra_dlq a) m = (Inr (case memory_contents m (ra_dlq a) of [] \<Rightarrow> None
          | x # xs \<Rightarrow> Some (memory_message (ra_dlq a) x)), m1)"
      "memory_inv m1"
      "\<forall>q. memory_contents m1 q = (if q = ra_dlq a then tl (memory_contents m (ra_dlq a)) else memory_contents m q)"
    by blast
  show ?case
  proof (cases "memory_contents m (ra_dlq a)")
    case Nil
    with p assms(2) show ?thesis by simp
  next
    case (Cons x xs)
    with p(3) Suc.prems(2) have "length (memory_contents m1 (ra_dlq a)) < fuel" by simp
    from Suc.IH [OF p(2) this, of "popped @ [memory_message (ra_dlq a) x]"] p Cons assms(2) show ?thesis
      by auto
  qed
qed simp

lemma restore_memory:
  "restore memory_only dlq m = (\<lambda>s. (Inr (), memory_publish dlq (rm_body m) s))"
  by (simp add: restore_def then_op_def bind_op_def memory_only_def memory_transport_def publish_keeping_route_def)

lemma redrive_all_dry:
  assumes "ra_dry_run a" "ra_select a = None"
  shows "\<exists>r. redrive_all memory_only a batch result m
        = (Inr r, fold (\<lambda>p. memory_publish (ra_dlq a) (rm_body (fst p))) batch m)
    \<and> rd_redriven r = rd_redriven result \<and> rd_skipped r = rd_skipped result + length batch"
proof (induction batch arbitrary: result m)
  case Nil
  show ?case by (simp add: ret_def)
next
  case (Cons p batch)
  obtain x e where p: "p = (x, e)" by force
  let ?m = "memory_publish (ra_dlq a) (rm_body x) m"
  have "\<exists>item. redrive_one memory_only a x e m = (Inr item, ?m) \<and> \<not> ri_redriven item"
    using assms
    by (auto simp: redrive_one_def restore_memory then_op_def bind_op_def ret_def lift_res_def Let_def no_item_def
        plan_item_def split: option.split)
  then obtain item where item: "redrive_one memory_only a x e m = (Inr item, ?m)" "\<not> ri_redriven item"
    by blast
  from Cons.IH [of "count_item result item" ?m] item p show ?case
    by (auto simp: bind_op_def count_item_def)
qed

lemma fold_publish_contents:
  "memory_inv m \<Longrightarrow> memory_inv (fold (\<lambda>p. memory_publish q (rm_body (fst p))) batch m)
     \<and> (\<forall>q'. memory_contents (fold (\<lambda>p. memory_publish q (rm_body (fst p))) batch m) q'
         = (if q' = q then memory_contents m q @ map (\<lambda>p. (rm_body (fst p), [])) batch else memory_contents m q'))"
proof (induction batch arbitrary: m)
  case (Cons p batch)
  have e: "memory_publish q (rm_body (fst p)) m = memory_push q (rm_body (fst p), []) m"
    by (simp add: memory_push_def memory_publish_plain)
  from Cons.IH [of "memory_publish q (rm_body (fst p)) m"] show ?case
    using memory_fifo.inv_push [OF Cons.prems] memory_fifo.contents_push [OF Cons.prems]
    by (simp add: e)
qed simp

lemma redrive_memory:
  assumes "memory_inv m" "ra_max a = 0"
  defines "ms \<equiv> map (memory_message (ra_dlq a)) (memory_contents m (ra_dlq a))"
  shows "\<exists>m'. redrive (Suc (length ms)) memory_only a m =
        Some (bind_op (lift_res (seq_res (map decoded_message ms)))
          (\<lambda>batch. redrive_all memory_only a batch \<lparr>rd_redriven = 0, rd_skipped = 0, rd_items = []\<rparr>) m')
    \<and> memory_inv m' \<and> (\<forall>q. memory_contents m' q = (if q = ra_dlq a then [] else memory_contents m q))"
proof -
  have "length (memory_contents m (ra_dlq a)) < Suc (length ms)" by (simp add: ms_def)
  from drain_pops_memory [OF assms(1,2) this, of "[]"] obtain m' where
    "drain_pops (Suc (length ms)) memory_only a [] m = Some (Inr ms, m')" "memory_inv m'"
    "\<forall>q. memory_contents m' q = (if q = ra_dlq a then [] else memory_contents m q)"
    by (auto simp: ms_def)
  moreover have "t_pop_batch memory_only = None"
    by (simp add: memory_only_def memory_transport_def)
  ultimately show ?thesis
    by (intro exI [of _ m']) (simp add: redrive_def del: drain_pops.simps)
qed

section \<open>Properties\<close>

text \<open>
  C13: redrive drops no dead-lettered message. On any transport, in every run (also one that raises),
  each acknowledgement of a message comes right after a write that returned, and that write is the
  message's own bytes back to the dead-letter queue, or its reset envelope, which a dry run never
  writes.
\<close>

theorem redrive_acks_after_write:
  assumes "redrive fuel (logging t) a \<lparr>lg_state = w, lg_events = []\<rparr> = Some (res, s')"
    and "lg_events s' = before @ (Acked m, ok) # after"
  shows "\<exists>earlier q b. before = earlier @ [(Wrote q b, True)]
    \<and> (q = ra_dlq a \<and> b = rm_body m
       \<or> \<not> ra_dry_run a \<and> (\<exists>e. decoded (rm_body m) = Inr (Some e) \<and> encode (reset_envelope e) = Inr b))"
  using redrive_in_order [OF assms(1)] assms(2) unfolding in_order_def written_for_def by simp

text \<open>
  A replayed message is the dead-lettered one, reset. Whatever redrivable body was on the queue,
  its reset envelope can be written, reads back as itself, has \<open>attempts\<close> 0 and no \<open>dead_letter\<close>
  block, and keeps every other key.
\<close>

theorem redriven_body_is_reset:
  assumes "decoded body = Inr (Some e)" "floats_ok (PDict e)"
  shows "\<exists>b e'. encode (reset_envelope e) = Inr b \<and> fst (decode_lenient b) = Inr e'
    \<and> dget e' (u ''attempts'') = Some (PInt 0) \<and> dget e' (u ''dead_letter'') = None
    \<and> (\<forall>k. k \<notin> {u ''attempts'', u ''dead_letter''} \<longrightarrow> dget e' k = dget e k)"
  using reset_envelope_encodes [OF assms] by auto

text \<open>
  A dry run leaves the queues as they were. On the in-process transport, when every body can be
  read, it ends after one pop more than there are messages, reports each as skipped, and leaves every
  queue with the same bodies in the same order; only the out-of-band headers of the messages it
  inspected are lost.
\<close>

theorem dry_run_restores_queue:
  assumes "memory_inv m" "ra_max a = 0" "ra_dry_run a" "ra_select a = None"
    and "\<forall>x \<in> set (memory_contents m (ra_dlq a)). \<exists>e. decoded (fst x) = Inr e"
  shows "\<exists>r m'. redrive (Suc (length (memory_contents m (ra_dlq a)))) memory_only a m = Some (Inr r, m')
    \<and> rd_redriven r = 0 \<and> rd_skipped r = length (memory_contents m (ra_dlq a))
    \<and> (\<forall>q. map fst (memory_contents m' q) = map fst (memory_contents m q))
    \<and> (\<forall>x \<in> set (memory_contents m' (ra_dlq a)). snd x = [])"
proof -
  let ?ms = "map (memory_message (ra_dlq a)) (memory_contents m (ra_dlq a))"
  let ?r0 = "\<lparr>rd_redriven = 0, rd_skipped = 0, rd_items = []\<rparr>"
  from redrive_memory [OF assms(1,2)] obtain m1 where
    m1: "redrive (Suc (length ?ms)) memory_only a m =
          Some (bind_op (lift_res (seq_res (map decoded_message ?ms))) (\<lambda>batch. redrive_all memory_only a batch ?r0) m1)"
      "memory_inv m1" "\<forall>q. memory_contents m1 q = (if q = ra_dlq a then [] else memory_contents m q)"
    by blast
  have "\<exists>ys. seq_res (map decoded_message ?ms) = Inr ys"
    using assms(5) by (intro seq_res_total) (auto simp: decoded_message_def memory_message_def)
  then obtain batch where batch: "seq_res (map decoded_message ?ms) = Inr batch" by blast
  then have fst: "map fst batch = ?ms"
    by (rule decoded_messages_fst)
  then have bodies: "map (\<lambda>p. rm_body (fst p)) batch = map fst (memory_contents m (ra_dlq a))"
    by (metis (no_types, lifting) comp_apply list.map_comp map_eq_conv memory_message_def received_message.select_convs(1))
  from redrive_all_dry [OF assms(3,4), of batch ?r0 m1] obtain r where
    r: "redrive_all memory_only a batch ?r0 m1 = (Inr r, fold (\<lambda>p. memory_publish (ra_dlq a) (rm_body (fst p))) batch m1)"
      "rd_redriven r = 0" "rd_skipped r = length batch"
    by auto
  have "length batch = length (memory_contents m (ra_dlq a))"
    using fst by (metis length_map)
  moreover have "map fst (map (\<lambda>p. (rm_body (fst p), [])) batch) = map fst (memory_contents m (ra_dlq a))"
    using bodies by (simp add: comp_def)
  ultimately show ?thesis
    using m1 batch r fold_publish_contents [OF m1(2), of "ra_dlq a" batch]
    by (auto simp: bind_op_def lift_res_def simp del: map_map)
qed

text \<open>
  C26: one body that is nested too deeply costs the whole queue. The bodies are decoded after the
  drain and outside any handler, so when one of them makes the parser raise a \<open>RecursionError\<close>,
  \<open>redrive\<close> raises and the in-process queue is empty: every message on it is gone.
\<close>

theorem redrive_loses_queue_on_deep_body:
  assumes "memory_inv m" "ra_max a = 0"
    and "x \<in> set (memory_contents m (ra_dlq a))" "decoded (fst x) = Inl e"
  shows "\<exists>e' m'. redrive (Suc (length (memory_contents m (ra_dlq a)))) memory_only a m = Some (Inl e', m')
    \<and> memory_contents m' (ra_dlq a) = [] \<and> (\<forall>q. q \<noteq> ra_dlq a \<longrightarrow> memory_contents m' q = memory_contents m q)"
proof -
  let ?ms = "map (memory_message (ra_dlq a)) (memory_contents m (ra_dlq a))"
  from redrive_memory [OF assms(1,2)] obtain m1 where
    m1: "redrive (Suc (length ?ms)) memory_only a m =
          Some (bind_op (lift_res (seq_res (map decoded_message ?ms)))
            (\<lambda>batch. redrive_all memory_only a batch \<lparr>rd_redriven = 0, rd_skipped = 0, rd_items = []\<rparr>) m1)"
      "\<forall>q. memory_contents m1 q = (if q = ra_dlq a then [] else memory_contents m q)"
    by blast
  have bad: "decoded_message (memory_message (ra_dlq a) x) = Inl e"
    using assms(4) by (simp add: decoded_message_def memory_message_def)
  have "seq_res (map decoded_message ?ms) \<noteq> Inr ys" for ys
    using bad assms(3) by (auto simp: seq_res_map_Inr list_all2_conv_all_nth in_set_conv_nth)
  then obtain e' where "seq_res (map decoded_message ?ms) = Inl e'"
    by (cases "seq_res (map decoded_message ?ms)") auto
  with m1 show ?thesis by (simp add: bind_op_def lift_res_def)
qed

section \<open>Witnesses\<close>

definition demo_dlq :: memory where
  "demo_dlq = \<lparr>m_queues = [(u ''q.dlq'', [demo_body])], m_headers = [(u ''q.dlq'', [[]])]\<rparr>"

definition demo_redrive :: "bool \<Rightarrow> redrive_args" where
  "demo_redrive dry_run =
     \<lparr>ra_dlq = u ''q.dlq'', ra_to_queue = Some (u ''q''), ra_max = 0, ra_dry_run = dry_run, ra_select = None,
      ra_bypass = True\<rparr>"

lemma demo_dlq_inv: "memory_inv demo_dlq"
  by (simp add: memory_inv_def demo_dlq_def qget_def)

lemma demo_dlq_contents: "memory_contents demo_dlq (u ''q.dlq'') = [(demo_body, [])]"
  by (simp add: memory_contents_def demo_dlq_def qget_def)

lemma demo_decoded: "decoded demo_body = Inr (Some demo_envelope)"
  by code_simp

lemma demo_redrive_events:
  "map_option (\<lambda>(r, s). lg_events s)
     (redrive 2 (logging memory_only) (demo_redrive False) \<lparr>lg_state = demo_dlq, lg_events = []\<rparr>)
   = Some [(Wrote (u ''q'') demo_body, True), (Acked (memory_message (u ''q.dlq'') (demo_body, [])), True)]"
  by code_simp

theorem redrive_acks_after_write_witness:
  "\<exists>res s'. redrive 2 (logging memory_only) (demo_redrive False) \<lparr>lg_state = demo_dlq, lg_events = []\<rparr> = Some (res, s')
     \<and> (\<exists>q b. (Wrote q b, True) \<in> set (lg_events s'))"
proof -
  obtain res s' where r: "redrive 2 (logging memory_only) (demo_redrive False) \<lparr>lg_state = demo_dlq, lg_events = []\<rparr>
      = Some (res, s')"
    and e: "lg_events s' = [(Wrote (u ''q'') demo_body, True)] @
      (Acked (memory_message (u ''q.dlq'') (demo_body, [])), True) # []"
    using demo_redrive_events by auto
  from redrive_acks_after_write [OF r e] obtain earlier q b where
    "[(Wrote (u ''q'') demo_body, True)] = earlier @ [(Wrote q b, True)]" by blast
  with r e show ?thesis by auto
qed

theorem redriven_body_is_reset_witness:
  "\<exists>b e'. encode (reset_envelope demo_envelope) = Inr b \<and> fst (decode_lenient b) = Inr e'
     \<and> dget e' (u ''trace_id'') = Some (PStr (u ''t''))"
proof -
  from redriven_body_is_reset [OF demo_decoded demo_writable(3)] obtain b e' where
    "encode (reset_envelope demo_envelope) = Inr b" "fst (decode_lenient b) = Inr e'"
    "\<forall>k. k \<notin> {u ''attempts'', u ''dead_letter''} \<longrightarrow> dget e' k = dget demo_envelope k"
    by blast
  moreover from this have "dget e' (u ''trace_id'') = Some (PStr (u ''t''))"
    by (simp add: demo_envelope_def)
  ultimately show ?thesis by blast
qed

theorem dry_run_restores_queue_witness:
  "\<exists>r m'. redrive 2 memory_only (demo_redrive True) demo_dlq = Some (Inr r, m') \<and> rd_skipped r = 1
     \<and> map fst (memory_contents m' (u ''q.dlq'')) = [demo_body]"
proof -
  let ?a = "demo_redrive True"
  have a: "ra_max ?a = 0" "ra_dry_run ?a" "ra_select ?a = None" "ra_dlq ?a = u ''q.dlq''"
    by (simp_all add: demo_redrive_def)
  then have "\<forall>x \<in> set (memory_contents demo_dlq (ra_dlq ?a)). \<exists>e. decoded (fst x) = Inr e"
    by (simp add: demo_dlq_contents demo_decoded)
  from dry_run_restores_queue [OF demo_dlq_inv a(1-3) this] obtain r m' where
    "redrive 2 memory_only ?a demo_dlq = Some (Inr r, m')" "rd_skipped r = 1"
    "\<forall>q. map fst (memory_contents m' q) = map fst (memory_contents demo_dlq q)"
    unfolding a(4) demo_dlq_contents by (auto simp: numeral_2_eq_2)
  then show ?thesis by (simp add: demo_dlq_contents)
qed

text \<open>A thousand and one opening brackets.\<close>

lemma parse_deep: "parse_val H d (replicate (Suc d) 91) = recursion_error ''maximum recursion depth exceeded''"
proof (induction d)
  case 0
  show ?case by (subst parse_val.simps) (simp add: starts_with_def)
next
  case (Suc d)
  have w: "skip_ws (replicate (Suc d) 91) = replicate (Suc d) 91"
    by (simp add: skip_ws_def is_ws_def)
  have "parse_elems H d (replicate (Suc d) 91) = recursion_error ''maximum recursion depth exceeded''"
    by (subst parse_elems.simps) (simp only: Suc, simp add: recursion_error_def)
  with w show ?case
    by (subst parse_val.simps) (simp add: starts_with_def recursion_error_def del: replicate_Suc, simp add: recursion_error_def)
qed

definition deep_body :: pystr where
  "deep_body = replicate (Suc max_nesting) 91"

lemma deep_decoded: "decoded deep_body = recursion_error ''maximum recursion depth exceeded''"
proof -
  have "\<not> starts_with [0xFEFF] deep_body" "skip_ws deep_body = deep_body"
    by (simp_all add: deep_body_def starts_with_def skip_ws_def is_ws_def)
  then have "loads deep_body = recursion_error ''maximum recursion depth exceeded''"
    using parse_deep [of py_hooks max_nesting]
    by (simp add: loads_def loads_with_def deep_body_def recursion_error_def del: replicate_Suc)
  then show ?thesis
    by (simp add: decoded_def decode_lenient_def parse_object_def recursion_error_def)
qed

theorem redrive_loses_queue_on_deep_body_witness:
  "\<exists>e' m'. redrive 2 memory_only (demo_redrive False)
       \<lparr>m_queues = [(u ''q.dlq'', [deep_body])], m_headers = [(u ''q.dlq'', [[]])]\<rparr> = Some (Inl e', m')
     \<and> memory_contents m' (u ''q.dlq'') = []"
proof -
  let ?m = "\<lparr>m_queues = [(u ''q.dlq'', [deep_body])], m_headers = [(u ''q.dlq'', [[]])]\<rparr>" and ?a = "demo_redrive False"
  have m: "memory_inv ?m" "memory_contents ?m (u ''q.dlq'') = [(deep_body, [])]"
    by (simp_all add: memory_inv_def memory_contents_def qget_def)
  have a: "ra_max ?a = 0" "ra_dlq ?a = u ''q.dlq''"
    by (simp_all add: demo_redrive_def)
  have "(deep_body, []) \<in> set (memory_contents ?m (ra_dlq ?a))"
    "decoded (fst (deep_body, [])) = Inl (Exc RecursionError (u ''maximum recursion depth exceeded''))"
    using m(2) a(2) deep_decoded by (simp_all add: recursion_error_def)
  from redrive_loses_queue_on_deep_body [OF m(1) a(1) this] show ?thesis
    unfolding a(2) m(2) by (auto simp: numeral_2_eq_2)
qed

end
