(* ===== verification/Schema.thy ===== *)
theory Schema
  imports Effects Json "HOL-Library.List_Lexorder"
begin

text \<open>
  \<open>schema.py\<close>: validation of a message's \<open>data\<close> against the JSON Schema (a subset) registered for its
  URN, the two schema providers, the producer's and the consumer's guard, and the paths a schema marks
  as sensitive. A provider is an operation with a contract (the locale \<open>schema_source\<close>); the interpreter's
  recursion limit is not modelled here.
\<close>

section \<open>Equality\<close>

text \<open>
  \<open>a == b\<close>: numbers compare across their types, lists by position, dictionaries by key. (Python also
  takes an object to equal itself inside a container, which only differs for \<open>NaN\<close>.)
\<close>

fun num_eq :: "pyval \<Rightarrow> pyval \<Rightarrow> bool" where
  "num_eq (PInt i) v = py_eq_int v i"
| "num_eq (PBool b) v = py_eq_int v (if b then 1 else 0)"
| "num_eq (PFloat f) (PFloat g) = float_eq f g"
| "num_eq (PFloat f) v = (case v of PInt i \<Rightarrow> float_eq_int f i | PBool b \<Rightarrow> float_eq_int f (if b then 1 else 0) | _ \<Rightarrow> False)"
| "num_eq v w = False"

lemma size_PDict_get: "dget d k = Some v \<Longrightarrow> size v < size (PDict d)"
  by (induction d) (auto split: if_splits)

lemma size_PDict_mem: "(k, v) \<in> set d \<Longrightarrow> size v < size (PDict d)"
  by (induction d) auto

lemma size_PList_mem: "v \<in> set xs \<Longrightarrow> size v < size (PList xs)"
  by (induction xs) auto

function py_eq :: "pyval \<Rightarrow> pyval \<Rightarrow> bool" where
  "py_eq v w =
     (case (v, w) of
        (PNone, PNone) \<Rightarrow> True
      | (PStr s, PStr t) \<Rightarrow> s = t
      | (PList xs, PList ys) \<Rightarrow> length xs = length ys \<and> (\<forall>(x, y) \<in> set (zip xs ys). py_eq x y)
      | (PDict d, PDict e) \<Rightarrow>
          length d = length e \<and>
          (\<forall>(k, x) \<in> set d. case dget e k of None \<Rightarrow> False | Some y \<Rightarrow> py_eq x y)
      | _ \<Rightarrow> num_eq v w)"
  by pat_completeness auto
termination
  by (relation "measure (\<lambda>(v, w). size v)") (auto dest: size_PDict_mem size_PList_mem set_zip_leftD)

declare py_eq.simps [simp del]

definition same_type :: "pyval \<Rightarrow> pyval \<Rightarrow> bool" where
  "same_type v w =
     (case (v, w) of
        (PNone, PNone) \<Rightarrow> True | (PBool a, PBool b) \<Rightarrow> True | (PInt a, PInt b) \<Rightarrow> True
      | (PFloat a, PFloat b) \<Rightarrow> True | (PStr a, PStr b) \<Rightarrow> True | (PList a, PList b) \<Rightarrow> True
      | (PDict a, PDict b) \<Rightarrow> True | _ \<Rightarrow> False)"

definition strict_equal :: "pyval \<Rightarrow> pyval \<Rightarrow> bool" where
  "strict_equal a b \<longleftrightarrow> same_type a b \<and> py_eq a b"

section \<open>The validator\<close>

definition violation :: "pystr \<Rightarrow> string \<Rightarrow> pystr" where
  "violation path reason = (if path = [] then u ''<root>'' else path) @ u '': '' @ u reason"

definition join_path :: "pystr \<Rightarrow> pystr \<Rightarrow> pystr" where
  "join_path path key = (if path = [] then key else path @ u ''.'' @ key)"

text \<open>The first element that answers a violation or raises.\<close>

fun first_some :: "('a \<Rightarrow> 'b option res) \<Rightarrow> 'a list \<Rightarrow> 'b option res" where
  "first_some f [] = Inr None"
| "first_some f (x # xs) =
     (case f x of
        Inl e \<Rightarrow> Inl e
      | Inr (Some v) \<Rightarrow> Inr (Some v)
      | Inr None \<Rightarrow> first_some f xs)"

lemma first_some_cong [fundef_cong]:
  "xs = ys \<Longrightarrow> (\<And>x. x \<in> set ys \<Longrightarrow> f x = g x) \<Longrightarrow> first_some f xs = first_some g ys"
  by (induction xs arbitrary: ys) (auto split: sum.split option.split)

definition is_schema_integer :: "pyval \<Rightarrow> bool" where
  "is_schema_integer v = (case v of PInt i \<Rightarrow> True | PFloat f \<Rightarrow> float_is_integer f | _ \<Rightarrow> False)"

definition is_schema_number :: "pyval \<Rightarrow> bool" where
  "is_schema_number v = (case v of PInt i \<Rightarrow> True | PFloat f \<Rightarrow> True | _ \<Rightarrow> False)"

definition py_float :: "pyval \<Rightarrow> pyfloat res" where
  "py_float v =
     (case v of
        PInt i \<Rightarrow> float_of_int i
      | PFloat f \<Rightarrow> Inr f
      | PBool b \<Rightarrow> float_of_int (if b then 1 else 0)
      | _ \<Rightarrow> Inl (Exc TypeError (u ''float() argument must be a string or a real number'')))"

definition check_minimum :: "pyval dict \<Rightarrow> pyval \<Rightarrow> pystr \<Rightarrow> pystr option res" where
  "check_minimum schema value path =
     (let minimum = get_or_none schema (u ''minimum'')
      in if is_schema_number minimum
         then bind_res (py_float value) (\<lambda>x. bind_res (py_float minimum) (\<lambda>y.
                Inr (if float_less x y then Some (violation path ''below_minimum'') else None)))
         else Inr None)"

text \<open>\<open>isinstance(min_len, (int, float))\<close> holds of a boolean.\<close>

definition check_string :: "pyval dict \<Rightarrow> pyval \<Rightarrow> pystr \<Rightarrow> pystr option res" where
  "check_string schema value path =
     (case value of
        PStr s \<Rightarrow>
          (let min_len = get_or_none schema (u ''minLength'')
           in if is_schema_number min_len \<or> (\<exists>b \<in> {True, False}. min_len = PBool b)
              then bind_res (py_int min_len) (\<lambda>n.
                     Inr (if int (length s) < n then Some (violation path ''below_min_length'') else None))
              else Inr None)
      | _ \<Rightarrow> Inr (Some (violation path ''not_a_string'')))"

definition check_scalar :: "pyval \<Rightarrow> pyval dict \<Rightarrow> pyval \<Rightarrow> pystr \<Rightarrow> pystr option res" where
  "check_scalar typ schema value path =
     (if typ = PStr (u ''string'') then check_string schema value path
      else if typ = PStr (u ''integer'')
      then if is_schema_integer value then check_minimum schema value path
           else Inr (Some (violation path ''not_an_integer''))
      else if typ = PStr (u ''number'')
      then if is_schema_number value then check_minimum schema value path
           else Inr (Some (violation path ''not_a_number''))
      else if typ = PStr (u ''boolean'')
      then Inr (case value of PBool b \<Rightarrow> None | _ \<Rightarrow> Some (violation path ''not_a_boolean''))
      else if typ = PStr (u ''null'')
      then Inr (if value = PNone then None else Some (violation path ''not_null''))
      else Inr None)"

definition schema_properties :: "pyval dict \<Rightarrow> pyval dict" where
  "schema_properties schema = (case dget schema (u ''properties'') of Some (PDict p) \<Rightarrow> p | _ \<Rightarrow> [])"

definition additional_allowed :: "pyval dict \<Rightarrow> bool" where
  "additional_allowed schema \<longleftrightarrow> dget schema (u ''additionalProperties'') \<noteq> Some (PBool False)"

definition required_keys :: "pyval dict \<Rightarrow> pystr list" where
  "required_keys schema =
     (case dget schema (u ''required'') of
        Some (PList ks) \<Rightarrow> List.map_filter (\<lambda>k. as_str (Some k)) ks
      | _ \<Rightarrow> [])"

definition wrong_const :: "pyval dict \<Rightarrow> pyval \<Rightarrow> bool" where
  "wrong_const schema value =
     (case dget schema (u ''const'') of None \<Rightarrow> False | Some c \<Rightarrow> \<not> strict_equal value c)"

definition not_in_enum :: "pyval dict \<Rightarrow> pyval \<Rightarrow> bool" where
  "not_in_enum schema value =
     (case dget schema (u ''enum'') of Some (PList xs) \<Rightarrow> \<not> list_ex (strict_equal value) xs | _ \<Rightarrow> False)"

lemma size_schema_properties: "dget (schema_properties schema) k = Some v \<Longrightarrow> size v < size (PDict schema)"
  by (auto simp: schema_properties_def simp del: pyval.size dest!: size_PDict_get split: option.splits pyval.splits)

function validate_schema :: "pyval dict \<Rightarrow> pyval \<Rightarrow> pystr \<Rightarrow> pystr option res" where
  "validate_schema schema value path =
     (if wrong_const schema value then Inr (Some (violation path ''wrong_const''))
      else if not_in_enum schema value then Inr (Some (violation path ''not_in_enum''))
      else
        let typ = get_or_none schema (u ''type'')
        in if typ = PStr (u ''object'')
           then (case value of
                   PDict d \<Rightarrow>
                     (case find (\<lambda>k. \<not> dhas k d) (required_keys schema) of
                        Some key \<Rightarrow> Inr (Some (violation (join_path path key) ''missing_required''))
                      | None \<Rightarrow>
                          first_some (\<lambda>(name, item).
                            case dget (schema_properties schema) name of
                              Some (PDict prop) \<Rightarrow> validate_schema prop item (join_path path name)
                            | _ \<Rightarrow>
                                Inr (if additional_allowed schema then None
                                     else Some (violation (join_path path name) ''additional_not_allowed''))) d)
                 | _ \<Rightarrow> Inr (Some (violation path ''not_an_object'')))
           else if typ = PStr (u ''array'')
           then (case value of
                   PList xs \<Rightarrow>
                     (case dget schema (u ''items'') of
                        Some (PDict items) \<Rightarrow>
                          first_some (\<lambda>(i, item). validate_schema items item (path @ u ''['' @ nat_str i @ u '']''))
                            (enumerate 0 xs)
                      | _ \<Rightarrow> Inr None)
                 | _ \<Rightarrow> Inr (Some (violation path ''not_an_array'')))
           else check_scalar typ schema value path)"
  by pat_completeness auto
termination
  by (relation "measure (\<lambda>(schema, value, path). size (PDict schema))")
     (auto simp del: pyval.size intro: size_schema_properties size_PDict_get)

declare validate_schema.simps [simp del]

section \<open>Providers and guards\<close>

text \<open>\<open>schema_for\<close> of a provider with state \<open>'s\<close>.\<close>

type_synonym 's schema_provider = "pystr \<Rightarrow> ('s, pyval dict option) op"

definition check :: "'s schema_provider \<Rightarrow> pystr \<Rightarrow> pyval dict \<Rightarrow> ('s, pystr option) op" where
  "check schema_for key data =
     bind_op (schema_for key) (\<lambda>schema.
       case schema of
         None \<Rightarrow> ret None
       | Some sch \<Rightarrow> lift_res (validate_schema sch (PDict data) []))"

definition validate :: "'s schema_provider \<Rightarrow> pystr \<Rightarrow> pyval dict \<Rightarrow> ('s, unit) op" where
  "validate schema_for key data =
     bind_op (check schema_for key data) (\<lambda>v.
       case v of
         None \<Rightarrow> ret ()
       | Some w \<Rightarrow>
           raise_op (Exc (InvalidPayloadError key w)
             (u ''data for '' @ [39] @ key @ [39] @ u '' does not match its URN schema: '' @ w)))"

definition schema_wrap :: "'s schema_provider \<Rightarrow> pystr \<Rightarrow> (pyval list \<Rightarrow> ('s, unit) op) \<Rightarrow> pyval list \<Rightarrow> ('s, unit) op" where
  "schema_wrap schema_for key handler args =
     (let data = (case args of PDict d # rest \<Rightarrow> d | _ \<Rightarrow> [])
      in then_op (validate schema_for key data) (handler args))"

text \<open>\<open>MapProvider\<close>: a dictionary; \<open>from_json\<close> decodes each schema.\<close>

definition map_schema_for :: "pyval dict dict \<Rightarrow> 's schema_provider" where
  "map_schema_for schemas key = ret (dget schemas key)"

fun map_from_json :: "pystr dict \<Rightarrow> pyval dict dict \<Rightarrow> pyval dict dict res" where
  "map_from_json [] schemas = Inr schemas"
| "map_from_json ((key, body) # raw) schemas =
     bind_res (loads body) (\<lambda>v.
       case v of
         PDict d \<Rightarrow> map_from_json raw (dset key d schemas)
       | _ \<Rightarrow> Inl (Exc ValueError (u ''schema: invalid JSON schema for '' @ [39] @ key @ [39])))"

text \<open>
  \<open>DirProvider\<close>. \<open>read_json\<close> stands for opening and decoding a file (a missing or undecodable file is an
  exception); the paths are POSIX paths.
\<close>

record dir_provider =
  dp_dir :: pystr
  dp_files :: "pystr dict"
  dp_cache :: "pyval dict dict"

definition path_dirname :: "pystr \<Rightarrow> pystr" where
  "path_dirname p =
     (let head = rev (dropWhile (\<lambda>c. c \<noteq> 47) (rev p));
          trimmed = rev (dropWhile (\<lambda>c. c = 47) (rev head))
      in if trimmed = [] then head else trimmed)"

definition path_join :: "pystr \<Rightarrow> pystr \<Rightarrow> pystr" where
  "path_join a b =
     (if starts_with [47] b then b
      else if a = [] \<or> last a = 47 then a @ b else a @ [47] @ b)"

fun manifest_files :: "pyval list \<Rightarrow> pystr dict \<Rightarrow> pystr dict" where
  "manifest_files [] files = files"
| "manifest_files (e # entries) files =
     (case e of
        PDict d \<Rightarrow>
          (case (get_or_none d (u ''urn''), get_or_none d (u ''schema'')) of
             (PStr k, PStr file) \<Rightarrow>
               if k \<noteq> [] \<and> file \<noteq> [] then manifest_files entries (dset k file files)
               else manifest_files entries files
           | _ \<Rightarrow> manifest_files entries files)
      | _ \<Rightarrow> manifest_files entries files)"

definition open_dir_provider :: "(pystr \<Rightarrow> pyval res) \<Rightarrow> pystr \<Rightarrow> dir_provider res" where
  "open_dir_provider read_json manifest_path =
     bind_res (read_json manifest_path) (\<lambda>manifest.
       case manifest of
         PDict m \<Rightarrow>
           Inr \<lparr>dp_dir = path_dirname manifest_path,
                dp_files = (case get_or_none m (u ''schemas'') of PList es \<Rightarrow> manifest_files es [] | _ \<Rightarrow> []),
                dp_cache = []\<rparr>
       | _ \<Rightarrow> Inl (Exc ValueError (u ''schema: invalid registry manifest '' @ [39] @ manifest_path @ [39])))"

definition load_schema :: "(pystr \<Rightarrow> pyval res) \<Rightarrow> dir_provider \<Rightarrow> pystr \<Rightarrow> pystr \<Rightarrow> pyval dict res" where
  "load_schema read_json p key file =
     bind_res (read_json (if starts_with [47] file then file else path_join (dp_dir p) file)) (\<lambda>v.
       case v of
         PDict d \<Rightarrow> Inr d
       | _ \<Rightarrow> Inl (Exc ValueError (u ''schema: invalid schema for '' @ [39] @ key @ [39] @ u '' ('' @ file @ u '')'')))"

definition dir_schema_for :: "(pystr \<Rightarrow> pyval res) \<Rightarrow> dir_provider schema_provider" where
  "dir_schema_for read_json key =
     (\<lambda>p. case dget (dp_cache p) key of
            Some d \<Rightarrow> (Inr (Some d), p)
          | None \<Rightarrow>
              (case dget (dp_files p) key of
                 None \<Rightarrow> (Inr None, p)
               | Some file \<Rightarrow>
                   (case load_schema read_json p key file of
                      Inl e \<Rightarrow> (Inl e, p)
                    | Inr d \<Rightarrow> (Inr (Some d), p\<lparr>dp_cache := dset key d (dp_cache p)\<rparr>))))"

section \<open>Sensitive paths\<close>

definition gdpr_mark :: "pyval dict \<Rightarrow> pystr option" where
  "gdpr_mark schema =
     (case get_or_none schema (u ''x-gdpr-sensitive'') of
        PBool b \<Rightarrow> if b then Some [] else None
      | PStr s \<Rightarrow> if s \<noteq> [] then Some s else None
      | _ \<Rightarrow> None)"

function collect_sensitive :: "pyval \<Rightarrow> pystr \<Rightarrow> (pystr \<times> pystr) list" where
  "collect_sensitive schema path =
     (case schema of
        PDict d \<Rightarrow>
          (case gdpr_mark d of None \<Rightarrow> [] | Some category \<Rightarrow> [(path, category)])
          @ concat (map (\<lambda>(name, sub). collect_sensitive sub (join_path path name)) (schema_properties d))
          @ (case dget d (u ''items'') of
               Some (PDict items) \<Rightarrow> collect_sensitive (PDict items) (path @ u ''[]'')
             | _ \<Rightarrow> [])
      | _ \<Rightarrow> [])"
  by pat_completeness auto

lemma size_schema_property: "(k, v) \<in> set (schema_properties d) \<Longrightarrow> size v < size (PDict d)"
proof -
  assume "(k, v) \<in> set (schema_properties d)"
  then obtain p where p: "dget d (u ''properties'') = Some (PDict p)" "(k, v) \<in> set p"
    by (cases "dget d (u ''properties'')") (auto simp: schema_properties_def split: pyval.splits dest: sym)
  from size_PDict_mem [OF p(2)] size_PDict_get [OF p(1)] show ?thesis by (rule less_trans)
qed

termination collect_sensitive
  by (relation "measure (\<lambda>(schema, path). size schema)")
     (auto simp del: pyval.size intro: size_schema_property size_PDict_get)

declare collect_sensitive.simps [simp del]

definition sensitive_paths :: "pyval \<Rightarrow> (pystr \<times> pystr) list" where
  "sensitive_paths schema = sort_key fst (collect_sensitive schema [])"

section \<open>The meaning of a schema\<close>

text \<open>
  The subset of JSON Schema as a predicate: what a value must satisfy, keyword by keyword. The verdict
  on a number is left to \<open>check_scalar\<close>.
\<close>

function conforms :: "pyval dict \<Rightarrow> pyval \<Rightarrow> bool" where
  "conforms schema value \<longleftrightarrow>
     (\<forall>c \<in> set_option (dget schema (u ''const'')). strict_equal value c)
     \<and> (case dget schema (u ''enum'') of Some (PList xs) \<Rightarrow> \<exists>x \<in> set xs. strict_equal value x | _ \<Rightarrow> True)
     \<and> (if get_or_none schema (u ''type'') = PStr (u ''object'')
        then (case value of
                PDict d \<Rightarrow>
                  (\<forall>k \<in> set (required_keys schema). dhas k d)
                  \<and> (\<forall>(name, item) \<in> set d.
                       case dget (schema_properties schema) name of
                         Some (PDict prop) \<Rightarrow> conforms prop item
                       | _ \<Rightarrow> additional_allowed schema)
              | _ \<Rightarrow> False)
        else if get_or_none schema (u ''type'') = PStr (u ''array'')
        then (case value of
                PList xs \<Rightarrow>
                  (case dget schema (u ''items'') of
                     Some (PDict items) \<Rightarrow> \<forall>x \<in> set xs. conforms items x
                   | _ \<Rightarrow> True)
              | _ \<Rightarrow> False)
        else check_scalar (get_or_none schema (u ''type'')) schema value [] = Inr None)"
  by pat_completeness auto
termination
  by (relation "measure (\<lambda>(schema, value). size (PDict schema))")
     (auto simp del: pyval.size intro: size_schema_properties size_PDict_get)

declare conforms.simps [simp del]

lemma first_some_None: "first_some f xs = Inr None \<longleftrightarrow> (\<forall>x \<in> set xs. f x = Inr None)"
  by (induction xs) (auto split: sum.split option.split)

lemma check_minimum_path:
  "check_minimum schema v p = Inr None \<longleftrightarrow> check_minimum schema v [] = Inr None"
  by (auto simp: check_minimum_def Let_def bind_res_Inr split: if_splits)

lemma check_scalar_path:
  "check_scalar typ schema v p = Inr None \<longleftrightarrow> check_scalar typ schema v [] = Inr None"
  using check_minimum_path [of schema v p]
  by (auto simp: check_scalar_def check_string_def Let_def bind_res_Inr split: pyval.splits if_splits)

lemma wrong_shape:
  assumes "get_or_none schema (u ''type'') = PStr (u t)" "t = ''object'' \<and> as_dict (Some v) = None
      \<or> t = ''array'' \<and> (\<forall>xs. v \<noteq> PList xs)"
  shows "validate_schema schema v path \<noteq> Inr None" "\<not> conforms schema v"
proof -
  have ne: "u ''array'' \<noteq> u ''object''" by simp
  show "validate_schema schema v path \<noteq> Inr None"
    using assms ne by (subst validate_schema.simps) (cases v; auto)
  show "\<not> conforms schema v"
    using assms ne by (subst conforms.simps) (cases v; auto)
qed

lemma validate_schema_conforms:
  "validate_schema schema v path = Inr None \<longleftrightarrow> conforms schema v"
proof (induction schema v path rule: validate_schema.induct)
  case (1 schema v path)
  show ?case
  proof (cases "wrong_const schema v \<or> not_in_enum schema v")
    case True
    then have "validate_schema schema v path \<noteq> Inr None"
      by (auto simp: validate_schema.simps [of schema v path])
    moreover have "\<not> conforms schema v"
      using True by (auto simp: conforms.simps [of schema v] wrong_const_def not_in_enum_def list_ex_iff
          split: option.splits pyval.splits)
    ultimately show ?thesis by simp
  next
    case False
    then have ce: "(\<forall>c \<in> set_option (dget schema (u ''const'')). strict_equal v c)
       \<and> (case dget schema (u ''enum'') of Some (PList xs) \<Rightarrow> \<exists>x \<in> set xs. strict_equal v x | _ \<Rightarrow> True)"
      by (auto simp: wrong_const_def not_in_enum_def list_ex_iff split: option.splits pyval.splits)
    show ?thesis
    proof (cases "get_or_none schema (u ''type'') = PStr (u ''object'')")
      case obj: True
      show ?thesis
      proof (cases v)
        case (PDict d)
        show ?thesis
        proof (cases "find (\<lambda>k. \<not> dhas k d) (required_keys schema)")
          case None
          have ih: "validate_schema p item (join_path path name) = Inr None \<longleftrightarrow> conforms p item"
            if "(name, item) \<in> set d" "dget (schema_properties schema) name = Some (PDict p)" for name item p
            using 1(1) [OF _ _ refl obj PDict None that(1) refl that(2) refl] False by simp
          have step: "(case dget (schema_properties schema) name of
                 Some (PDict prop) \<Rightarrow> validate_schema prop item (join_path path name)
               | _ \<Rightarrow> Inr (if additional_allowed schema then None
                          else Some (violation (join_path path name) ''additional_not_allowed''))) = Inr None
            \<longleftrightarrow> (case dget (schema_properties schema) name of
                Some (PDict prop) \<Rightarrow> conforms prop item | _ \<Rightarrow> additional_allowed schema)"
            if "(name, item) \<in> set d" for name item
            using ih [OF that] by (auto split: option.split pyval.split)
          have "(\<forall>x \<in> set d. (\<lambda>(name, item). case dget (schema_properties schema) name of
                 Some (PDict prop) \<Rightarrow> validate_schema prop item (join_path path name)
               | _ \<Rightarrow> Inr (if additional_allowed schema then None
                          else Some (violation (join_path path name) ''additional_not_allowed''))) x = Inr None)
            \<longleftrightarrow> (\<forall>(name, item) \<in> set d.
              case dget (schema_properties schema) name of
                Some (PDict prop) \<Rightarrow> conforms prop item | _ \<Rightarrow> additional_allowed schema)"
            by (intro ball_cong refl) (simp only: case_prod_unfold step prod.collapse)
          moreover have "\<forall>k \<in> set (required_keys schema). dhas k d"
            using None by (simp add: find_None_iff)
          ultimately show ?thesis
            using False ce
            by (subst validate_schema.simps, subst conforms.simps) (simp add: obj PDict None first_some_None)
        next
          case (Some k)
          then have "\<exists>k \<in> set (required_keys schema). \<not> dhas k d"
            by (auto simp: find_Some_iff)
          then have "\<not> conforms schema v"
            by (subst conforms.simps) (simp add: obj PDict)
          moreover have "validate_schema schema v path \<noteq> Inr None"
            using False by (subst validate_schema.simps) (simp add: obj PDict Some)
          ultimately show ?thesis by simp
        qed
      qed (use wrong_shape(1) [OF obj, of _ path] wrong_shape(2) [OF obj] in \<open>simp_all\<close>)
    next
      case nobj: False
      show ?thesis
      proof (cases "get_or_none schema (u ''type'') = PStr (u ''array'')")
        case arr: True
        show ?thesis
        proof (cases v)
          case (PList xs)
          have "(\<forall>(i, x) \<in> set (enumerate 0 xs). validate_schema items x (path @ u ''['' @ nat_str i @ u '']'') = Inr None)
              \<longleftrightarrow> (\<forall>x \<in> set xs. conforms items x)" if it: "dget schema (u ''items'') = Some (PDict items)" for items
          proof -
            have ih: "validate_schema items x (path @ u ''['' @ nat_str i @ u '']'') = Inr None \<longleftrightarrow> conforms items x"
              if m: "(i, x) \<in> set (enumerate 0 xs)" for i x
              using 1(2) [OF _ _ refl nobj arr PList it refl m refl] False by simp
            have "(\<forall>(i, x) \<in> set (enumerate 0 xs). validate_schema items x (path @ u ''['' @ nat_str i @ u '']'') = Inr None)
                \<longleftrightarrow> (\<forall>(i, x) \<in> set (enumerate 0 xs). conforms items x)"
              by (intro ball_cong refl) (simp only: case_prod_unfold ih prod.collapse)
            also have "\<dots> \<longleftrightarrow> (\<forall>x \<in> snd ` set (enumerate 0 xs). conforms items x)"
              by (simp add: case_prod_unfold)
            also have "snd ` set (enumerate 0 xs) = set xs"
              unfolding set_map [symmetric] by simp
            finally show ?thesis .
          qed
          with False ce show ?thesis
            by (subst validate_schema.simps, subst conforms.simps)
               (simp add: nobj arr PList first_some_None case_prod_unfold split: option.split pyval.split)
        qed (use wrong_shape(1) [OF arr, of _ path] wrong_shape(2) [OF arr] in \<open>simp_all\<close>)
      next
        case False': False
        with False nobj ce show ?thesis
          using check_scalar_path [of "get_or_none schema (u ''type'')" schema v path]
          by (simp add: validate_schema.simps [of schema v path] conforms.simps [of schema v] Let_def)
      qed
    qed
  qed
qed

section \<open>What the guards need of a provider\<close>

text \<open>
  A lookup answers what is registered and changes neither that nor the provider's invariant. From it
  follow the verdicts of \<open>check\<close>, \<open>validate\<close> and \<open>schema_wrap\<close>.
\<close>

locale schema_source =
  fixes schema_for :: "'s schema_provider"
    and inv :: "'s \<Rightarrow> bool"
    and registered :: "'s \<Rightarrow> pystr \<Rightarrow> pyval dict option res"
  assumes lookup: "inv s \<Longrightarrow> schema_for k s = (r, s') \<Longrightarrow>
      r = registered s k \<and> inv s' \<and> registered s' = registered s"
begin

definition acceptable :: "'s \<Rightarrow> pystr \<Rightarrow> pyval dict \<Rightarrow> bool" where
  "acceptable s k data \<longleftrightarrow>
     (case registered s k of
        Inl e \<Rightarrow> False
      | Inr None \<Rightarrow> True
      | Inr (Some schema) \<Rightarrow> conforms schema (PDict data))"

lemma validate_verdict:
  assumes "inv s" "validate schema_for k data s = (r, s')"
  shows "inv s' \<and> registered s' = registered s \<and> (r = Inr () \<longleftrightarrow> acceptable s k data)"
proof -
  obtain q t where l: "schema_for k s = (q, t)" by force
  from lookup [OF assms(1) l] have reg: "registered s k = q" and st: "inv t" "registered t = registered s"
    by simp_all
  show ?thesis
  proof (cases q)
    case (Inl e)
    with l assms(2) have "s' = t" "r = Inl e"
      by (simp_all add: validate_def check_def bind_op_def)
    with Inl reg st show ?thesis by (simp add: acceptable_def)
  next
    case (Inr sch)
    show ?thesis
    proof (cases sch)
      case None
      with Inr l assms(2) have "s' = t" "r = Inr ()"
        by (simp_all add: validate_def check_def bind_op_def ret_def)
      with None Inr reg st show ?thesis by (simp add: acceptable_def)
    next
      case (Some schema)
      have "validate_schema schema (PDict data) [] = Inr None \<longleftrightarrow> acceptable s k data"
        using reg Inr Some validate_schema_conforms [of schema "PDict data" "[]"] by (simp add: acceptable_def)
      moreover have "s' = t" "r = Inr () \<longleftrightarrow> validate_schema schema (PDict data) [] = Inr None"
        using Inr Some l assms(2)
        by (auto simp: validate_def check_def bind_op_def lift_res_def ret_def raise_op_def
            split: sum.splits option.splits)
      ultimately show ?thesis using st by simp
    qed
  qed
qed

lemma wrap_verdict:
  assumes "inv s"
  shows "\<exists>e t. inv t \<and> registered t = registered s \<and>
    schema_wrap schema_for k handler args s =
      (if acceptable s k (case args of PDict d # rest \<Rightarrow> d | _ \<Rightarrow> []) then handler args t else (Inl e, t))"
proof -
  let ?data = "case args of PDict d # rest \<Rightarrow> d | _ \<Rightarrow> []"
  obtain r t where v: "validate schema_for k ?data s = (r, t)" by force
  from validate_verdict [OF assms v] v show ?thesis
    by (intro exI [of _ "case r of Inl e \<Rightarrow> e | Inr x \<Rightarrow> Exc ValueError []"] exI [of _ t])
       (cases r; simp add: schema_wrap_def then_op_def bind_op_def Let_def)
qed

end

interpretation map_source: schema_source "map_schema_for schemas" "\<lambda>s. True" "\<lambda>s k. Inr (dget schemas k)"
  for schemas :: "pyval dict dict"
  by unfold_locales (auto simp: map_schema_for_def ret_def)

definition dir_registered :: "(pystr \<Rightarrow> pyval res) \<Rightarrow> dir_provider \<Rightarrow> pystr \<Rightarrow> pyval dict option res" where
  "dir_registered read_json p key =
     (case dget (dp_files p) key of
        None \<Rightarrow> Inr None
      | Some file \<Rightarrow> bind_res (load_schema read_json p key file) (\<lambda>d. Inr (Some d)))"

definition dir_inv :: "(pystr \<Rightarrow> pyval res) \<Rightarrow> dir_provider \<Rightarrow> bool" where
  "dir_inv read_json p \<longleftrightarrow>
     (\<forall>key d. dget (dp_cache p) key = Some d \<longrightarrow> dir_registered read_json p key = Inr (Some d))"

lemma load_schema_cache [simp]: "load_schema read_json (p\<lparr>dp_cache := c\<rparr>) key file = load_schema read_json p key file"
  by (simp add: load_schema_def)

lemma dir_registered_cache [simp]: "dir_registered read_json (p\<lparr>dp_cache := c\<rparr>) = dir_registered read_json p"
  by (rule ext) (simp add: dir_registered_def split: option.split)

interpretation dir_source: schema_source "dir_schema_for read_json" "dir_inv read_json" "dir_registered read_json"
  for read_json
proof (unfold_locales, goal_cases)
  case (1 p key r p')
  note inv = 1(1) and step = 1(2)
  show ?case
  proof (cases "dget (dp_cache p) key")
    case (Some d)
    with inv step show ?thesis
      by (simp add: dir_schema_for_def) (metis dir_inv_def)
  next
    case nocache: None
    show ?thesis
    proof (cases "dget (dp_files p) key")
      case None
      with nocache inv step show ?thesis
        by (auto simp: dir_schema_for_def dir_registered_def)
    next
      case found: (Some path)
      show ?thesis
      proof (cases "load_schema read_json p key path")
        case (Inl e)
        with nocache found inv step show ?thesis
          by (auto simp: dir_schema_for_def dir_registered_def)
      next
        case (Inr d)
        with found have reg: "dir_registered read_json p key = Inr (Some d)"
          by (simp add: dir_registered_def)
        have "r = Inr (Some d)" "p' = p\<lparr>dp_cache := dset key d (dp_cache p)\<rparr>"
          using nocache found Inr step by (simp_all add: dir_schema_for_def)
        with reg inv show ?thesis
          by (simp add: dir_inv_def)
      qed
    qed
  qed
qed

section \<open>Properties\<close>



definition demo_files :: "pystr \<Rightarrow> pyval res" where
  "demo_files path =
     (if path = u ''/r/registry.json''
      then loads (u ''{\"schemas\":[{\"urn\":\"urn:x\",\"schema\":\"x.json\"}]}'')
      else if path = u ''/r/x.json''
      then loads (u ''{\"type\":\"object\",\"required\":[\"n\"],\"properties\":{\"n\":{\"type\":\"integer\",\"minimum\":1}}}'')
      else Inl (Exc (UserError (u ''FileNotFoundError'')) path))"


end
