(* ===== verification/Gdpr.thy ===== *)
theory Gdpr
  imports Schema JsonPrint Utf8 "HOL-Library.Sublist"
begin

text \<open>
  \<open>gdpr.py\<close>: the runtime encryption of the fields a schema marks as sensitive. The caller's cipher is a
  record of operations on its own world; the data are edited in place, so an edit answers the edited
  value even when it raises.
\<close>

section \<open>Leaves\<close>

record 'w cipher =
  c_encrypt :: "bytes \<Rightarrow> ('w, pystr) op"
  c_decrypt :: "pystr \<Rightarrow> ('w, bytes) op"

text \<open>\<open>sort_keys=True\<close> orders the items of every dictionary by key.\<close>

fun sort_val :: "pyval \<Rightarrow> pyval" where
  "sort_val (PList xs) = PList (map sort_val xs)"
| "sort_val (PDict d) = PDict (sort_key fst (map (\<lambda>(k, v). (k, sort_val v)) d))"
| "sort_val v = v"

text \<open>
  \<open>json.loads\<close> of bytes. A byte order mark or a null byte among the first bytes selects another
  encoding than UTF-8; every encoding is read with surrogates let through.
\<close>

definition decode_cp_pass :: "bytes \<Rightarrow> (nat \<times> bytes) option" where
  "decode_cp_pass bs =
     (case bs of
        a # b # c # r \<Rightarrow>
          if a = 0xED \<and> 0xA0 \<le> b \<and> is_cont b \<and> is_cont c
          then Some (0xD000 + (b - 0x80) * 64 + (c - 0x80), r) else decode_cp bs
      | _ \<Rightarrow> decode_cp bs)"

lemma decode_cp_pass_length: "decode_cp_pass bs = Some (c, r) \<Longrightarrow> length r < length bs"
  by (auto simp: decode_cp_pass_def split: list.splits if_splits dest: decode_cp_length)

function utf8_decode_pass :: "bytes \<Rightarrow> pystr option" where
  "utf8_decode_pass bs =
     (if bs = [] then Some []
      else case decode_cp_pass bs of
             None \<Rightarrow> None
           | Some (c, r) \<Rightarrow> (case utf8_decode_pass r of None \<Rightarrow> None | Some cs \<Rightarrow> Some (c # cs)))"
  by pat_completeness auto
termination
  by (relation "measure length") (auto dest: decode_cp_pass_length)

declare utf8_decode_pass.simps [simp del]

text \<open>UTF-16 and UTF-32 text, either byte order; a surrogate that is no half of a pair is let through.\<close>

fun utf16_units :: "(nat \<Rightarrow> nat \<Rightarrow> nat) \<Rightarrow> bytes \<Rightarrow> nat list option" where
  "utf16_units unit [] = Some []"
| "utf16_units unit [a] = None"
| "utf16_units unit (a # b # r) = map_option ((#) (unit a b)) (utf16_units unit r)"

fun join_pairs :: "nat list \<Rightarrow> pystr" where
  "join_pairs (a # b # r) =
     (if is_high a \<and> is_low b then (0x10000 + (a - 0xD800) * 1024 + (b - 0xDC00)) # join_pairs r
      else a # join_pairs (b # r))"
| "join_pairs r = r"

fun utf32_text :: "(nat \<Rightarrow> nat \<Rightarrow> nat \<Rightarrow> nat \<Rightarrow> nat) \<Rightarrow> bytes \<Rightarrow> pystr option" where
  "utf32_text unit [] = Some []"
| "utf32_text unit (a # b # c # d # r) =
     (if unit a b c d < 0x110000 then map_option ((#) (unit a b c d)) (utf32_text unit r) else None)"
| "utf32_text unit r = None"

definition big :: "nat \<Rightarrow> nat \<Rightarrow> nat" where
  "big a b = 256 * a + b"

definition utf16_text :: "bool \<Rightarrow> bytes \<Rightarrow> pystr option" where
  "utf16_text little bs = map_option join_pairs (utf16_units (\<lambda>a b. if little then big b a else big a b) bs)"

definition utf32_of :: "bool \<Rightarrow> bytes \<Rightarrow> pystr option" where
  "utf32_of little =
     utf32_text (\<lambda>a b c d. if little then 65536 * big d c + big b a else 65536 * big a b + big c d)"

text \<open>\<open>json.detect_encoding\<close> and the decoding it selects: byte order marks first, then the null bytes.\<close>

definition json_text :: "bytes \<Rightarrow> pystr option" where
  "json_text bs =
     (if starts_with [0, 0, 0xFE, 0xFF] bs then utf32_of False (drop 4 bs)
      else if starts_with [0xFF, 0xFE, 0, 0] bs then utf32_of True (drop 4 bs)
      else if starts_with [0xFE, 0xFF] bs then utf16_text False (drop 2 bs)
      else if starts_with [0xFF, 0xFE] bs then utf16_text True (drop 2 bs)
      else if starts_with [0xEF, 0xBB, 0xBF] bs then utf8_decode_pass (drop 3 bs)
      else case bs of
             a # b # c # d # r \<Rightarrow>
               if a = 0 then (if b \<noteq> 0 then utf16_text False bs else utf32_of False bs)
               else if b = 0 then (if c \<noteq> 0 \<or> d \<noteq> 0 then utf16_text True bs else utf32_of True bs)
               else utf8_decode_pass bs
           | [a, b] \<Rightarrow>
               if a = 0 then utf16_text False bs
               else if b = 0 then utf16_text True bs
               else utf8_decode_pass bs
           | _ \<Rightarrow> utf8_decode_pass bs)"

definition loads_bytes :: "bytes \<Rightarrow> pyval res" where
  "loads_bytes bs =
     (case json_text bs of
        None \<Rightarrow> Inl (Exc ValueError (u ''codec can't decode bytes''))
      | Some t \<Rightarrow> loads t)"

type_synonym 'w leaf_op = "pyval \<Rightarrow> ('w, pyval option) op"

definition encrypt_leaf :: "'w cipher \<Rightarrow> 'w leaf_op" where
  "encrypt_leaf c v =
     bind_op (lift_res (dump_val True max_nesting (sort_val v))) (\<lambda>plaintext.
     bind_op (c_encrypt c plaintext) (\<lambda>ct. ret (Some (PStr ct))))"

definition decrypt_error :: "string \<Rightarrow> exc \<Rightarrow> exc" where
  "decrypt_error msg e = Exc DecryptError (u msg @ exc_str e)"

definition decrypt_leaf :: "'w cipher \<Rightarrow> 'w leaf_op" where
  "decrypt_leaf c v =
     (case v of
        PStr ct \<Rightarrow>
          bind_op (catch_exc (c_decrypt c ct) (\<lambda>e. raise_op (decrypt_error ''cannot decrypt a protected field: '' e)))
            (\<lambda>plaintext.
               case loads_bytes plaintext of
                 Inl e \<Rightarrow>
                   raise_op (if exc_class_of e = ValueError \<or> exc_class_of e = TypeError
                             then decrypt_error ''decrypted plaintext is not JSON: '' e else e)
               | Inr restored \<Rightarrow> ret (Some restored))
      | _ \<Rightarrow> ret None)"

section \<open>Paths\<close>

type_synonym segment = "pystr \<times> bool"

fun split_dots :: "pystr \<Rightarrow> pystr list" where
  "split_dots [] = [[]]"
| "split_dots (c # cs) =
     (if c = 46 then [] # split_dots cs
      else case split_dots cs of [] \<Rightarrow> [[c]] | p # ps \<Rightarrow> (c # p) # ps)"

definition parse_part :: "pystr \<Rightarrow> segment" where
  "parse_part part =
     (if 2 \<le> length part \<and> ends_with (u ''[]'') part then (take (length part - 2) part, True) else (part, False))"

definition parse_path :: "pystr \<Rightarrow> segment list" where
  "parse_path path = (if path = [] then [] else map parse_part (split_dots path))"

type_synonym 'w edit = "'w \<Rightarrow> unit res \<times> pyval \<times> 'w"

definition leaf_edit :: "'w leaf_op \<Rightarrow> pyval \<Rightarrow> 'w edit" where
  "leaf_edit f v =
     (\<lambda>w. case f v w of
            (Inl e, w') \<Rightarrow> (Inl e, v, w')
          | (Inr None, w') \<Rightarrow> (Inr (), v, w')
          | (Inr (Some v'), w') \<Rightarrow> (Inr (), v', w'))"

fun edit_elems :: "(pyval \<Rightarrow> 'w edit) \<Rightarrow> pyval list \<Rightarrow> 'w \<Rightarrow> unit res \<times> pyval list \<times> 'w" where
  "edit_elems f [] w = (Inr (), [], w)"
| "edit_elems f (x # xs) w =
     (case f x w of
        (Inl e, x', w') \<Rightarrow> (Inl e, x' # xs, w')
      | (Inr y, x', w') \<Rightarrow> (case edit_elems f xs w' of (r, xs', w'') \<Rightarrow> (r, x' # xs', w'')))"

fun apply_at_path :: "'w leaf_op \<Rightarrow> segment list \<Rightarrow> pyval \<Rightarrow> 'w edit" where
  "apply_at_path f [] node w = (Inr (), node, w)"
| "apply_at_path f ((key, is_array) # segments) node w =
     (case node of
        PDict d \<Rightarrow>
          (case dget d key of
             None \<Rightarrow> (Inr (), node, w)
           | Some child \<Rightarrow>
               let edit = (if segments = [] then leaf_edit f else apply_at_path f segments)
               in if is_array
                  then (case child of
                          PList xs \<Rightarrow>
                            (case edit_elems edit xs w of
                               (r, xs', w') \<Rightarrow> (r, PDict (dset key (PList xs') d), w'))
                        | _ \<Rightarrow> (Inr (), node, w))
                  else (case edit child w of (r, child', w') \<Rightarrow> (r, PDict (dset key child' d), w')))
      | _ \<Rightarrow> (Inr (), node, w))"

fun walk_paths :: "'w leaf_op \<Rightarrow> pystr list \<Rightarrow> pyval \<Rightarrow> 'w edit" where
  "walk_paths f [] node w = (Inr (), node, w)"
| "walk_paths f (p # ps) node w =
     (case apply_at_path f (parse_path p) node w of
        (Inl e, node', w') \<Rightarrow> (Inl e, node', w')
      | (Inr x, node', w') \<Rightarrow> walk_paths f ps node' w')"

definition walk :: "'w leaf_op \<Rightarrow> pyval \<Rightarrow> pyval \<Rightarrow> 'w edit" where
  "walk f schema data = walk_paths f (map fst (sensitive_paths schema)) data"

text \<open>A schema or data that is \<open>None\<close> marks nothing.\<close>

definition protect :: "'w cipher option \<Rightarrow> pyval \<Rightarrow> pyval \<Rightarrow> 'w edit" where
  "protect c schema data w =
     (case c of None \<Rightarrow> (Inr (), data, w) | Some k \<Rightarrow> walk (encrypt_leaf k) schema data w)"

definition unprotect :: "'w cipher option \<Rightarrow> pyval \<Rightarrow> pyval \<Rightarrow> 'w edit" where
  "unprotect c schema data w =
     (case c of None \<Rightarrow> (Inr (), data, w) | Some k \<Rightarrow> walk (decrypt_leaf k) schema data w)"

section \<open>A cipher to run\<close>

text \<open>A cipher that marks what it produced, and refuses what it did not.\<close>

definition demo_cipher :: "unit cipher" where
  "demo_cipher =
     \<lparr>c_encrypt = (\<lambda>bs. ret (115 # bs)),
      c_decrypt = (\<lambda>ct. case ct of
         [] \<Rightarrow> raise_op (Exc ValueError (u ''tampered''))
       | c # bs \<Rightarrow> if c = 115 then ret bs else raise_op (Exc ValueError (u ''tampered'')))\<rparr>"

definition marked :: "(string \<times> pyval) list \<Rightarrow> pyval" where
  "marked xs = PDict ((u ''x-gdpr-sensitive'', PBool True) # map (\<lambda>(k, v). (u k, v)) xs)"

definition nested_marks :: "pyval" where
  "nested_marks =
     PDict [(u ''properties'', PDict [(u ''p'', marked [(''properties'', PDict [(u ''n'', marked [])])])])]"

definition nested_data :: "pyval" where
  "nested_data = PDict [(u ''p'', PDict [(u ''n'', PStr (u ''hi''))])]"


definition array_marks :: "pyval" where
  "array_marks =
     PDict [(u ''properties'', PDict [(u ''m'', PDict [(u ''items'', PDict [(u ''items'', marked [])])])])]"

definition array_data :: "pyval" where
  "array_data = PDict [(u ''m'', PList [PList [PStr (u ''hi'')]])]"

text \<open>
  A mark inside an array of arrays is reported by \<open>sensitive_paths\<close> and yet protects nothing: the
  path \<open>m[][]\<close> is read as the element of a field named \<open>m[]\<close>, which the data do not have, and the
  marked strings leave in clear text without an error.
\<close>

theorem nested_array_leaves_clear_text:
  "sensitive_paths array_marks = [(u ''m[][]'', [])] \<and>
   protect (Some demo_cipher) array_marks array_data () = (Inr (), array_data, ())"
  by code_simp

end
