(* ===== verification/Kafka.thy ===== *)
theory Kafka
  imports Runtime Headers
begin

text \<open>
  \<open>kafka_transport.py\<close>, the values: what a record and its headers say (version gate, attempts, poison
  verdict), and the record written for a body (projection, retry tiers, poison wrap). A container in a
  projected member prints as its type's name. The transport itself is in \<open>KafkaTransport\<close>.
\<close>

section \<open>Records\<close>

text \<open>
  A consumed record, as the client library hands it over. \<open>km_position\<close> is the topic, partition and
  offset; a stand-in that is no Kafka record has none.
\<close>

type_synonym kafka_headers = "(raw_text \<times> raw_text) list"

record kafka_message =
  km_position :: "((pystr \<times> int) \<times> int) option"
  km_headers :: kafka_headers
  km_value :: raw_text
  km_key :: "bytes option"

text \<open>The arguments of \<open>produce\<close>.\<close>

record kafka_record =
  kr_value :: bytes
  kr_headers :: "(pystr \<times> bytes) list"
  kr_timestamp :: "int option"
  kr_key :: "bytes option"

definition NON_UTF8_ROUTE :: pystr where
  "NON_UTF8_ROUTE = UNSUPPORTED_SCHEMA_ROUTE_PREFIX @ u ''non-utf8-payload''"

definition POISON_ROUTE :: pystr where
  "POISON_ROUTE = UNSUPPORTED_SCHEMA_ROUTE_PREFIX @ u ''poison''"

definition DELAY_HEADER :: pystr where
  "DELAY_HEADER = u ''bq-delay''"

definition ORIGINAL_TOPIC_HEADER :: pystr where
  "ORIGINAL_TOPIC_HEADER = u ''bq-original-topic''"

section \<open>Configuration\<close>

definition retry_topic :: "pystr \<Rightarrow> nat \<Rightarrow> pystr" where
  "retry_topic work_topic n = work_topic @ u ''.retry.'' @ nat_str n"

text \<open>A tier that is no positive integer, or not above the one before it, is refused.\<close>

fun tiers_from :: "pyval list \<Rightarrow> int list \<Rightarrow> int list res" where
  "tiers_from [] out = Inr out"
| "tiers_from (tier # tiers) out =
     (case tier of
        PInt t \<Rightarrow>
          if t \<le> 0
          then Inl (Exc ValueError (u ''retry_tiers_ms must hold positive integer milliseconds''))
          else if out \<noteq> [] \<and> t \<le> last out
          then Inl (Exc ValueError (u ''retry_tiers_ms must be strictly ascending''))
          else tiers_from tiers (out @ [t])
      | _ \<Rightarrow> Inl (Exc ValueError (u ''retry_tiers_ms must hold positive integer milliseconds'')))"

definition validated_tiers :: "pyval list option \<Rightarrow> int list res" where
  "validated_tiers tiers = (case tiers of None \<Rightarrow> Inr [] | Some ts \<Rightarrow> tiers_from ts [])"

definition brokers_from_url :: "pystr \<Rightarrow> pystr" where
  "brokers_from_url url =
     (let scheme = before_scheme_sep url;
          rest = (if length scheme < length url then drop (length scheme + 3) url else url);
          hosts = takeWhile (\<lambda>c. c \<noteq> 47) rest
      in if hosts = [] then u ''localhost:9092'' else hosts)"

section \<open>Reading a record\<close>

text \<open>Python's \<open>int(raw)\<close> where a \<open>ValueError\<close> is caught.\<close>

definition runtime_attempts :: "pyval dict \<Rightarrow> int res" where
  "runtime_attempts env =
     (case (case dget env (u ''attempts'') of None \<Rightarrow> PInt 0 | Some v \<Rightarrow> v) of
        PNone \<Rightarrow> Inr 0
      | PBool b \<Rightarrow> Inl (Exc ValueError (u ''attempts is a bool''))
      | v \<Rightarrow>
          (case py_int v of
             Inr i \<Rightarrow> Inr i
           | Inl e \<Rightarrow>
               if exc_class_of e = TypeError \<or> exc_class_of e = OverflowError
               then Inl (Exc ValueError (u ''attempts is not an integer''))
               else Inl e))"

definition attempts_or :: "int \<Rightarrow> int res \<Rightarrow> int res" where
  "attempts_or d r = (case r of Inr i \<Rightarrow> Inr i | Inl e \<Rightarrow> if exc_class_of e = ValueError then Inr d else Inl e)"

text \<open>\<open>str(value)\<close> of a header value that is no bytes.\<close>

definition value_text :: "raw_text \<Rightarrow> pystr" where
  "value_text v = (case header_text v of Some t \<Rightarrow> t | None \<Rightarrow> u ''None'')"

text \<open>The first header of a name, its key read as text when it is bytes.\<close>

definition find_header :: "kafka_headers \<Rightarrow> pystr \<Rightarrow> raw_text option" where
  "find_header headers wanted =
     map_option snd (find (\<lambda>(k, v). header_text k = Some wanted) headers)"

definition unsupported_schema_version :: "kafka_headers \<Rightarrow> pystr option" where
  "unsupported_schema_version headers =
     (case find_header headers (u ''bq-schema-version'') of
        None \<Rightarrow> None
      | Some RawNone \<Rightarrow> None
      | Some v \<Rightarrow>
          let raw = value_text v
          in if set raw \<subseteq> set ASCII_WHITESPACE \<or> raw = int_str SCHEMA_VERSION then None else Some raw)"

definition header_value :: "kafka_headers \<Rightarrow> pystr \<Rightarrow> pystr option" where
  "header_value headers wanted =
     (case find_header headers wanted of None \<Rightarrow> None | Some v \<Rightarrow> header_text v)"

definition header_attempts :: "kafka_headers \<Rightarrow> int" where
  "header_attempts headers =
     (case header_value headers (u ''bq-attempts'') of
        None \<Rightarrow> 0
      | Some raw \<Rightarrow> (case int_of_str raw of Inr i \<Rightarrow> max i 0 | Inl e \<Rightarrow> 0))"

definition payload :: "kafka_message \<Rightarrow> pystr" where
  "payload m =
     (case km_value m of RawBytes b \<Rightarrow> utf8_decode_escape b | RawStr s \<Rightarrow> s | RawNone \<Rightarrow> [])"

definition is_non_utf8 :: "kafka_message \<Rightarrow> bool" where
  "is_non_utf8 m = (case km_value m of RawBytes b \<Rightarrow> utf8_decode b = None | _ \<Rightarrow> False)"

definition decode_failure :: "pystr \<Rightarrow> pystr option res" where
  "decode_failure txt =
     (case envelope_violation txt of
        Some violation \<Rightarrow> Inr (Some violation)
      | None \<Rightarrow>
          (case loads txt of
             Inr v \<Rightarrow> Inr None
           | Inl e \<Rightarrow>
               if exc_class_of e = ValueError
               then Inr (Some (u ''the core decoder cannot parse the body: '' @ exc_str e)) else Inl e))"

text \<open>The header counts only under a key that is text; an unreadable value leaves the body's count.\<close>

definition reconciled_attempts :: "kafka_headers \<Rightarrow> int \<Rightarrow> int" where
  "reconciled_attempts headers body_attempts =
     (case find (\<lambda>(k, v). k = RawStr (u ''bq-attempts'')) headers of
        None \<Rightarrow> body_attempts
      | Some (k, v) \<Rightarrow> (case int_of_str (value_text v) of Inr i \<Rightarrow> i | Inl e \<Rightarrow> body_attempts))"

definition reconcile :: "pystr \<Rightarrow> kafka_headers \<Rightarrow> pystr res" where
  "reconcile body headers =
     bind_res (fst (decode_lenient body)) (\<lambda>env.
       if env = [] then Inr body
       else case runtime_attempts env of
              Inl e \<Rightarrow> if exc_class_of e = ValueError then Inr body else Inl e
            | Inr body_attempts \<Rightarrow>
                let attempts = reconciled_attempts headers body_attempts
                in if attempts = body_attempts \<and> dget env (u ''attempts'') \<noteq> Some PNone then Inr body
                   else encode (dset (u ''attempts'') (PInt attempts) env))"

section \<open>Writing a record\<close>

text \<open>A member is projected when it is neither \<open>None\<close> nor the empty string.\<close>

definition project :: "string \<Rightarrow> pyval \<Rightarrow> (pystr \<times> bytes) list res" where
  "project key v =
     (if v = PNone \<or> v = PStr [] then Inr []
      else bind_res (utf8_bytes (py_str v)) (\<lambda>b. Inr [(u key, b)]))"

definition projection :: "pystr \<Rightarrow> (pystr \<times> bytes) list res" where
  "projection body =
     bind_res (parse_envelope body) (\<lambda>env.
       if env = [] then Inr []
       else
         let meta = (case dget env (u ''meta'') of Some (PDict m) \<Rightarrow> m | _ \<Rightarrow> []);
             version = get_or_none meta (u ''schema_version'')
         in bind_res (project ''bq-job'' (get_or_none env (u ''job''))) (\<lambda>job.
            bind_res (project ''bq-trace-id'' (get_or_none env (u ''trace_id''))) (\<lambda>trace.
            bind_res (project ''bq-message-id'' (get_or_none meta (u ''id''))) (\<lambda>id.
            bind_res (if version = PNone then Inr []
                      else bind_res (utf8_bytes (py_str version)) (\<lambda>b. Inr [(u ''bq-schema-version'', b)])) (\<lambda>ver.
            bind_res (project ''bq-source-lang'' (get_or_none meta (u ''lang''))) (\<lambda>lang.
            bind_res (case runtime_attempts env of
                        Inr n \<Rightarrow> Inr [(u ''bq-attempts'', int_str n)]
                      | Inl e \<Rightarrow> if exc_class_of e = ValueError then Inr [] else Inl e) (\<lambda>attempts.
            Inr (job @ trace @ id @ ver @ lang @ attempts))))))))"

definition clean_surrogates :: "pystr \<Rightarrow> pystr" where
  "clean_surrogates s = map (\<lambda>c. if is_surrogate c \<and> \<not> (0xDC80 \<le> c \<and> c \<le> 0xDCFF) then 0xFFFD else c) s"

definition record_timestamp :: "pyval dict \<Rightarrow> int option res" where
  "record_timestamp env =
     (let created_at = (case dget env (u ''meta'') of Some (PDict m) \<Rightarrow> get_or_none m (u ''created_at'') | _ \<Rightarrow> PNone)
      in if truthy created_at
         then (case py_int created_at of
                 Inr i \<Rightarrow> Inr (Some i)
               | Inl e \<Rightarrow> if exc_class_of e \<in> {ValueError, TypeError, OverflowError} then Inr None else Inl e)
         else Inr None)"

definition record_kwargs :: "bool \<Rightarrow> pystr \<Rightarrow> kafka_record res" where
  "record_kwargs raw_ok body =
     (case utf8_bytes body of
        Inl e \<Rightarrow>
          if \<not> raw_ok then Inl e
          else (case utf8_surrogateescape (clean_surrogates body) of
                  None \<Rightarrow> Inl e
                | Some b \<Rightarrow> Inr \<lparr>kr_value = b, kr_headers = [], kr_timestamp = None, kr_key = None\<rparr>)
      | Inr b \<Rightarrow>
          bind_res (projection body) (\<lambda>headers.
          bind_res (parse_envelope body) (\<lambda>env.
          bind_res (record_timestamp env) (\<lambda>ts.
            Inr \<lparr>kr_value = b, kr_headers = headers, kr_timestamp = ts, kr_key = None\<rparr>))))"

text \<open>The out-of-band headers that no projected header already names, in their order.\<close>

fun extra_headers :: "pystr list \<Rightarrow> (pystr \<times> pystr) list \<Rightarrow> (pystr \<times> bytes) list res" where
  "extra_headers taken [] = Inr []"
| "extra_headers taken ((name, v) # hs) =
     (if name \<in> set taken then extra_headers taken hs
      else bind_res (utf8_bytes v) (\<lambda>b. bind_res (extra_headers taken hs) (\<lambda>r. Inr ((name, b) # r))))"

definition with_extra_headers :: "(pystr \<times> bytes) list \<Rightarrow> headers \<Rightarrow> (pystr \<times> bytes) list res" where
  "with_extra_headers projected extra =
     bind_res (extra_headers (map fst projected)
                 (out_of_band_headers (RawItems (map (\<lambda>(k, v). RawPair (RawStr k) (RawStr v)) extra))))
       (\<lambda>hs. Inr (projected @ hs))"

definition poison_body :: "pystr \<Rightarrow> pystr \<Rightarrow> pystr \<Rightarrow> int \<Rightarrow> int \<Rightarrow> pystr res" where
  "poison_body txt cause oq attempts now_ms =
     build_poison_record txt
       (dead_letter_block (u ''poison'') oq attempts
          (Some (u ''Undecodable BabelQueue body: '' @ cause)) (Some (u ''BabelQueueError'')) SOURCE_LANG now_ms)"

section \<open>Retry tiers\<close>

definition tier_record ::
  "pystr \<Rightarrow> pystr \<Rightarrow> nat \<Rightarrow> int \<Rightarrow> int option \<Rightarrow> (pystr \<times> kafka_record) res" where
  "tier_record work_topic body n delay_ms bq_attempts =
     bind_res (record_kwargs False body) (\<lambda>r.
     bind_res (utf8_bytes work_topic) (\<lambda>topic.
       let hs = filter (\<lambda>h. fst h \<notin> {DELAY_HEADER, ORIGINAL_TOPIC_HEADER}) (kr_headers r);
           hs1 = (case bq_attempts of
                    None \<Rightarrow> hs
                  | Some a \<Rightarrow> filter (\<lambda>h. fst h \<noteq> u ''bq-attempts'') hs @ [(u ''bq-attempts'', int_str a)])
       in Inr (retry_topic work_topic n,
               r\<lparr>kr_headers := hs1 @ [(DELAY_HEADER, int_str delay_ms), (ORIGINAL_TOPIC_HEADER, topic)]\<rparr>)))"

definition attempts_before :: "pystr \<Rightarrow> int res" where
  "attempts_before body =
     bind_res (fst (decode_lenient body)) (\<lambda>env.
       if env = [] then Inr 0
       else attempts_or 0 (bind_res (runtime_attempts env) (\<lambda>n. Inr (max n 0))))"

definition with_attempts :: "pystr \<Rightarrow> int \<Rightarrow> pystr res" where
  "with_attempts body attempts =
     bind_res (fst (decode_lenient body)) (\<lambda>env.
       if env = [] then Inr body
       else case runtime_attempts env of
              Inl e \<Rightarrow>
                if exc_class_of e = ValueError then encode (dset (u ''attempts'') (PInt attempts) env) else Inl e
            | Inr n \<Rightarrow>
                if n = attempts \<and> get_or_none env (u ''attempts'') \<noteq> PNone then Inr body
                else encode (dset (u ''attempts'') (PInt attempts) env))"

text \<open>The first tier (counted from 1) whose delay covers the requested one.\<close>

fun covering_tier :: "nat \<Rightarrow> int list \<Rightarrow> int \<Rightarrow> nat option" where
  "covering_tier n [] delay_ms = None"
| "covering_tier n (tier_ms # tiers) delay_ms =
     (if delay_ms \<le> tier_ms then Some n else covering_tier (Suc n) tiers delay_ms)"

text \<open>\<open>urllib.parse.quote(s, safe="")\<close>.\<close>

definition quote_byte :: "nat \<Rightarrow> pystr" where
  "quote_byte b =
     (if is_digit b \<or> 65 \<le> b \<and> b \<le> 90 \<or> 97 \<le> b \<and> b \<le> 122 \<or> b \<in> {45, 46, 95, 126} then [b]
      else let hex = (\<lambda>n. if n < 10 then 48 + n else 55 + n) in [37, hex (b div 16), hex (b mod 16)])"

definition quote :: "pystr \<Rightarrow> pystr res" where
  "quote s = bind_res (utf8_bytes s) (\<lambda>bs. Inr (concat (map quote_byte bs)))"

section \<open>Offsets\<close>

text \<open>
  An offset per topic and partition. A rebalance may put a partition back to its committed offset; a
  write touches neither positions nor commits.
\<close>

type_synonym offsets = "pystr \<times> int \<Rightarrow> int"

definition rebalanced :: "offsets \<Rightarrow> offsets \<Rightarrow> offsets \<Rightarrow> bool" where
  "rebalanced com p p' \<longleftrightarrow> (\<forall>tp. p' tp = p tp \<or> p' tp = com tp)"

definition keeps_offsets :: "('w \<Rightarrow> offsets) \<Rightarrow> ('w \<Rightarrow> offsets) \<Rightarrow> ('w, 'a) op \<Rightarrow> bool" where
  "keeps_offsets pos com f \<longleftrightarrow> (\<forall>w. pos (snd (f w)) = pos w \<and> com (snd (f w)) = com w)"

end
