(* ===== verification/Endpoints.thy ===== *)
theory Endpoints
  imports Transport
begin

text \<open>
  The senders, receivers, producers and consumers of the AMQP and Pulsar transports: one per queue,
  opened by the first operation that needs it and found again by every later one
  (\<open>_sender\<close>, \<open>_receiver\<close>, \<open>_producer\<close>, \<open>_consumer\<close>), and closed one by one, whatever a
  close raises. A locale states what the transports rely on; a step relation holds every call the
  runtime makes on a transport.
\<close>

section \<open>Finding or opening\<close>

text \<open>\<open>cached get put create\<close>: the entry of the queue, opened and entered when there is none.\<close>

definition cached ::
  "('s \<Rightarrow> 'h dict) \<Rightarrow> (('h dict \<Rightarrow> 'h dict) \<Rightarrow> 's \<Rightarrow> 's) \<Rightarrow> (pystr \<Rightarrow> ('s, 'h) op) \<Rightarrow> pystr \<Rightarrow> ('s, 'h) op" where
  "cached get put create queue =
     (\<lambda>s. case dget (get s) queue of
            Some h \<Rightarrow> ret h s
          | None \<Rightarrow> bind_op (create queue) (\<lambda>h. then_op (modify (put (dset queue h))) (ret h)) s)"

text \<open>\<open>for resource in ...: try: resource.close() except Exception: pass\<close>.\<close>

fun close_each :: "('s, unit) op list \<Rightarrow> ('s, unit) op" where
  "close_each [] = ret ()"
| "close_each (c # cs) = then_op (catch_exc c (\<lambda>e. ret ())) (close_each cs)"

section \<open>Preservation\<close>

definition preserves :: "('s \<Rightarrow> bool) \<Rightarrow> ('s, 'a) op \<Rightarrow> bool" where
  "preserves I f \<longleftrightarrow> (\<forall>s. I s \<longrightarrow> I (snd (f s)))"

named_theorems preserve_rules "an invariant through each construct of an operation"

lemma preserves_ret [preserve_rules]: "preserves I (ret x)"
  by (simp add: preserves_def ret_def)

lemma preserves_lift [preserve_rules]: "preserves I (lift_res r)"
  by (simp add: preserves_def lift_res_def)

lemma preserves_modify [preserve_rules]: "(\<And>s. I s \<Longrightarrow> I (f s)) \<Longrightarrow> preserves I (modify f)"
  by (simp add: preserves_def modify_def)

lemma preserves_bind [preserve_rules]:
  "preserves I f \<Longrightarrow> (\<And>x. preserves I (g x)) \<Longrightarrow> preserves I (bind_op f g)"
  by (force simp: preserves_def bind_op_def split: prod.splits sum.splits)

lemma preserves_then [preserve_rules]: "preserves I f \<Longrightarrow> preserves I g \<Longrightarrow> preserves I (then_op f g)"
  by (simp add: then_op_def preserves_bind)

lemma preserves_catch [preserve_rules]:
  "preserves I f \<Longrightarrow> (\<And>e. preserves I (h e)) \<Longrightarrow> preserves I (catch_exc f h)"
  by (force simp: preserves_def catch_exc_def split: prod.splits sum.splits)

lemma preserves_option [preserve_rules]:
  "preserves I a \<Longrightarrow> (\<And>y. preserves I (f y)) \<Longrightarrow> preserves I (case x of None \<Rightarrow> a | Some y \<Rightarrow> f y)"
  by (simp split: option.split)

lemma preserves_pair [preserve_rules]: "(\<And>x y. preserves I (f x y)) \<Longrightarrow> preserves I (case p of (x, y) \<Rightarrow> f x y)"
  by (simp split: prod.split)

lemma preserves_lookup [preserve_rules]:
  "preserves I a \<Longrightarrow> (\<And>y. preserves I (f y)) \<Longrightarrow> preserves I (\<lambda>s. case g s of None \<Rightarrow> a s | Some y \<Rightarrow> f y s)"
  by (simp add: preserves_def split: option.split)

lemma preserves_test [preserve_rules]:
  "preserves I f \<Longrightarrow> preserves I g \<Longrightarrow> preserves I (\<lambda>s. if c s then f s else g s)"
  by (simp add: preserves_def)

lemma preserves_read [preserve_rules]: "preserves I (\<lambda>s. (g s, s))"
  by (simp add: preserves_def)

lemma preserves_close_each: "(\<And>c. c \<in> set cs \<Longrightarrow> preserves I c) \<Longrightarrow> preserves I (close_each cs)"
  by (induction cs) (simp_all add: preserve_rules)

lemma preserves_close_all:
  assumes "\<And>s c. c \<in> set (cs s) \<Longrightarrow> preserves I c"
  shows "preserves I (\<lambda>s. close_each (cs s) s)"
  unfolding preserves_def
proof (intro allI impI)
  fix s assume "I s"
  with preserves_close_each [of "cs s" I] assms show "I (snd (close_each (cs s) s))" by (simp add: preserves_def)
qed

section \<open>The contract of a cache\<close>

locale endpoint_cache =
  fixes entries :: "'s \<Rightarrow> 'h dict" and endpoint :: "pystr \<Rightarrow> ('s, 'h) op"
  assumes found: "dget (entries s) q = Some h \<Longrightarrow> endpoint q s = (Inr h, s)"
    and stored: "endpoint q s = (Inr h, s') \<Longrightarrow> dget (entries s') q = Some h"
    and kept: "dget (entries s) p = Some h \<Longrightarrow> dget (entries (snd (endpoint q s))) p = Some h"
begin

lemma again: "endpoint q s = (Inr h, s') \<Longrightarrow> endpoint q s' = (Inr h, s')"
  by (rule found) (rule stored)

lemma entry_preserved: "preserves (\<lambda>s. dget (entries s) p = Some h) (endpoint q)"
  by (simp add: preserves_def kept)

text \<open>While an entry stands, its queue is served by that endpoint and nothing is opened for it.\<close>

lemma served:
  assumes "endpoint q s = (Inr h, s1)" and "preserves (\<lambda>s. dget (entries s) q = Some h) f"
  shows "endpoint q (snd (f s1)) = (Inr h, snd (f s1))"
  using assms stored [OF assms(1)] by (intro found) (simp add: preserves_def)

end

lemma cached_laws:
  assumes "\<And>f s. get (put f s) = f (get s)" and "\<And>q s. get (snd (create q s)) = get s"
  shows "dget (get s) q = Some h \<Longrightarrow> cached get put create q s = (Inr h, s)"
    and "cached get put create q s = (Inr h, s') \<Longrightarrow> dget (get s') q = Some h"
    and "dget (get s) p = Some h \<Longrightarrow> dget (get (snd (cached get put create q s))) p = Some h"
  using assms(2) [of q s]
  by (auto simp: cached_def ret_def bind_op_def then_op_def modify_def assms(1) split: option.splits prod.splits sum.splits)

lemma preserves_cached:
  assumes "preserves I (create q)" and "\<And>s h. I s \<Longrightarrow> dget (get s) q = None \<Longrightarrow> I (put (dset q h) s)"
    and "\<And>s h. I s \<Longrightarrow> dget (get s) q = None \<Longrightarrow> dget (get (snd (create q s))) q = None"
  shows "preserves I (cached get put create q)"
  using assms
  by (force simp: preserves_def cached_def ret_def bind_op_def then_op_def modify_def split: option.splits prod.splits sum.splits)

section \<open>Every call of the runtime\<close>

inductive transport_step :: "'s transport \<Rightarrow> 's \<Rightarrow> 's \<Rightarrow> bool" for T where
  publish: "transport_step T s (snd (t_publish T q b s))"
| pop: "transport_step T s (snd (t_pop T q s))"
| ack: "transport_step T s (snd (t_ack T m s))"
| close: "transport_step T s (snd (t_close T s))"
| headers: "t_publish_with_headers T = Some f \<Longrightarrow> transport_step T s (snd (f q b hs s))"
| routed: "t_publish_routed T = Some f \<Longrightarrow> transport_step T s (snd (f q b r s))"
| settle: "t_publish_settle T = Some f \<Longrightarrow> transport_step T s (snd (f q b r k s))"
| redriven: "t_publish_redriven T = Some f \<Longrightarrow> transport_step T s (snd (f q b hs r k s))"
| redeliver: "t_redeliver T = Some f \<Longrightarrow> transport_step T s (snd (f m b d s))"
| dead_letter: "t_dead_letter T = Some f \<Longrightarrow> transport_step T s (snd (f m b q s))"
| rewind: "t_rewind T = Some f \<Longrightarrow> transport_step T s (snd (f m s))"
| abandon: "t_abandon T = Some f \<Longrightarrow> transport_step T s (snd (f m s))"
| native: "t_settle_native T = Some f \<Longrightarrow> transport_step T s (snd (f m r d s))"
| native_dead_letter: "t_settle_native_dead_letter T = Some f \<Longrightarrow> transport_step T s (snd (f m r d s))"
| batch: "t_pop_batch T = Some f \<Longrightarrow> transport_step T s (snd (f q n s))"

lemma steps_preserve:
  assumes "\<And>s s'. transport_step T s s' \<Longrightarrow> I s \<Longrightarrow> I s'" and "(transport_step T)\<^sup>*\<^sup>* s s'" and "I s"
  shows "I s'"
  using assms(2, 3) by (induction rule: rtranclp_induct) (auto intro: assms(1))

end
