(* ===== verification/KafkaTransport.thy ===== *)
theory KafkaTransport
  imports Kafka Endpoints
begin

text \<open>
  \<open>kafka_transport.py\<close>, the transport: publishing with or without the broker's confirmation, parking on
  the retry tiers, polling, and the books of records in flight and of records whose commit is deferred,
  by which an offset is only committed when every earlier record of the partition has been settled. The
  client library is a record of operations on its own world.
\<close>

section \<open>State\<close>

text \<open>
  The client library (confluent-kafka). \<open>kc_produce\<close> answers a ticket for the write, and \<open>kc_report\<close> the
  delivery report of a ticket once its callback has run: an error text, or \<open>Some None\<close> when the broker
  confirmed. \<open>kc_consumer\<close> makes the consumer of a queue (the caller's factory, or a new client subscribed to
  it); \<open>kc_flush_all\<close> flushes the producer, if there is one.
\<close>

datatype polled = NoRecord | ErrorEvent | Polled kafka_message

record 'w kafka_client =
  kc_consumer :: "pystr \<Rightarrow> ('w, unit) op"
  kc_poll :: "pystr \<Rightarrow> rat \<Rightarrow> ('w, polled) op"
  kc_commit :: "pystr \<Rightarrow> kafka_message \<Rightarrow> ('w, unit) op"
  kc_seek :: "pystr \<Rightarrow> pystr \<times> int \<Rightarrow> int \<Rightarrow> ('w, unit) op"
  kc_produce :: "pystr \<Rightarrow> kafka_record \<Rightarrow> ('w, nat) op"
  kc_serve :: "('w, unit) op"
  kc_flush :: "rat \<Rightarrow> ('w, unit) op"
  kc_flush_all :: "('w, unit) op"
  kc_close :: "pystr \<Rightarrow> ('w, unit) op"
  kc_report :: "'w \<Rightarrow> nat \<Rightarrow> pystr option option"
  kc_now_ms :: "'w \<Rightarrow> int"

record 'w kafka_setup = "'w kafka_client" +
  ks_tiers :: "int list"
  ks_delivery_timeout :: rat

text \<open>
  The books of the transport. A consumed record is an object of its own (its handle); \<open>kf_handles\<close> maps
  a handle to the record, \<open>kf_next\<close> is the next handle. \<open>kf_consumers\<close> are the queues that have a consumer.
\<close>

record 'w kafka =
  kf_world :: 'w
  kf_consumers :: "pystr list"
  kf_pending :: "nat list dict"
  kf_settled :: "nat list dict"
  kf_handles :: "nat \<Rightarrow> kafka_message option"
  kf_next :: nat

definition on_client :: "('w, 'a) op \<Rightarrow> ('w kafka, 'a) op" where
  "on_client f = (\<lambda>s. case f (kf_world s) of (r, w) \<Rightarrow> (r, s\<lparr>kf_world := w\<rparr>))"

definition put_book :: "pystr \<Rightarrow> nat list \<Rightarrow> nat list dict \<Rightarrow> nat list dict" where
  "put_book queue hs book = (if hs = [] then ddel queue book else dset queue hs book)"

definition position_of :: "'w kafka \<Rightarrow> nat \<Rightarrow> ((pystr \<times> int) \<times> int) option" where
  "position_of s h = (case kf_handles s h of None \<Rightarrow> None | Some m \<Rightarrow> km_position m)"

definition partition_of :: "'w kafka \<Rightarrow> nat \<Rightarrow> (pystr \<times> int) option" where
  "partition_of s h = map_option fst (position_of s h)"

definition offset_of :: "'w kafka \<Rightarrow> nat \<Rightarrow> int" where
  "offset_of s h = (case position_of s h of None \<Rightarrow> - 1 | Some (tp, off) \<Rightarrow> off)"

section \<open>Writing\<close>

definition produce_confirmed :: "'w kafka_setup \<Rightarrow> pystr \<Rightarrow> kafka_record \<Rightarrow> ('w kafka, unit) op" where
  "produce_confirmed K topic record =
     bind_op (on_client (kc_produce K topic record)) (\<lambda>ticket.
     then_op (on_client (kc_flush K (ks_delivery_timeout K)))
       (\<lambda>s. case kc_report K (kf_world s) ticket of
              None \<Rightarrow> raise_op (Exc KafkaDeliveryError (u ''Kafka delivery to '' @ quoted topic @ u '' was not confirmed'')) s
            | Some (Some err) \<Rightarrow>
                raise_op (Exc KafkaDeliveryError (u ''Kafka delivery to '' @ quoted topic @ u '' failed: '' @ err)) s
            | Some None \<Rightarrow> ret () s))"

definition kafka_publish :: "'w kafka_setup \<Rightarrow> pystr \<Rightarrow> pystr \<Rightarrow> ('w kafka, unit) op" where
  "kafka_publish K queue body =
     bind_op (lift_res (record_kwargs False body)) (\<lambda>r.
     then_op (on_client (kc_produce K queue r)) (on_client (kc_serve K)))"

definition kafka_publish_with_headers :: "'w kafka_setup \<Rightarrow> pystr \<Rightarrow> pystr \<Rightarrow> headers \<Rightarrow> ('w kafka, unit) op" where
  "kafka_publish_with_headers K queue body headers =
     bind_op (lift_res (record_kwargs False body)) (\<lambda>r.
     bind_op (lift_res (with_extra_headers (kr_headers r) headers)) (\<lambda>hs.
     then_op (on_client (kc_produce K queue (r\<lparr>kr_headers := hs\<rparr>))) (on_client (kc_serve K))))"

text \<open>The body the settle path writes: a poison body is wrapped unless it goes back where it came from.\<close>

definition settle_body :: "pystr \<Rightarrow> pystr \<Rightarrow> route \<Rightarrow> int \<Rightarrow> pystr res" where
  "settle_body queue body r now_ms =
     (case r of
        PoisonRoute base q oq attempts cause \<Rightarrow>
          if queue \<noteq> q then poison_body body cause oq attempts now_ms else Inr body
      | Route x \<Rightarrow> Inr body)"

definition publish_settled ::
  "'w kafka_setup \<Rightarrow> pystr \<Rightarrow> pystr \<Rightarrow> route \<Rightarrow> pystr option \<Rightarrow> headers \<Rightarrow> ('w kafka, unit) op" where
  "publish_settled K queue body r key headers =
     bind_op (\<lambda>s. (settle_body queue body r (kc_now_ms K (kf_world s)), s)) (\<lambda>wrapped.
     bind_op (lift_res (record_kwargs True wrapped)) (\<lambda>rec.
     bind_op (lift_res (if headers = [] then Inr (kr_headers rec) else with_extra_headers (kr_headers rec) headers)) (\<lambda>hs.
       produce_confirmed K queue (rec\<lparr>kr_headers := hs, kr_key := key\<rparr>))))"

definition kafka_publish_delayed :: "'w kafka_setup \<Rightarrow> pystr \<Rightarrow> pystr \<Rightarrow> pyval \<Rightarrow> ('w kafka, unit) op" where
  "kafka_publish_delayed K queue body delay =
     (case delay of
        PInt delay_ms \<Rightarrow>
          if delay_ms < 0
          then raise_op (Exc BabelQueueError (u ''delay_ms must be a non-negative integer''))
          else if ks_tiers K = []
          then raise_op (Exc BabelQueueError (u ''Kafka delayed delivery needs retry tiers''))
          else (case covering_tier 1 (ks_tiers K) delay_ms of
                  Some n \<Rightarrow>
                    bind_op (lift_res (tier_record queue body n delay_ms None)) (\<lambda>(topic, r).
                      produce_confirmed K topic r)
                | None \<Rightarrow> raise_op (Exc BabelQueueError (u ''Requested delay exceeds the largest retry tier'')))
      | _ \<Rightarrow> raise_op (Exc BabelQueueError (u ''delay_ms must be a non-negative integer'')))"

section \<open>Settling\<close>

text \<open>\<open>min(..., default=None)\<close> and \<open>max(..., key=...)\<close> (the first of the largest).\<close>

definition lowest_offset :: "int list \<Rightarrow> int option" where
  "lowest_offset xs = (if xs = [] then None else Some (Min (set xs)))"

fun top_by :: "(nat \<Rightarrow> int) \<Rightarrow> nat \<Rightarrow> nat list \<Rightarrow> nat" where
  "top_by f best [] = best"
| "top_by f best (h # hs) = top_by f (if f best < f h then h else best) hs"

definition kafka_ack :: "'w kafka_setup \<Rightarrow> received_message \<Rightarrow> ('w kafka, unit) op" where
  "kafka_ack K m =
     (\<lambda>s. let h = rm_handle m; queue = rm_queue m in
          if kf_handles s h = None then (Inr (), s)
          else
            let pending = filter (\<lambda>x. x \<noteq> h) (qget (kf_pending s) queue);
                settled = qget (kf_settled s) queue @ [h];
                here = (\<lambda>x. partition_of s x = partition_of s h);
                floor = lowest_offset (map (offset_of s) (filter here pending));
                committable = filter (\<lambda>x. here x \<and> (case floor of None \<Rightarrow> True | Some f \<Rightarrow> offset_of s x < f)) settled;
                remaining = filter (\<lambda>x. x \<notin> set committable) settled;
                s1 = s\<lparr>kf_pending := put_book queue pending (kf_pending s),
                       kf_settled := put_book queue remaining (kf_settled s)\<rparr>
            in case committable of
                 [] \<Rightarrow> (Inr (), s1)
               | c # cs \<Rightarrow>
                   (case kf_handles s (top_by (offset_of s) c cs) of
                      None \<Rightarrow> (Inr (), s1)
                    | Some highest \<Rightarrow> on_client (kc_commit K queue highest) s1))"

definition seek_back :: "'w kafka_setup \<Rightarrow> pystr \<Rightarrow> nat \<Rightarrow> ('w kafka, unit) op" where
  "seek_back K queue h =
     (\<lambda>s. case position_of s h of
            None \<Rightarrow> (Inl (Exc AttributeError (u ''object has no attribute '' @ quoted (u ''topic''))), s)
          | Some (tp, off) \<Rightarrow> on_client (kc_seek K queue tp off) s)"

definition forget_from :: "pystr \<Rightarrow> (pystr \<times> int) option \<Rightarrow> int \<Rightarrow> 'w kafka \<Rightarrow> 'w kafka" where
  "forget_from queue part off s =
     (let keep = filter (\<lambda>h. partition_of s h \<noteq> part \<or> offset_of s h < off)
      in s\<lparr>kf_pending := put_book queue (keep (qget (kf_pending s) queue)) (kf_pending s),
           kf_settled := put_book queue (keep (qget (kf_settled s) queue)) (kf_settled s)\<rparr>)"

definition kafka_rewind :: "'w kafka_setup \<Rightarrow> received_message \<Rightarrow> ('w kafka, unit) op" where
  "kafka_rewind K m =
     (\<lambda>s. if kf_handles s (rm_handle m) = None then (Inr (), s)
          else then_op (seek_back K (rm_queue m) (rm_handle m))
                 (modify (forget_from (rm_queue m) (partition_of s (rm_handle m)) (offset_of s (rm_handle m)))) s)"

text \<open>The lowest record in flight of each partition, partitions in the order they come up.\<close>

fun lowest_records ::
  "'w kafka \<Rightarrow> nat list \<Rightarrow> ((pystr \<times> int) option \<times> nat) list \<Rightarrow> ((pystr \<times> int) option \<times> nat) list" where
  "lowest_records s [] lowest = lowest"
| "lowest_records s (h # hs) lowest =
     lowest_records s hs
       (case map_of lowest (partition_of s h) of
          None \<Rightarrow> AList.update (partition_of s h) h lowest
        | Some l \<Rightarrow> if offset_of s h < offset_of s l then AList.update (partition_of s h) h lowest else lowest)"

fun rewind_each ::
  "'w kafka_setup \<Rightarrow> pystr \<Rightarrow> ((pystr \<times> int) option \<times> nat) list \<Rightarrow> ('w kafka, unit) op" where
  "rewind_each K queue [] = ret ()"
| "rewind_each K queue ((part, h) # rest) =
     (\<lambda>s. then_op (catch_exc (seek_back K queue h) (\<lambda>e. ret ()))
            (then_op (modify (forget_from queue part (offset_of s h))) (rewind_each K queue rest)) s)"

definition rewind_abandoned :: "'w kafka_setup \<Rightarrow> pystr \<Rightarrow> ('w kafka, unit) op" where
  "rewind_abandoned K queue =
     (\<lambda>s. let pending = qget (kf_pending s) queue
          in if pending = [] then (Inr (), s)
             else then_op (rewind_each K queue (lowest_records s pending []))
                    (modify (\<lambda>s. s\<lparr>kf_pending := ddel queue (kf_pending s)\<rparr>)) s)"

section \<open>Polling\<close>

text \<open>Why a record is poison, or the body handed to the runtime.\<close>

definition poison_of :: "kafka_message \<Rightarrow> pystr option" where
  "poison_of m =
     (if is_non_utf8 m then Some (u ''the value is not valid UTF-8'')
      else case decode_failure (payload m) of
             Inl e \<Rightarrow> Some (u ''the body could not be scanned ('' @ exc_name (exc_class_of e) @ u '')'')
           | Inr (Some cause) \<Rightarrow> Some cause
           | Inr None \<Rightarrow>
               (case fst (decode_lenient (payload m)) of
                  Inl e \<Rightarrow> Some (u ''the body could not be classified ('' @ exc_name (exc_class_of e) @ u '')'')
                | Inr env \<Rightarrow>
                    if urn env = []
                    then Some (u ''the body carries no valid 'job' or 'urn' identity (ADR-0032 section 6)'') else None))"

definition classified :: "kafka_message \<Rightarrow> pystr + pystr" where
  "classified m =
     (case poison_of m of
        Some cause \<Rightarrow> Inl cause
      | None \<Rightarrow>
          (case reconcile (payload m) (km_headers m) of
             Inl e \<Rightarrow> Inl (u ''the body could not be decoded ('' @ exc_name (exc_class_of e) @ u '')'')
           | Inr body \<Rightarrow> Inr body))"

definition poison_route :: "pystr \<Rightarrow> kafka_message \<Rightarrow> pystr \<Rightarrow> route" where
  "poison_route queue m cause =
     PoisonRoute (if is_non_utf8 m then NON_UTF8_ROUTE else POISON_ROUTE) queue
       (case header_value (km_headers m) ORIGINAL_TOPIC_HEADER of None \<Rightarrow> queue | Some t \<Rightarrow> if t = [] then queue else t)
       (header_attempts (km_headers m)) cause"

text \<open>The message built from a record: version-gated, poison, or readable.\<close>

definition received_of :: "pystr \<Rightarrow> nat \<Rightarrow> kafka_message \<Rightarrow> received_message res" where
  "received_of queue h m =
     (let raw = \<lparr>rm_body = payload m, rm_queue = queue, rm_handle = h, rm_headers = [], rm_route = Route [],
                 rm_key = km_key m, rm_native_attempts = 0\<rparr>
      in case truncate_declared_version (unsupported_schema_version (km_headers m)) of
           Some v \<Rightarrow> bind_res (quote v) (\<lambda>q. Inr (raw\<lparr>rm_route := Route (UNSUPPORTED_SCHEMA_ROUTE_PREFIX @ q)\<rparr>))
         | None \<Rightarrow>
             Inr (case classified m of
                    Inl cause \<Rightarrow> raw\<lparr>rm_route := poison_route queue m cause\<rparr>
                  | Inr body \<Rightarrow>
                      raw\<lparr>rm_body := body,
                          rm_headers := out_of_band_headers (RawItems (map (\<lambda>(k, v). RawPair k v) (km_headers m)))\<rparr>))"

text \<open>A record is in flight once its message has been built.\<close>

definition poll_consumer :: "'w kafka_setup \<Rightarrow> pystr \<Rightarrow> rat \<Rightarrow> ('w kafka, received_message option) op" where
  "poll_consumer K queue timeout =
     bind_op (on_client (kc_poll K queue (if 0 < timeout then timeout else 1))) (\<lambda>p.
       case p of
         Polled m \<Rightarrow>
           (\<lambda>s. let h = kf_next s; s1 = s\<lparr>kf_handles := (kf_handles s)(h := Some m), kf_next := Suc h\<rparr>
                in case received_of queue h m of
                     Inl e \<Rightarrow> (Inl e, s1)
                   | Inr r \<Rightarrow>
                       (Inr (Some r),
                        s1\<lparr>kf_pending := dset queue (qget (kf_pending s1) queue @ [h]) (kf_pending s1)\<rparr>))
       | _ \<Rightarrow> ret None)"

text \<open>
  \<open>_consumer\<close>: the consumer of a queue is made once, by the first poll. A record whose offset is committed or
  sought came from a poll of its queue, so the consumer is there.
\<close>

definition kafka_consumer :: "'w kafka_setup \<Rightarrow> pystr \<Rightarrow> ('w kafka, unit) op" where
  "kafka_consumer K queue =
     (\<lambda>s. if queue \<in> set (kf_consumers s) then ret () s
          else then_op (on_client (kc_consumer K queue)) (modify (\<lambda>s. s\<lparr>kf_consumers := kf_consumers s @ [queue]\<rparr>)) s)"

definition poll_one :: "'w kafka_setup \<Rightarrow> pystr \<Rightarrow> rat \<Rightarrow> ('w kafka, received_message option) op" where
  "poll_one K queue timeout = then_op (kafka_consumer K queue) (poll_consumer K queue timeout)"

definition kafka_pop :: "'w kafka_setup \<Rightarrow> pystr \<Rightarrow> rat \<Rightarrow> ('w kafka, received_message option) op" where
  "kafka_pop K queue timeout = then_op (rewind_abandoned K queue) (poll_one K queue timeout)"

text \<open>
  The batch ends at the first empty poll, at \<open>max\<close>, or at a record that cannot be built when something
  was taken before. The first argument bounds the polls; the number of records of the queue plus one is
  enough.
\<close>

fun poll_batch ::
  "nat \<Rightarrow> 'w kafka_setup \<Rightarrow> pystr \<Rightarrow> int \<Rightarrow> rat \<Rightarrow> received_message list \<Rightarrow> ('w kafka, received_message list) op" where
  "poll_batch 0 K queue limit timeout batch = ret batch"
| "poll_batch (Suc n) K queue limit timeout batch =
     (if limit = 0 \<or> int (length batch) < limit
      then (\<lambda>s. case poll_one K queue timeout s of
                  (Inl e, s') \<Rightarrow> if is_Exception e \<and> batch \<noteq> [] then (Inr batch, s') else (Inl e, s')
                | (Inr None, s') \<Rightarrow> (Inr batch, s')
                | (Inr (Some r), s') \<Rightarrow> poll_batch n K queue limit timeout (batch @ [r]) s')
      else ret batch)"

definition kafka_pop_batch :: "nat \<Rightarrow> 'w kafka_setup \<Rightarrow> pystr \<Rightarrow> int \<Rightarrow> rat \<Rightarrow> ('w kafka, received_message list) op" where
  "kafka_pop_batch n K queue limit timeout = then_op (rewind_abandoned K queue) (poll_batch n K queue limit timeout [])"

section \<open>Retrying\<close>

text \<open>\<open>redeliver\<close>: park a copy on the tier of the attempt, and acknowledge once the broker confirmed it.\<close>

definition redelivered_record :: "int list \<Rightarrow> received_message \<Rightarrow> pystr \<Rightarrow> (pystr \<times> kafka_record) res" where
  "redelivered_record tiers m body =
     bind_res (attempts_before (rm_body m)) (\<lambda>before.
       let n = min before (int (length tiers) - 1) + 1;
           next_attempts = before + 1
       in bind_res (with_attempts body next_attempts) (\<lambda>body'.
          bind_res (tier_record (rm_queue m) body' (nat n) (tiers ! nat (n - 1)) (Some next_attempts)) (\<lambda>(topic, rec).
          bind_res (with_extra_headers (kr_headers rec)
                      (filter (\<lambda>(k, v). k \<in> set TRACE_CONTEXT_HEADER_KEYS) (rm_headers m))) (\<lambda>hs.
            Inr (topic, rec\<lparr>kr_headers := hs, kr_key := rm_key m\<rparr>)))))"

definition kafka_redeliver :: "'w kafka_setup \<Rightarrow> received_message \<Rightarrow> pystr \<Rightarrow> rat \<Rightarrow> ('w kafka, unit) op" where
  "kafka_redeliver K m body delay =
     (if ks_tiers K = [] then raise_op (Exc BabelQueueError (u ''Kafka retry needs retry tiers''))
      else bind_op (lift_res (redelivered_record (ks_tiers K) m body)) (\<lambda>(topic, rec).
             then_op (produce_confirmed K topic rec) (catch_exc (kafka_ack K m) (\<lambda>e. ret ()))))"

definition kafka_close :: "'w kafka_setup \<Rightarrow> ('w kafka, unit) op" where
  "kafka_close K =
     (\<lambda>s. close_each (on_client (kc_flush_all K) # map (\<lambda>queue. on_client (kc_close K queue)) (kf_consumers s)) s)"

text \<open>The transport the runtime uses; \<open>n\<close> bounds the polls of a batch.\<close>

definition kafka_transport :: "nat \<Rightarrow> 'w kafka_setup \<Rightarrow> 'w kafka transport" where
  "kafka_transport n K =
     \<lparr>t_publish = kafka_publish K,
      t_pop = (\<lambda>q. kafka_pop K q 1),
      t_ack = kafka_ack K,
      t_close = kafka_close K,
      t_classifies_poison = True,
      t_publish_with_headers = Some (kafka_publish_with_headers K),
      t_publish_routed = None,
      t_publish_settle = Some (\<lambda>q body r key. publish_settled K q body r key []),
      t_publish_redriven = Some (\<lambda>q body hs r key. publish_settled K q body r key hs),
      t_redeliver = Some (kafka_redeliver K),
      t_dead_letter = None,
      t_rewind = Some (kafka_rewind K),
      t_dead_letter_queue_name = None, t_abandon = None,
      t_settle_native = None, t_settle_native_dead_letter = None,
      t_pop_batch = Some (\<lambda>q limit. kafka_pop_batch n K q limit 1),
      t_retry_tiers_ms = Some (ks_tiers K)\<rparr>"

end
