(* ===== verification/KafkaOffsets.thy ===== *)
theory KafkaOffsets
  imports KafkaTransport
begin

text \<open>
  A Kafka commit is a cumulative position. This theory shows that the books of the transport keep it
  from ever passing a record the application has not settled, over every sequence of operations, and
  whatever the client library answers within its documentation.
\<close>

section \<open>What the client library promises\<close>

text \<open>
  \<open>pos\<close> is the next offset a partition is polled at and \<open>com\<close> its committed offset; \<open>recs\<close> are the
  offsets at which a partition has a record. A rebalance may put a partition back to its committed
  offset before a poll; a poll hands out the next record of one partition of its topic. A commit that
  raised may or may not have happened. A seek that raised was on a partition no longer assigned, which
  resumes at its committed offset. Writes touch neither.
\<close>

definition is_bytes_or_none :: "raw_text \<Rightarrow> bool" where
  "is_bytes_or_none v = (case v of RawStr s \<Rightarrow> False | _ \<Rightarrow> True)"

definition next_record :: "(pystr \<times> int \<Rightarrow> int set) \<Rightarrow> pystr \<Rightarrow> offsets \<Rightarrow> kafka_message \<Rightarrow> offsets \<Rightarrow> bool" where
  "next_record recs queue p m p' \<longleftrightarrow>
     (\<exists>part off. km_position m = Some ((queue, part), off) \<and> p (queue, part) \<le> off \<and>
        (\<forall>x \<in> recs (queue, part). p (queue, part) \<le> x \<longrightarrow> off \<le> x) \<and>
        p' = p((queue, part) := off + 1)) \<and>
     (\<forall>(k, v) \<in> set (km_headers m). is_bytes_or_none v)"

definition poll_law :: "'w kafka_setup \<Rightarrow> ('w \<Rightarrow> offsets) \<Rightarrow> ('w \<Rightarrow> offsets) \<Rightarrow> (pystr \<times> int \<Rightarrow> int set) \<Rightarrow> bool" where
  "poll_law K pos com recs \<longleftrightarrow>
     (\<forall>queue. keeps_offsets pos com (kc_consumer K queue)) \<and>
     (\<forall>queue t w r w'. kc_poll K queue t w = (r, w') \<longrightarrow> com w' = com w \<and>
        (\<exists>p. rebalanced (com w) (pos w) p \<and>
           (case r of Inr (Polled m) \<Rightarrow> next_record recs queue p m (pos w') | _ \<Rightarrow> pos w' = p)))"

definition commit_law :: "'w kafka_setup \<Rightarrow> ('w \<Rightarrow> offsets) \<Rightarrow> ('w \<Rightarrow> offsets) \<Rightarrow> bool" where
  "commit_law K pos com \<longleftrightarrow>
     (\<forall>queue m tp off w r w'. km_position m = Some (tp, off) \<longrightarrow> kc_commit K queue m w = (r, w') \<longrightarrow>
        pos w' = pos w \<and> (com w' = (com w)(tp := off + 1) \<or> isl r \<and> com w' = com w))"

definition seek_law :: "'w kafka_setup \<Rightarrow> ('w \<Rightarrow> offsets) \<Rightarrow> ('w \<Rightarrow> offsets) \<Rightarrow> bool" where
  "seek_law K pos com \<longleftrightarrow>
     (\<forall>queue tp off w r w'. kc_seek K queue tp off w = (r, w') \<longrightarrow>
        com w' = com w \<and> pos w' = (pos w)(tp := (if isl r then com w tp else off)))"

definition write_law :: "'w kafka_setup \<Rightarrow> ('w \<Rightarrow> offsets) \<Rightarrow> ('w \<Rightarrow> offsets) \<Rightarrow> bool" where
  "write_law K pos com \<longleftrightarrow>
     (\<forall>topic r. keeps_offsets pos com (kc_produce K topic r)) \<and>
     (\<forall>t. keeps_offsets pos com (kc_flush K t)) \<and> keeps_offsets pos com (kc_serve K) \<and>
     keeps_offsets pos com (kc_flush_all K) \<and> (\<forall>queue. keeps_offsets pos com (kc_close K queue))"

definition consumer_laws :: "'w kafka_setup \<Rightarrow> ('w \<Rightarrow> offsets) \<Rightarrow> ('w \<Rightarrow> offsets) \<Rightarrow> (pystr \<times> int \<Rightarrow> int set) \<Rightarrow> bool" where
  "consumer_laws K pos com recs \<longleftrightarrow>
     poll_law K pos com recs \<and> commit_law K pos com \<and> seek_law K pos com \<and> write_law K pos com"

section \<open>Runs\<close>

text \<open>
  The states a transport can reach, with the positions the application has settled: a record in flight
  that was acknowledged (whatever the commit did) or redelivered (a confirmed copy on a retry topic).
  Only a record in flight is acknowledged, rewound or redelivered.
\<close>

type_synonym settled = "((pystr \<times> int) \<times> int) set"

definition in_flight :: "'w kafka \<Rightarrow> received_message \<Rightarrow> bool" where
  "in_flight s m \<longleftrightarrow> rm_handle m \<in> set (qget (kf_pending s) (rm_queue m))"

definition settled_of :: "'w kafka \<Rightarrow> received_message \<Rightarrow> settled" where
  "settled_of s m = set_option (position_of s (rm_handle m))"

definition copy_confirmed :: "'w kafka_setup \<Rightarrow> received_message \<Rightarrow> pystr \<Rightarrow> 'w kafka \<Rightarrow> bool" where
  "copy_confirmed K m body s \<longleftrightarrow>
     ks_tiers K \<noteq> [] \<and>
     (case redelivered_record (ks_tiers K) m body of
        Inl e \<Rightarrow> False | Inr (topic, rec) \<Rightarrow> \<not> isl (fst (produce_confirmed K topic rec s)))"

inductive kafka_run :: "'w kafka_setup \<Rightarrow> 'w kafka \<Rightarrow> settled \<Rightarrow> 'w kafka \<Rightarrow> settled \<Rightarrow> bool" for K s0 A0 where
  start: "kafka_run K s0 A0 s0 A0"
| popped: "kafka_run K s0 A0 s A \<Longrightarrow> kafka_run K s0 A0 (snd (kafka_pop K q t s)) A"
| batched: "kafka_run K s0 A0 s A \<Longrightarrow> kafka_run K s0 A0 (snd (kafka_pop_batch n K q limit t s)) A"
| acked: "kafka_run K s0 A0 s A \<Longrightarrow> in_flight s m \<Longrightarrow>
    kafka_run K s0 A0 (snd (kafka_ack K m s)) (A \<union> settled_of s m)"
| rewound: "kafka_run K s0 A0 s A \<Longrightarrow> in_flight s m \<Longrightarrow> kafka_run K s0 A0 (snd (kafka_rewind K m s)) A"
| redelivered: "kafka_run K s0 A0 s A \<Longrightarrow> in_flight s m \<Longrightarrow>
    kafka_run K s0 A0 (snd (kafka_redeliver K m body d s))
      (if copy_confirmed K m body s then A \<union> settled_of s m else A)"
| published: "kafka_run K s0 A0 s A \<Longrightarrow> kafka_run K s0 A0 (snd (kafka_publish K q body s)) A"
| settle_published: "kafka_run K s0 A0 s A \<Longrightarrow>
    kafka_run K s0 A0 (snd (publish_settled K q body route key hs s)) A"
| closed: "kafka_run K s0 A0 s A \<Longrightarrow> kafka_run K s0 A0 (snd (kafka_close K s)) A"

section \<open>The invariant\<close>

definition held :: "'w kafka \<Rightarrow> pystr \<times> int \<Rightarrow> int \<Rightarrow> bool" where
  "held s tp x \<longleftrightarrow> (\<exists>h \<in> set (qget (kf_pending s) (fst tp)). position_of s h = Some (tp, x))"

text \<open>Every record of a partition below an offset is settled or in flight.\<close>

definition accounted :: "(pystr \<times> int \<Rightarrow> int set) \<Rightarrow> 'w kafka \<Rightarrow> settled \<Rightarrow> pystr \<times> int \<Rightarrow> int \<Rightarrow> bool" where
  "accounted recs s A tp off \<longleftrightarrow> (\<forall>x \<in> recs tp. x < off \<longrightarrow> (tp, x) \<in> A \<or> held s tp x)"

definition books :: "'w kafka \<Rightarrow> pystr \<Rightarrow> nat set" where
  "books s q = set (qget (kf_pending s) q) \<union> set (qget (kf_settled s) q)"

definition books_ok :: "(pystr \<times> int \<Rightarrow> int set) \<Rightarrow> 'w kafka \<Rightarrow> settled \<Rightarrow> bool" where
  "books_ok recs s A \<longleftrightarrow>
     (\<forall>q. \<forall>h \<in> books s q. \<exists>part off. position_of s h = Some ((q, part), off) \<and> accounted recs s A (q, part) off)
   \<and> (\<forall>q. \<forall>h \<in> set (qget (kf_settled s) q). \<forall>tpx. position_of s h = Some tpx \<longrightarrow> tpx \<in> A)
   \<and> (\<forall>q. \<forall>h \<in> books s q. h < kf_next s)"

definition offsets_ok ::
  "('w \<Rightarrow> offsets) \<Rightarrow> ('w \<Rightarrow> offsets) \<Rightarrow> (pystr \<times> int \<Rightarrow> int set) \<Rightarrow> 'w kafka \<Rightarrow> settled \<Rightarrow> bool" where
  "offsets_ok pos com recs s A \<longleftrightarrow>
     books_ok recs s A
   \<and> (\<forall>tp. accounted recs s A tp (pos (kf_world s) tp))
   \<and> (\<forall>tp. \<forall>x \<in> recs tp. x < com (kf_world s) tp \<longrightarrow> (tp, x) \<in> A)"

lemma qget_put_book [simp]: "qget (put_book q hs book) q' = (if q' = q then hs else qget book q')"
  by (simp add: put_book_def qget_def)

lemma qget_ddel [simp]: "qget (ddel q book) q' = (if q' = q then [] else qget book q')"
  by (simp add: qget_def)

lemma accounted_mono:
  "accounted recs s A tp off \<Longrightarrow> off' \<le> off \<Longrightarrow> A \<subseteq> A' \<Longrightarrow> (\<And>x. x < off' \<Longrightarrow> held s tp x \<Longrightarrow> (tp, x) \<in> A' \<or> held s' tp x) \<Longrightarrow>
     accounted recs s' A' tp off'"
  unfolding accounted_def by (meson order_less_le_trans subsetD)

lemma offsets_okD:
  assumes "offsets_ok pos com recs s A"
  shows "books_ok recs s A" "accounted recs s A tp (pos (kf_world s) tp)"
    "x \<in> recs tp \<Longrightarrow> x < com (kf_world s) tp \<Longrightarrow> (tp, x) \<in> A"
  using assms unfolding offsets_ok_def by blast+

lemma committed_accounted: "offsets_ok pos com recs s A \<Longrightarrow> accounted recs s A tp (com (kf_world s) tp)"
  unfolding offsets_ok_def accounted_def by blast

lemma booksD:
  assumes "books_ok recs s A" "h \<in> books s q"
  obtains part off where "position_of s h = Some ((q, part), off)" "accounted recs s A (q, part) off"
  using assms unfolding books_ok_def by blast

text \<open>Dropping records of one partition from the books at or after an offset.\<close>

lemma position_forget [simp]:
  "position_of (forget_from q part off s) h = position_of s h"
  "kf_world (forget_from q part off s) = kf_world s"
  "kf_next (forget_from q part off s) = kf_next s"
  "kf_handles (forget_from q part off s) = kf_handles s"
  by (simp_all add: forget_from_def position_of_def Let_def)

lemma partition_offset_forget [simp]:
  "partition_of (forget_from q part off s) h = partition_of s h"
  "offset_of (forget_from q part off s) h = offset_of s h"
  by (simp_all add: partition_of_def offset_of_def)

lemma qget_forget:
  "qget (kf_pending (forget_from q part off s)) q' =
     (if q' = q then filter (\<lambda>h. partition_of s h \<noteq> part \<or> offset_of s h < off) (qget (kf_pending s) q)
      else qget (kf_pending s) q')"
  "qget (kf_settled (forget_from q part off s)) q' =
     (if q' = q then filter (\<lambda>h. partition_of s h \<noteq> part \<or> offset_of s h < off) (qget (kf_settled s) q)
      else qget (kf_settled s) q')"
  by (simp_all add: forget_from_def Let_def)

lemma held_forget:
  "held s tp x \<Longrightarrow> tp \<noteq> tp' \<or> x < off \<Longrightarrow> held (forget_from q (Some tp') off s) tp x"
  by (auto simp: held_def qget_forget partition_of_def offset_of_def)

lemma held_world [simp]: "held (s\<lparr>kf_world := w\<rparr>) tp x = held s tp x"
  by (simp add: held_def position_of_def)

lemma world_simps [simp]:
  "position_of (s\<lparr>kf_world := w\<rparr>) h = position_of s h"
  "books (s\<lparr>kf_world := w\<rparr>) q = books s q"
  "accounted recs (s\<lparr>kf_world := w\<rparr>) A tp off = accounted recs s A tp off"
  "books_ok recs (s\<lparr>kf_world := w\<rparr>) A = books_ok recs s A"
  by (simp_all add: position_of_def books_def accounted_def books_ok_def)

lemma held_consumers [simp]: "held (s\<lparr>kf_consumers := cs\<rparr>) tp x = held s tp x"
  by (simp add: held_def position_of_def)

lemma consumers_simps [simp]:
  "position_of (s\<lparr>kf_consumers := cs\<rparr>) h = position_of s h"
  "books (s\<lparr>kf_consumers := cs\<rparr>) q = books s q"
  "accounted recs (s\<lparr>kf_consumers := cs\<rparr>) A tp off = accounted recs s A tp off"
  "books_ok recs (s\<lparr>kf_consumers := cs\<rparr>) A = books_ok recs s A"
  by (simp_all add: position_of_def books_def accounted_def books_ok_def)

lemma forget_books: "books (forget_from q part off s) q' \<subseteq> books s q'"
  by (auto simp: books_def qget_forget)

lemma forget_below: "h \<in> books (forget_from q (Some tp) off s) q \<Longrightarrow> position_of s h = Some (tp, x) \<Longrightarrow> x < off"
  by (cases tp) (auto simp: books_def qget_forget partition_of_def offset_of_def)

lemma books_ok_forget:
  assumes ok: "books_ok recs s A" and q: "fst tp = q"
  shows "books_ok recs (forget_from q (Some tp) off s) A"
proof -
  let ?s = "forget_from q (Some tp) off s"
  have "\<exists>part o'. position_of ?s h = Some ((q', part), o') \<and> accounted recs ?s A (q', part) o'"
    if h: "h \<in> books ?s q'" for h q'
  proof -
    from h forget_books [of q "Some tp" off s q'] ok obtain part o'
      where p: "position_of s h = Some ((q', part), o')" and a: "accounted recs s A (q', part) o'"
      by (meson booksD subsetD)
    have "o' < off" if "(q', part) = tp"
    proof -
      from that q have "q' = q" by auto
      with forget_below [of h q tp off s o'] h p that show ?thesis by simp
    qed
    then have "accounted recs ?s A (q', part) o'"
      by (intro accounted_mono [OF a]) (auto intro!: held_forget)
    with p show ?thesis by simp
  qed
  moreover have "\<forall>h \<in> set (qget (kf_settled ?s) q'). \<forall>tpx. position_of ?s h = Some tpx \<longrightarrow> tpx \<in> A" for q'
    using ok by (auto simp: books_ok_def qget_forget split: if_splits)
  moreover have "\<forall>h \<in> books ?s q'. h < kf_next ?s" for q'
    using ok forget_books [of q "Some tp" off s q'] unfolding books_ok_def by auto
  ultimately show ?thesis
    unfolding books_ok_def by blast
qed


section \<open>Seeking back\<close>

lemma seek_forget:
  assumes law: "seek_law K pos com" and ok: "offsets_ok pos com recs s A"
    and at: "position_of s h = Some (tp, off)" and acc: "accounted recs s A tp off" and q: "fst tp = q"
    and seek: "seek_back K q h s = (r, s1)"
  shows "offsets_ok pos com recs (forget_from q (Some tp) off s1) A"
    and "isl r \<Longrightarrow> offsets_ok pos com recs s1 A"
    and "kf_pending s1 = kf_pending s" "kf_settled s1 = kf_settled s" "kf_handles s1 = kf_handles s"
proof -
  from seek at obtain w where w: "kc_seek K q tp off (kf_world s) = (r, w)" and s1: "s1 = s\<lparr>kf_world := w\<rparr>"
    by (cases "kc_seek K q tp off (kf_world s)") (auto simp: seek_back_def on_client_def)
  from law w have com: "com w = com (kf_world s)"
      and pos: "pos w = (pos (kf_world s))(tp := (if isl r then com (kf_world s) tp else off))"
    unfolding seek_law_def by blast+
  have acc_at: "accounted recs s A tp' (pos w tp')" for tp'
    using offsets_okD(2) [OF ok] acc committed_accounted [OF ok] unfolding pos by simp
  have books: "books_ok recs s1 A"
    using ok by (simp add: offsets_ok_def s1)
  have below: "pos w tp \<le> off" if "\<not> isl r"
    using that pos by simp
  show "offsets_ok pos com recs (forget_from q (Some tp) off s1) A"
  proof -
    have "accounted recs (forget_from q (Some tp) off s1) A tp' (pos w tp')" for tp'
    proof (cases "tp' = tp \<and> isl r")
      case True
      then have "pos w tp' = com (kf_world s) tp'" using pos by simp
      with ok show ?thesis unfolding offsets_ok_def accounted_def by (metis (no_types))
    next
      case False
      show ?thesis
      proof (rule accounted_mono [OF acc_at order_refl subset_refl])
        fix x assume x: "x < pos w tp'" "held s tp' x"
        with False below have "tp' \<noteq> tp \<or> x < off" by (auto simp: pos)
        with x(2) have "held (forget_from q (Some tp) off s1) tp' x"
          by (intro held_forget) (simp_all add: s1)
        then show "(tp', x) \<in> A \<or> held (forget_from q (Some tp) off s1) tp' x" by simp
      qed
    qed
    with books_ok_forget [OF books q] ok show ?thesis
      by (simp add: offsets_ok_def s1 com)
  qed
  show "offsets_ok pos com recs s1 A" if "isl r"
    using acc_at books ok by (simp add: offsets_ok_def s1 com)
  show "kf_pending s1 = kf_pending s" "kf_settled s1 = kf_settled s" "kf_handles s1 = kf_handles s"
    by (simp_all add: s1)
qed

lemma offsets_ok_rewind:
  assumes "seek_law K pos com" "offsets_ok pos com recs s A" "in_flight s m"
  shows "offsets_ok pos com recs (snd (kafka_rewind K m s)) A"
proof -
  let ?h = "rm_handle m" and ?q = "rm_queue m"
  have "?h \<in> books s ?q" using assms(3) by (simp add: in_flight_def books_def)
  with assms(2) obtain part off where p: "position_of s ?h = Some ((?q, part), off)"
      and a: "accounted recs s A (?q, part) off"
    unfolding offsets_ok_def by (meson booksD)
  obtain r s1 where sk: "seek_back K ?q ?h s = (r, s1)" by force
  note sf = seek_forget [OF assms(1,2) p a _ sk]
  obtain msg where "kf_handles s ?h = Some msg" using p by (auto simp: position_of_def split: option.splits)
  with p sk sf show ?thesis
    by (cases r) (simp_all add: kafka_rewind_def then_op_def bind_op_def modify_def partition_of_def offset_of_def)
qed

section \<open>Rewinding what was abandoned\<close>

text \<open>The lowest record of each partition: partitions distinct, each record in flight, none below it.\<close>

definition lowest_ok :: "'w kafka \<Rightarrow> nat list \<Rightarrow> ((pystr \<times> int) option \<times> nat) list \<Rightarrow> bool" where
  "lowest_ok s hs lowest \<longleftrightarrow>
     distinct (map fst lowest)
   \<and> (\<forall>(part, h) \<in> set lowest. h \<in> set hs \<and> partition_of s h = part)
   \<and> (\<forall>h \<in> set hs. \<exists>l. map_of lowest (partition_of s h) = Some l \<and> offset_of s l \<le> offset_of s h)"

lemma lowest_ok_step:
  assumes "lowest_ok s hs lowest"
  shows "lowest_ok s (hs @ [h])
    (case map_of lowest (partition_of s h) of
       None \<Rightarrow> AList.update (partition_of s h) h lowest
     | Some l \<Rightarrow> if offset_of s h < offset_of s l then AList.update (partition_of s h) h lowest else lowest)"
proof -
  let ?p = "partition_of s h"
  have upd: "lowest_ok s (hs @ [h]) (AList.update ?p h lowest)"
    if "\<forall>l. map_of lowest ?p = Some l \<longrightarrow> offset_of s h \<le> offset_of s l"
  proof -
    have "\<forall>(part, x) \<in> set (AList.update ?p h lowest). x \<in> set (hs @ [h]) \<and> partition_of s x = part"
    proof safe
      fix a b x assume "(a, x) \<in> set (AList.update ?p h lowest)"
      then have "(a, x) \<in> set lowest \<or> a = ?p \<and> x = h"
        by (induction lowest) (auto split: if_splits)
      then show "x \<in> set (hs @ [h])" "partition_of s x = a"
        using assms by (auto simp: lowest_ok_def)
    qed
    moreover have "\<exists>l. map_of (AList.update ?p h lowest) (partition_of s x) = Some l \<and> offset_of s l \<le> offset_of s x"
      if "x \<in> set (hs @ [h])" for x
    proof (cases "x = h")
      case False
      with that assms obtain l where "map_of lowest (partition_of s x) = Some l" "offset_of s l \<le> offset_of s x"
        by (auto simp: lowest_ok_def)
      with \<open>\<forall>l. _ l\<close> show ?thesis
        by (cases "partition_of s x = ?p") (auto simp: update_conv')
    qed (simp add: update_conv')
    ultimately show ?thesis
      using assms by (simp add: lowest_ok_def distinct_update)
  qed
  show ?thesis
  proof (cases "map_of lowest ?p")
    case None
    with upd show ?thesis by simp
  next
    case (Some l)
    show ?thesis
    proof (cases "offset_of s h < offset_of s l")
      case True
      with Some upd show ?thesis by simp
    next
      case False
      with Some assms show ?thesis by (auto simp: lowest_ok_def)
    qed
  qed
qed

lemma lowest_ok_records: "lowest_ok s hs lowest \<Longrightarrow> lowest_ok s (hs @ hs') (lowest_records s hs' lowest)"
proof (induction hs' arbitrary: hs lowest)
  case (Cons h hs')
  from Cons.IH [OF lowest_ok_step [OF Cons.prems, of h]] show ?case by simp
qed simp

lemma lowest_records_ok: "lowest_ok s hs (lowest_records s hs [])"
proof -
  have "lowest_ok s [] []" by (simp add: lowest_ok_def)
  from lowest_ok_records [OF this, of hs] show ?thesis by simp
qed


lemma rewind_each_ok:
  assumes law: "seek_law K pos com" and "offsets_ok pos com recs s A" and "distinct (map fst rest)"
    and "\<forall>(part, h) \<in> set rest. \<exists>tp off. part = Some tp \<and> position_of s h = Some (tp, off)
           \<and> fst tp = q \<and> accounted recs s A tp off"
    and "rewind_each K q rest s = (r, s')"
  shows "offsets_ok pos com recs s' A \<and> (\<forall>q'. q' \<noteq> q \<longrightarrow> qget (kf_pending s') q' = qget (kf_pending s) q')
    \<and> (\<not> isl r \<longrightarrow> set (qget (kf_pending s') q) \<subseteq>
          {h \<in> set (qget (kf_pending s) q).
             \<forall>(part, l) \<in> set rest. partition_of s h \<noteq> part \<or> offset_of s h < offset_of s l})"
  using assms(2-5)
proof (induction rest arbitrary: s)
  case (Cons x rest)
  obtain part h where x: "x = (part, h)" by force
  with Cons.prems(3) obtain tp off where h: "part = Some tp" "position_of s h = Some (tp, off)" "fst tp = q"
      "accounted recs s A tp off"
    by auto
  obtain r1 s1 where sk: "seek_back K q h s = (r1, s1)" by force
  note sf = seek_forget [OF law Cons.prems(1) h(2,4,3) sk]
  let ?s2 = "forget_from q (Some tp) off s1"
  have pos1: "position_of s1 k = position_of s k" for k
    using sf(5) by (simp add: position_of_def)
  then have parts1: "partition_of s1 k = partition_of s k" "offset_of s1 k = offset_of s k" for k
    by (simp_all add: partition_of_def offset_of_def)
  show ?case
  proof (cases "\<exists>e. r1 = Inl e \<and> \<not> is_Exception e")
    case True
    with Cons.prems(4) x sk have "s' = s1" "isl r" "isl r1"
      by (auto simp: then_op_def bind_op_def catch_exc_def)
    with sf show ?thesis by simp
  next
    case False
    with Cons.prems(4) x sk h have step: "rewind_each K q rest ?s2 = (r, s')"
      by (cases r1) (auto simp: then_op_def bind_op_def catch_exc_def modify_def ret_def offset_of_def)
    have other: "\<forall>(part', l) \<in> set rest. \<exists>tp' off'. part' = Some tp' \<and> position_of ?s2 l = Some (tp', off')
           \<and> fst tp' = q \<and> accounted recs ?s2 A tp' off'"
    proof safe
      fix a b part' l assume l: "(part', l) \<in> set rest"
      with Cons.prems(3) obtain tp' off' where l': "part' = Some tp'" "position_of s l = Some (tp', off')"
          "fst tp' = q" "accounted recs s A tp' off'"
        by auto
      have "tp' \<noteq> tp" using Cons.prems(2) x h(1) l l'(1) by force
      moreover have "held s1 tp' x" if "held s tp' x" for x
        using that by (simp add: held_def pos1 sf(3))
      ultimately have "accounted recs ?s2 A tp' off'"
        by (intro accounted_mono [OF l'(4)]) (auto intro!: held_forget)
      with l' pos1 show "\<exists>tp' off'. part' = Some tp' \<and> position_of ?s2 l = Some (tp', off')
           \<and> fst tp' = q \<and> accounted recs ?s2 A tp' off'" by auto
    qed
    have "distinct (map fst rest)" using Cons.prems(2) by simp
    moreover have "offset_of s h = off" using h(2) by (simp add: offset_of_def)
    ultimately show ?thesis
      using h(1,3) Cons.IH [OF sf(1) _ other step] by (auto simp: x qget_forget sf(3) parts1)
  qed
qed (simp add: ret_def)

lemma rewind_abandoned_ok:
  assumes law: "seek_law K pos com" and ok: "offsets_ok pos com recs s A"
  shows "offsets_ok pos com recs (snd (rewind_abandoned K q s)) A"
proof (cases "qget (kf_pending s) q = []")
  case True
  with ok show ?thesis by (simp add: rewind_abandoned_def)
next
  case False
  let ?hs = "qget (kf_pending s) q" and ?low = "lowest_records s (qget (kf_pending s) q) []"
  have low: "lowest_ok s ?hs ?low" by (rule lowest_records_ok)
  obtain r s1 where e: "rewind_each K q ?low s = (r, s1)" by force
  have "\<exists>tp off. part = Some tp \<and> position_of s h = Some (tp, off) \<and> fst tp = q \<and> accounted recs s A tp off"
    if "(part, h) \<in> set ?low" for part h
  proof -
    from low that have h: "h \<in> books s q" "partition_of s h = part"
      by (auto simp: lowest_ok_def books_def)
    from booksD [OF offsets_okD(1) [OF ok] h(1)] obtain p off
      where "position_of s h = Some ((q, p), off)" "accounted recs s A (q, p) off" .
    with h(2) show ?thesis by (auto simp: partition_of_def)
  qed
  then have *: "\<forall>(part, h) \<in> set ?low. \<exists>tp off. part = Some tp \<and> position_of s h = Some (tp, off) \<and> fst tp = q
      \<and> accounted recs s A tp off" by blast
  have "distinct (map fst ?low)" using low by (simp add: lowest_ok_def)
  note re = rewind_each_ok [OF law ok this * e]
  show ?thesis
  proof (cases r)
    case (Inl x)
    with False e re show ?thesis by (simp add: rewind_abandoned_def then_op_def bind_op_def)
  next
    case (Inr x)
    have "qget (kf_pending s1) q = []"
    proof (rule ccontr)
      assume "qget (kf_pending s1) q \<noteq> []"
      then obtain h where "h \<in> set (qget (kf_pending s1) q)" by (meson last_in_set)
      with re Inr have h: "h \<in> set ?hs" "\<forall>(part, l) \<in> set ?low. partition_of s h \<noteq> part \<or> offset_of s h < offset_of s l"
        by auto
      with low obtain l where "map_of ?low (partition_of s h) = Some l" "offset_of s l \<le> offset_of s h"
        by (auto simp: lowest_ok_def)
      with h(2) show False by (fastforce dest: map_of_SomeD)
    qed
    then have same: "qget (ddel q (kf_pending s1)) q' = qget (kf_pending s1) q'" for q' by simp
    let ?s = "s1\<lparr>kf_pending := ddel q (kf_pending s1)\<rparr>"
    have "held ?s tp x = held s1 tp x" "books ?s q' = books s1 q'" "position_of ?s h = position_of s1 h" for tp x q' h
      using same by (simp_all add: held_def books_def position_of_def del: qget_ddel)
    then have "offsets_ok pos com recs ?s A = offsets_ok pos com recs s1 A"
      by (simp add: offsets_ok_def books_ok_def accounted_def)
    with False e re Inr show ?thesis by (simp add: rewind_abandoned_def then_op_def bind_op_def modify_def)
  qed
qed


section \<open>Polling\<close>

lemma decode_cp_no_surrogate: "decode_cp bs = Some (c, r) \<Longrightarrow> \<not> is_surrogate c"
  by (auto simp: decode_cp_def Let_def is_surrogate_def is_cont_def split: list.splits if_splits)

lemma replace_no_surrogate: "c \<in> set (utf8_decode_replace bs) \<Longrightarrow> \<not> is_surrogate c"
proof (induction bs rule: utf8_decode_replace.induct)
  case (1 bs)
  show ?case
  proof (cases bs)
    case Nil
    with 1(3) show ?thesis by (simp add: utf8_decode_replace.simps)
  next
    case (Cons a r)
    show ?thesis
    proof (cases "decode_cp bs")
      case None
      with 1(1) [OF Cons None] 1(3) Cons show ?thesis
        by (subst (asm) utf8_decode_replace.simps) (auto simp: is_surrogate_def)
    next
      case (Some x)
      obtain c' r' where x: "x = (c', r')" by force
      with 1(2) [OF Cons Some x [symmetric]] 1(3) Cons Some decode_cp_no_surrogate [of bs c' r'] show ?thesis
        by (subst (asm) utf8_decode_replace.simps) auto
    qed
  qed
qed

lemma utf8_encode_total: "\<forall>c \<in> set s. \<not> is_surrogate c \<Longrightarrow> \<exists>b. utf8_encode s = Some b"
  by (induction s) (auto simp: utf8_encode_def)

text \<open>Header values that are bytes keep a version gate from raising, so every polled record is handed out.\<close>

lemma received_of_total:
  assumes "\<forall>(k, v) \<in> set (km_headers m). is_bytes_or_none v"
  shows "\<exists>r. received_of q h m = Inr r \<and> rm_handle r = h \<and> rm_queue r = q"
proof (cases "truncate_declared_version (unsupported_schema_version (km_headers m))")
  case None
  then show ?thesis by (simp add: received_of_def Let_def split: sum.split)
next
  case (Some v)
  have "\<not> is_surrogate c" if "c \<in> set v" for c
  proof -
    from Some obtain raw where raw: "unsupported_schema_version (km_headers m) = Some raw"
        and v: "v = raw \<or> v = take DECLARED_VERSION_MAX_CHARS raw @ u ''...''"
      by (auto simp: truncate_declared_version_def split: option.splits if_splits)
    from raw obtain x where x: "find_header (km_headers m) (u ''bq-schema-version'') = Some x" "raw = value_text x" "x \<noteq> RawNone"
      by (auto simp: unsupported_schema_version_def Let_def split: option.splits raw_text.splits if_splits)
    from x(1) obtain k where "(k, x) \<in> set (km_headers m)"
      unfolding find_header_def find_Some_iff map_option_eq_Some by (metis nth_mem prod.collapse)
    with x have kx: "(k, x) \<in> set (km_headers m)" "raw = value_text x" "x \<noteq> RawNone" by simp_all
    with assms obtain b where "x = RawBytes b"
      by (cases x) (auto simp: is_bytes_or_none_def)
    with kx have "raw = utf8_decode_replace b" by (simp add: value_text_def)
    with v that show ?thesis
      by (auto simp: u_def is_surrogate_def dest!: in_set_takeD replace_no_surrogate)
  qed
  then obtain b where "utf8_encode v = Some b" using utf8_encode_total by blast
  with Some show ?thesis by (simp add: received_of_def Let_def quote_def utf8_bytes_def)
qed

lemma kafka_consumer_ok:
  assumes law: "poll_law K pos com recs" and ok: "offsets_ok pos com recs s A"
  shows "offsets_ok pos com recs (snd (kafka_consumer K q s)) A"
proof (cases "q \<in> set (kf_consumers s)")
  case False
  obtain r w where w: "kc_consumer K q (kf_world s) = (r, w)" by force
  from law have "keeps_offsets pos com (kc_consumer K q)" by (simp add: poll_law_def)
  with w have same: "pos w = pos (kf_world s)" "com w = com (kf_world s)"
    unfolding keeps_offsets_def by (metis snd_conv)+
  have "offsets_ok pos com recs (s\<lparr>kf_world := w, kf_consumers := c\<rparr>) A" for c
    using ok same by (simp add: offsets_ok_def)
  from this [of "kf_consumers s"] this [of "kf_consumers s @ [q]"] False w show ?thesis
    by (cases r) (simp_all add: kafka_consumer_def on_client_def then_op_def bind_op_def modify_def)
qed (simp add: kafka_consumer_def ret_def ok)

lemma poll_consumer_ok:
  assumes law: "poll_law K pos com recs" and ok: "offsets_ok pos com recs s A"
  shows "offsets_ok pos com recs (snd (poll_consumer K q t s)) A"
proof -
  obtain r w where w: "kc_poll K q (if 0 < t then t else 1) (kf_world s) = (r, w)" by force
  from law w obtain p where com: "com w = com (kf_world s)" and reb: "rebalanced (com (kf_world s)) (pos (kf_world s)) p"
      and case_r: "case r of Inr (Polled m) \<Rightarrow> next_record recs q p m (pos w) | _ \<Rightarrow> pos w = p"
    unfolding poll_law_def by blast
  have acc: "accounted recs s A tp (p tp)" for tp
    using reb offsets_okD(2) [OF ok] committed_accounted [OF ok] unfolding rebalanced_def by metis
  let ?s = "s\<lparr>kf_world := w\<rparr>"
  have idle: "offsets_ok pos com recs ?s A" if "pos w = p"
    using that acc ok com by (simp add: offsets_ok_def)
  show ?thesis
  proof (cases "\<exists>m. r = Inr (Polled m)")
    case False
    with w idle case_r show ?thesis
      by (cases r) (auto simp: poll_consumer_def bind_op_def on_client_def ret_def split: polled.splits)
  next
    case True
    then obtain m where r: "r = Inr (Polled m)" by blast
    with case_r obtain part off where m: "km_position m = Some ((q, part), off)" "p (q, part) \<le> off"
        and gap: "\<forall>x \<in> recs (q, part). p (q, part) \<le> x \<longrightarrow> off \<le> x"
        and pos: "pos w = p((q, part) := off + 1)" and hd: "\<forall>(k, v) \<in> set (km_headers m). is_bytes_or_none v"
      by (auto simp: next_record_def)
    let ?h = "kf_next s"
    obtain rm where rm: "received_of q ?h m = Inr rm" using received_of_total [OF hd] by blast
    let ?s' = "?s\<lparr>kf_handles := (kf_handles s)(?h := Some m), kf_next := Suc ?h,
        kf_pending := dset q (qget (kf_pending s) q @ [?h]) (kf_pending s)\<rparr>"
    have result: "snd (poll_consumer K q t s) = ?s'"
      using w r rm by (simp add: poll_consumer_def bind_op_def on_client_def Let_def)
    have old: "position_of ?s' h = position_of s h" if "h \<in> books s q'" for h q'
      using that offsets_okD(1) [OF ok] unfolding books_ok_def position_of_def by fastforce
    have held_old: "held ?s' tp x" if "held s tp x" for tp x
      using that old by (fastforce simp: held_def books_def)
    have new: "position_of ?s' ?h = Some ((q, part), off)"
      using m(1) by (simp add: position_of_def)
    then have held_new: "held ?s' (q, part) off" by (auto simp: held_def)
    have acc': "accounted recs ?s' A tp o'" if "accounted recs s A tp o'" for tp o'
      using accounted_mono [OF that order_refl subset_refl] held_old by blast
    have acc_off: "accounted recs ?s' A (q, part) (off + 1)"
      unfolding accounted_def
    proof (intro ballI impI)
      fix x assume x: "x \<in> recs (q, part)" "x < off + 1"
      show "((q, part), x) \<in> A \<or> held ?s' (q, part) x"
      proof (cases "x < p (q, part)")
        case True
        with acc' [OF acc [of "(q, part)"]] x(1) show ?thesis unfolding accounted_def by blast
      next
        case False
        with gap x have "x = off" by force
        with held_new show ?thesis by simp
      qed
    qed
    have "books_ok recs ?s' A"
      unfolding books_ok_def
    proof (intro conjI allI ballI impI)
      fix q' h assume h: "h \<in> books ?s' q'"
      then have cases: "h \<in> books s q' \<or> h = ?h \<and> q' = q"
        by (auto simp: books_def split: if_splits)
      show "\<exists>part off. position_of ?s' h = Some ((q', part), off) \<and> accounted recs ?s' A (q', part) off"
      proof (cases "h \<in> books s q'")
        case True
        from booksD [OF offsets_okD(1) [OF ok] True] old [OF True] acc' show ?thesis by metis
      next
        case False
        with cases have "h = ?h" "q' = q" by auto
        moreover have "accounted recs ?s' A (q, part) off"
          by (rule accounted_mono [OF acc_off]) auto
        ultimately show ?thesis using new by blast
      qed
      show "h < kf_next ?s'"
        using cases offsets_okD(1) [OF ok] unfolding books_ok_def by fastforce
    next
      fix q' h tpx assume h: "h \<in> set (qget (kf_settled ?s') q')" "position_of ?s' h = Some tpx"
      then have "h \<in> set (qget (kf_settled s) q')" by simp
      moreover from this have "position_of s h = Some tpx"
        using old [of h q'] h(2) by (simp add: books_def)
      ultimately show "tpx \<in> A"
        using offsets_okD(1) [OF ok] unfolding books_ok_def by blast
    qed
    moreover have "accounted recs ?s' A tp (pos w tp)" for tp
      using acc_off acc' [OF acc] by (cases "tp = (q, part)") (simp_all add: pos)
    ultimately have "offsets_ok pos com recs ?s' A"
      using offsets_okD(3) [OF ok] by (simp add: offsets_ok_def com)
    with result show ?thesis by simp
  qed
qed

lemma poll_one_ok:
  assumes law: "poll_law K pos com recs" and ok: "offsets_ok pos com recs s A"
  shows "offsets_ok pos com recs (snd (poll_one K q t s)) A"
proof -
  obtain r s1 where r: "kafka_consumer K q s = (r, s1)" by force
  with kafka_consumer_ok [OF assms, of q] have "offsets_ok pos com recs s1 A" by simp
  with poll_consumer_ok [OF law this, of q t] r show ?thesis
    by (cases r) (simp_all add: poll_one_def then_op_def bind_op_def)
qed

lemma poll_batch_ok:
  "poll_law K pos com recs \<Longrightarrow> offsets_ok pos com recs s A \<Longrightarrow>
     offsets_ok pos com recs (snd (poll_batch n K q limit t batch s)) A"
proof (induction n arbitrary: batch s)
  case (Suc n)
  have next_ok: "offsets_ok pos com recs (snd (poll_one K q t s)) A"
    by (rule poll_one_ok [OF Suc.prems])
  then show ?case
    using Suc.IH [OF Suc.prems(1)] Suc.prems(2)
    by (auto simp: ret_def split: prod.splits sum.splits option.splits)
qed (simp add: ret_def)


section \<open>Acknowledging\<close>

lemma top_by_mem: "top_by f best hs \<in> set (best # hs)"
proof (induction hs arbitrary: best)
  case (Cons h hs)
  from Cons [of h] Cons [of best] show ?case by (auto split: if_splits)
qed simp

lemma lowest_offset_le: "lowest_offset xs = Some f \<Longrightarrow> x \<in> set xs \<Longrightarrow> f \<le> x"
  by (auto simp: lowest_offset_def split: if_splits)

lemma lowest_offset_None: "lowest_offset xs = None \<longleftrightarrow> xs = []"
  by (simp add: lowest_offset_def)

text \<open>The books an acknowledgement leaves, and the record it may commit.\<close>

lemma ack_cases:
  assumes "kf_handles s (rm_handle m) = Some msg"
  obtains committable remaining where
    "set committable \<subseteq> set (qget (kf_settled s) (rm_queue m)) \<union> {rm_handle m}"
    "set remaining \<subseteq> set (qget (kf_settled s) (rm_queue m)) \<union> {rm_handle m}"
    "\<And>x. x \<in> set committable \<Longrightarrow> partition_of s x = partition_of s (rm_handle m)"
    "\<And>x y. x \<in> set committable \<Longrightarrow> y \<in> set (qget (kf_pending s) (rm_queue m)) \<Longrightarrow> y \<noteq> rm_handle m \<Longrightarrow>
       partition_of s y = partition_of s (rm_handle m) \<Longrightarrow> offset_of s x < offset_of s y"
    "kafka_ack K m s =
       (let s1 = s\<lparr>kf_pending := put_book (rm_queue m) (filter (\<lambda>x. x \<noteq> rm_handle m) (qget (kf_pending s) (rm_queue m))) (kf_pending s),
                   kf_settled := put_book (rm_queue m) remaining (kf_settled s)\<rparr>
        in case committable of
             [] \<Rightarrow> (Inr (), s1)
           | c # cs \<Rightarrow>
               (case kf_handles s (top_by (offset_of s) c cs) of
                  None \<Rightarrow> (Inr (), s1)
                | Some highest \<Rightarrow> on_client (kc_commit K (rm_queue m) highest) s1))"
proof -
  let ?h = "rm_handle m" and ?q = "rm_queue m"
  let ?pending = "filter (\<lambda>x. x \<noteq> ?h) (qget (kf_pending s) ?q)"
  let ?here = "\<lambda>x. partition_of s x = partition_of s ?h"
  let ?floor = "lowest_offset (map (offset_of s) (filter ?here ?pending))"
  let ?com = "filter (\<lambda>x. ?here x \<and> (case ?floor of None \<Rightarrow> True | Some f \<Rightarrow> offset_of s x < f))
                (qget (kf_settled s) ?q @ [?h])"
  let ?rem = "filter (\<lambda>x. x \<notin> set ?com) (qget (kf_settled s) ?q @ [?h])"
  show thesis
  proof (rule that [of ?com ?rem])
    show "offset_of s x < offset_of s y"
      if x: "x \<in> set ?com" and y: "y \<in> set (qget (kf_pending s) ?q)" "y \<noteq> ?h" "?here y" for x y
    proof -
      from y have mem: "offset_of s y \<in> set (map (offset_of s) (filter ?here ?pending))" by simp
      then obtain f where f: "?floor = Some f"
        by (metis lowest_offset_None empty_iff empty_set option.exhaust)
      from x have "case ?floor of None \<Rightarrow> True | Some f \<Rightarrow> offset_of s x < f"
        unfolding set_filter by blast
      with f have "offset_of s x < f" by simp
      with lowest_offset_le [OF f mem] show ?thesis by simp
    qed
  next
    show "kafka_ack K m s =
       (let s1 = s\<lparr>kf_pending := put_book ?q ?pending (kf_pending s), kf_settled := put_book ?q ?rem (kf_settled s)\<rparr>
        in case ?com of
             [] \<Rightarrow> (Inr (), s1)
           | c # cs \<Rightarrow>
               (case kf_handles s (top_by (offset_of s) c cs) of
                  None \<Rightarrow> (Inr (), s1)
                | Some highest \<Rightarrow> on_client (kc_commit K ?q highest) s1))"
      by (simp only: kafka_ack_def Let_def assms option.distinct if_False)
  next
    show "partition_of s x = partition_of s ?h" if "x \<in> set ?com" for x
      using that unfolding set_filter by blast
  qed (unfold set_filter set_append, auto)
qed

lemma ack_ok:
  assumes law: "commit_law K pos com" and ok: "offsets_ok pos com recs s A" and fl: "in_flight s m"
  shows "offsets_ok pos com recs (snd (kafka_ack K m s)) (A \<union> settled_of s m)"
proof -
  let ?h = "rm_handle m" and ?q = "rm_queue m" and ?A = "A \<union> settled_of s m"
  have "?h \<in> books s ?q" using fl by (simp add: in_flight_def books_def)
  with booksD [OF offsets_okD(1) [OF ok]] obtain part off where h: "position_of s ?h = Some ((?q, part), off)"
    by metis
  let ?tp = "(?q, part)"
  obtain msg where msg: "kf_handles s ?h = Some msg" using h by (auto simp: position_of_def split: option.splits)
  obtain committable remaining where
    com_sub: "set committable \<subseteq> set (qget (kf_settled s) ?q) \<union> {?h}"
    and rem_sub: "set remaining \<subseteq> set (qget (kf_settled s) ?q) \<union> {?h}"
    and com_here: "\<And>x. x \<in> set committable \<Longrightarrow> partition_of s x = partition_of s ?h"
    and com_below: "\<And>x y. x \<in> set committable \<Longrightarrow> y \<in> set (qget (kf_pending s) ?q) \<Longrightarrow> y \<noteq> ?h \<Longrightarrow>
       partition_of s y = partition_of s ?h \<Longrightarrow> offset_of s x < offset_of s y"
    and ack: "kafka_ack K m s =
       (let s1 = s\<lparr>kf_pending := put_book ?q (filter (\<lambda>x. x \<noteq> ?h) (qget (kf_pending s) ?q)) (kf_pending s),
                   kf_settled := put_book ?q remaining (kf_settled s)\<rparr>
        in case committable of
             [] \<Rightarrow> (Inr (), s1)
           | c # cs \<Rightarrow>
               (case kf_handles s (top_by (offset_of s) c cs) of
                  None \<Rightarrow> (Inr (), s1)
                | Some highest \<Rightarrow> on_client (kc_commit K ?q highest) s1))"
    using ack_cases [OF msg] by blast
  let ?s = "s\<lparr>kf_pending := put_book ?q (filter (\<lambda>x. x \<noteq> ?h) (qget (kf_pending s) ?q)) (kf_pending s),
              kf_settled := put_book ?q remaining (kf_settled s)\<rparr>"
  have hA: "(?tp, off) \<in> ?A" using h by (simp add: settled_of_def)
  have pos_s: "position_of ?s x = position_of s x" for x by (simp add: position_of_def)
  have held': "(tp, x) \<in> ?A \<or> held ?s tp x" if held: "held s tp x" for tp x
  proof -
    from held obtain y where y: "y \<in> set (qget (kf_pending s) (fst tp))" "position_of s y = Some (tp, x)"
      by (auto simp: held_def)
    show ?thesis
    proof (cases "y = ?h")
      case True
      with y(2) h hA show ?thesis by auto
    next
      case False
      with y pos_s show ?thesis by (auto simp: held_def)
    qed
  qed
  have acc': "accounted recs ?s ?A tp o'" if "accounted recs s A tp o'" for tp o'
    using held' by (intro accounted_mono [OF that]) auto
  have sub: "books ?s q \<subseteq> books s q" for q
    using rem_sub fl by (auto simp: books_def in_flight_def)
  have settledA: "tpx \<in> ?A" if "y \<in> set (qget (kf_settled s) q) \<union> {?h}" "position_of s y = Some tpx" for y q tpx
  proof (cases "y = ?h")
    case True
    with that h hA show ?thesis by simp
  next
    case False
    with that have "y \<in> set (qget (kf_settled s) q)" by simp
    with that(2) offsets_okD(1) [OF ok] have "tpx \<in> A" unfolding books_ok_def by blast
    then show ?thesis by simp
  qed
  have books: "books_ok recs ?s ?A"
    unfolding books_ok_def
  proof (intro conjI allI ballI impI)
    fix q y assume y: "y \<in> books ?s q"
    with sub have y': "y \<in> books s q" by blast
    from booksD [OF offsets_okD(1) [OF ok] y'] acc' pos_s
    show "\<exists>part off. position_of ?s y = Some ((q, part), off) \<and> accounted recs ?s ?A (q, part) off" by metis
    from y' offsets_okD(1) [OF ok] show "y < kf_next ?s" unfolding books_ok_def by auto
  next
    fix q y tpx assume y: "y \<in> set (qget (kf_settled ?s) q)" "position_of ?s y = Some tpx"
    then have "y \<in> set (qget (kf_settled s) q) \<union> {?h}" using rem_sub by (auto split: if_splits)
    with y(2) settledA pos_s show "tpx \<in> ?A" by metis
  qed
  have base: "offsets_ok pos com recs ?s ?A"
    unfolding offsets_ok_def
  proof (intro conjI allI ballI impI books)
    show "accounted recs ?s ?A tp (pos (kf_world ?s) tp)" for tp
      using acc' [OF offsets_okD(2) [OF ok]] by simp
  next
    fix tp x assume "x \<in> recs tp" "x < com (kf_world ?s) tp"
    with offsets_okD(3) [OF ok] show "(tp, x) \<in> ?A" by simp
  qed
  show ?thesis
  proof (cases committable)
    case Nil
    with ack base show ?thesis by (simp add: Let_def)
  next
    case (Cons c cs)
    let ?top = "top_by (offset_of s) c cs"
    have top: "?top \<in> set committable" using top_by_mem Cons by metis
    with com_sub fl have "?top \<in> books s ?q" by (auto simp: books_def in_flight_def)
    with booksD [OF offsets_okD(1) [OF ok]] obtain part2 off2
      where t: "position_of s ?top = Some ((?q, part2), off2)" and acc2: "accounted recs s A (?q, part2) off2"
      by metis
    from com_here [OF top] t h have [simp]: "part2 = part" by (simp add: partition_of_def)
    obtain tm where tm: "kf_handles s ?top = Some tm" "km_position tm = Some (?tp, off2)"
      using t by (auto simp: position_of_def split: option.splits)
    have new: "(?tp, x) \<in> ?A" if x: "x \<in> recs ?tp" "x < off2 + 1" for x
    proof (cases "x = off2")
      case True
      with settledA [of ?top ?q "(?tp, off2)"] com_sub top t show ?thesis by auto
    next
      case False
      with x acc2 consider "(?tp, x) \<in> A" | "held s ?tp x" by (auto simp: accounted_def)
      then show ?thesis
      proof cases
        case 2
        then obtain y where y: "y \<in> set (qget (kf_pending s) ?q)" "position_of s y = Some (?tp, x)"
          by (auto simp: held_def)
        show ?thesis
        proof (cases "y = ?h")
          case True
          with y h hA show ?thesis by auto
        next
          case no: False
          with com_below [OF top y(1)] y h t x False show ?thesis
            by (simp add: partition_of_def offset_of_def)
        qed
      qed simp
    qed
    obtain r w where w: "kc_commit K ?q tm (kf_world s) = (r, w)" by force
    with law tm(2) have pos: "pos w = pos (kf_world s)"
      and com: "com w = (com (kf_world s))(?tp := off2 + 1) \<or> com w = com (kf_world s)"
      unfolding commit_law_def by blast+
    have world: "snd (kafka_ack K m s) = ?s\<lparr>kf_world := w\<rparr>"
      using ack Cons tm(1) w by (simp add: Let_def on_client_def)
    have "(tp, x) \<in> ?A" if x: "x \<in> recs tp" "x < com w tp" for tp x
    proof (cases "tp = ?tp \<and> com w \<noteq> com (kf_world s)")
      case True
      with com x new show ?thesis by auto
    next
      case False
      with com have "com w tp = com (kf_world s) tp" by (metis fun_upd_apply)
      with x offsets_okD(3) [OF base, of x tp] show ?thesis by simp
    qed
    moreover have "accounted recs ?s ?A tp (pos (kf_world s) tp)" for tp
      using offsets_okD(2) [OF base, of tp] by simp
    ultimately have "offsets_ok pos com recs (?s\<lparr>kf_world := w\<rparr>) ?A"
      unfolding offsets_ok_def using books pos by simp
    with world show ?thesis by simp
  qed
qed


section \<open>Writing\<close>

text \<open>An operation that changes the client's world only, and neither positions nor commits.\<close>

definition only_writes :: "('w \<Rightarrow> offsets) \<Rightarrow> ('w \<Rightarrow> offsets) \<Rightarrow> ('w kafka, 'a) op \<Rightarrow> bool" where
  "only_writes pos com f \<longleftrightarrow>
     (\<forall>s. \<exists>w. snd (f s) = s\<lparr>kf_world := w\<rparr> \<and> pos w = pos (kf_world s) \<and> com w = com (kf_world s))"

named_theorems write_rules "operations that only write"

lemma only_writes_pure [write_rules]: "only_writes pos com (\<lambda>s. (f s, s))"
  unfolding only_writes_def by (metis kafka.surjective kafka.update_convs(1) snd_conv)

lemma only_writes_basic [write_rules]:
  "only_writes pos com (ret x)" "only_writes pos com (raise_op e)" "only_writes pos com (lift_res r)"
  unfolding ret_def raise_op_def lift_res_def by (rule only_writes_pure)+

lemma only_writes_client [write_rules]: "keeps_offsets pos com f \<Longrightarrow> only_writes pos com (on_client f)"
  unfolding only_writes_def keeps_offsets_def on_client_def by (auto split: prod.split) (metis snd_conv)

lemma only_writes_bind [write_rules]:
  assumes "only_writes pos com f" "\<And>x. only_writes pos com (g x)"
  shows "only_writes pos com (bind_op f g)"
  unfolding only_writes_def
proof
  fix s
  obtain r s1 where f: "f s = (r, s1)" by force
  with assms(1) obtain w where w: "s1 = s\<lparr>kf_world := w\<rparr>" "pos w = pos (kf_world s)" "com w = com (kf_world s)"
    unfolding only_writes_def by (metis snd_conv)
  show "\<exists>w. snd (bind_op f g s) = s\<lparr>kf_world := w\<rparr> \<and> pos w = pos (kf_world s) \<and> com w = com (kf_world s)"
  proof (cases r)
    case (Inl e)
    with f w show ?thesis by (auto simp: bind_op_def)
  next
    case (Inr x)
    from assms(2) [of x] obtain w2 where "snd (g x s1) = s1\<lparr>kf_world := w2\<rparr>"
        "pos w2 = pos (kf_world s1)" "com w2 = com (kf_world s1)"
      unfolding only_writes_def by blast
    with Inr f w show ?thesis by (auto simp: bind_op_def)
  qed
qed

lemma only_writes_then [write_rules]:
  "only_writes pos com f \<Longrightarrow> only_writes pos com g \<Longrightarrow> only_writes pos com (then_op f g)"
  unfolding then_op_def by (rule only_writes_bind)

lemma write_law_keeps [write_rules]:
  assumes "write_law K pos com"
  shows "keeps_offsets pos com (kc_produce K topic r)" "keeps_offsets pos com (kc_flush K t)" "keeps_offsets pos com (kc_serve K)"
    "keeps_offsets pos com (kc_flush_all K)" "keeps_offsets pos com (kc_close K q)"
  using assms by (simp_all add: write_law_def)

lemma only_writes_report [write_rules]:
  "only_writes pos com (\<lambda>s. case g s of
     None \<Rightarrow> raise_op e s | Some (Some err) \<Rightarrow> raise_op (e2 err) s | Some None \<Rightarrow> ret () s)"
  unfolding only_writes_def
  by (auto simp: raise_op_def ret_def split: option.split) (metis kafka.surjective kafka.update_convs(1))+

lemma only_writes_confirmed [write_rules]: "write_law K pos com \<Longrightarrow> only_writes pos com (produce_confirmed K topic r)"
  unfolding produce_confirmed_def by (intro write_rules; assumption)

lemma only_writes_publish [write_rules]:
  "write_law K pos com \<Longrightarrow> only_writes pos com (kafka_publish K q body)"
  "write_law K pos com \<Longrightarrow> only_writes pos com (publish_settled K q body route key hs)"
  unfolding kafka_publish_def publish_settled_def by (intro write_rules; assumption)+

lemma only_writes_ok:
  assumes "only_writes pos com f" "offsets_ok pos com recs s A"
  shows "offsets_ok pos com recs (snd (f s)) A"
proof -
  from assms(1) obtain w where "snd (f s) = s\<lparr>kf_world := w\<rparr>" "pos w = pos (kf_world s)" "com w = com (kf_world s)"
    unfolding only_writes_def by blast
  with assms(2) show ?thesis by (simp add: offsets_ok_def)
qed

lemma only_writes_ignore: "only_writes pos com c \<Longrightarrow> only_writes pos com (catch_exc c (\<lambda>e. ret ()))"
  unfolding only_writes_def by (auto simp: catch_exc_def ret_def split: prod.split sum.split) (metis snd_conv)+

lemma only_writes_close_each:
  "\<forall>c \<in> set cs. only_writes pos com c \<Longrightarrow> only_writes pos com (close_each cs)"
  by (induction cs) (auto intro: write_rules only_writes_ignore)

lemma only_writes_close:
  fixes K :: "'w kafka_setup"
  assumes "write_law K pos com"
  shows "only_writes pos com (kafka_close K)"
  unfolding only_writes_def
proof
  fix s :: "'w kafka"
  have "only_writes pos com
      (close_each (on_client (kc_flush_all K) # map (\<lambda>queue. on_client (kc_close K queue)) (kf_consumers s)))"
    by (rule only_writes_close_each) (auto intro: only_writes_client write_law_keeps [OF assms])
  then show "\<exists>w. snd (kafka_close K s) = s\<lparr>kf_world := w\<rparr> \<and> pos w = pos (kf_world s) \<and> com w = com (kf_world s)"
    unfolding only_writes_def kafka_close_def by blast
qed

lemma redeliver_ok:
  assumes laws: "consumer_laws K pos com recs" and ok: "offsets_ok pos com recs s A" and fl: "in_flight s m"
  shows "offsets_ok pos com recs (snd (kafka_redeliver K m body d s))
           (if copy_confirmed K m body s then A \<union> settled_of s m else A)"
proof (cases "ks_tiers K = [] \<or> isl (redelivered_record (ks_tiers K) m body)")
  case True
  with ok show ?thesis
    by (cases "redelivered_record (ks_tiers K) m body")
       (auto simp: kafka_redeliver_def raise_op_def bind_op_def lift_res_def copy_confirmed_def)
next
  case False
  then obtain topic cp where rr: "redelivered_record (ks_tiers K) m body = Inr (topic, cp)"
    by (cases "redelivered_record (ks_tiers K) m body") auto
  obtain r s1 where p: "produce_confirmed K topic cp s = (r, s1)" by force
  have writes: "only_writes pos com (produce_confirmed K topic cp)"
    using laws by (intro write_rules) (simp add: consumer_laws_def)
  obtain w where w: "s1 = s\<lparr>kf_world := w\<rparr>"
    using writes p unfolding only_writes_def by (metis snd_conv)
  have ok1: "offsets_ok pos com recs s1 A" using only_writes_ok [OF writes ok] p by simp
  show ?thesis
  proof (cases r)
    case (Inl e)
    with False rr p ok1 show ?thesis
      by (simp add: kafka_redeliver_def bind_op_def lift_res_def then_op_def copy_confirmed_def)
  next
    case (Inr x)
    have fl1: "in_flight s1 m" and st: "settled_of s1 m = settled_of s m"
      using fl by (simp_all add: w in_flight_def settled_of_def)
    have "snd (kafka_redeliver K m body d s) = snd (kafka_ack K m s1)"
      using False rr p Inr
      by (auto simp: kafka_redeliver_def bind_op_def lift_res_def then_op_def catch_exc_def ret_def
          split: prod.split sum.split)
    moreover have "copy_confirmed K m body s"
      using False rr p Inr by (simp add: copy_confirmed_def)
    ultimately show ?thesis
      using ack_ok [OF _ ok1 fl1] laws st by (simp add: consumer_laws_def)
  qed
qed

lemma kafka_run_ok:
  assumes laws: "consumer_laws K pos com recs" and init: "offsets_ok pos com recs s0 A0"
    and run: "kafka_run K s0 A0 s A"
  shows "offsets_ok pos com recs s A"
  using run
proof induction
  case (popped s A q t)
  have law: "poll_law K pos com recs" "seek_law K pos com" using laws by (simp_all add: consumer_laws_def)
  obtain r s1 where ra: "rewind_abandoned K q s = (r, s1)" by force
  then have "offsets_ok pos com recs s1 A" using rewind_abandoned_ok [OF law(2) popped.IH, of q] by simp
  with ra poll_one_ok [OF law(1)] show ?case
    by (cases r) (simp_all add: kafka_pop_def then_op_def bind_op_def)
next
  case (batched s A n q limit t)
  have law: "poll_law K pos com recs" "seek_law K pos com" using laws by (simp_all add: consumer_laws_def)
  obtain r s1 where ra: "rewind_abandoned K q s = (r, s1)" by force
  then have "offsets_ok pos com recs s1 A" using rewind_abandoned_ok [OF law(2) batched.IH, of q] by simp
  with ra poll_batch_ok [OF law(1)] show ?case
    by (cases r) (simp_all add: kafka_pop_batch_def then_op_def bind_op_def)
next
  case (acked s A m)
  then show ?case using laws by (intro ack_ok) (simp_all add: consumer_laws_def)
next
  case (rewound s A m)
  then show ?case using laws by (intro offsets_ok_rewind) (simp_all add: consumer_laws_def)
next
  case (redelivered s A m body d)
  then show ?case using redeliver_ok [OF laws] by simp
next
  case (published s A q body)
  then show ?case using laws by (intro only_writes_ok write_rules) (simp_all add: consumer_laws_def)
next
  case (settle_published s A q body route key hs)
  then show ?case using laws by (intro only_writes_ok write_rules) (simp_all add: consumer_laws_def)
next
  case (closed s A)
  then show ?case using laws by (intro only_writes_ok only_writes_close) (simp_all add: consumer_laws_def)
qed (rule init)

section \<open>Property\<close>


end
