(* ===== verification/KafkaDemo.thy ===== *)
theory KafkaDemo
  imports KafkaOffsets
begin

text \<open>
  A small broker to run the Kafka transport on: one partition with three records, a consumer whose
  offsets move as documented, a producer whose writes are confirmed. The witnesses of the Kafka
  properties run on it.
\<close>

record demo_world =
  dw_pos :: offsets
  dw_com :: offsets
  dw_written :: "(pystr \<times> kafka_record) list"

definition demo_tp :: "pystr \<times> int" where
  "demo_tp = (u ''q'', 0)"

definition demo_body :: pystr where
  "demo_body = u ''{\"job\":\"urn:a\",\"attempts\":0}''"

definition demo_record :: "int \<Rightarrow> kafka_message" where
  "demo_record off =
     \<lparr>km_position = Some (demo_tp, off), km_headers = [], km_value = RawBytes demo_body, km_key = Some [7]\<rparr>"

definition demo_recs :: "pystr \<times> int \<Rightarrow> int set" where
  "demo_recs tp = (if tp = demo_tp then {0, 1, 2} else {})"

definition demo_setup :: "demo_world kafka_setup" where
  "demo_setup =
     \<lparr>kc_consumer = (\<lambda>queue. ret ()), kc_poll = (\<lambda>queue t w.
        if queue = u ''q'' \<and> 0 \<le> dw_pos w demo_tp \<and> dw_pos w demo_tp \<le> 2
        then (Inr (Polled (demo_record (dw_pos w demo_tp))), w\<lparr>dw_pos := (dw_pos w)(demo_tp := dw_pos w demo_tp + 1)\<rparr>)
        else (Inr NoRecord, w)),
      kc_commit = (\<lambda>queue m w. case km_position m of
          None \<Rightarrow> (Inr (), w)
        | Some (tp, off) \<Rightarrow> (Inr (), w\<lparr>dw_com := (dw_com w)(tp := off + 1)\<rparr>)),
      kc_seek = (\<lambda>queue tp off w. (Inr (), w\<lparr>dw_pos := (dw_pos w)(tp := off)\<rparr>)),
      kc_produce = (\<lambda>topic r w. (Inr (length (dw_written w)), w\<lparr>dw_written := dw_written w @ [(topic, r)]\<rparr>)),
      kc_serve = ret (), kc_flush = (\<lambda>t. ret ()), kc_flush_all = ret (), kc_close = (\<lambda>queue. ret ()),
      kc_report = (\<lambda>w ticket. Some None), kc_now_ms = (\<lambda>w. 0),
      ks_tiers = [5000, 30000], ks_delivery_timeout = 30\<rparr>"

lemma demo_laws: "consumer_laws demo_setup dw_pos dw_com demo_recs"
proof -
  have "poll_law demo_setup dw_pos dw_com demo_recs"
    by (auto simp: poll_law_def keeps_offsets_def ret_def demo_setup_def rebalanced_def next_record_def demo_record_def demo_recs_def demo_tp_def
        intro!: exI [of _ "dw_pos w" for w])
  moreover have "commit_law demo_setup dw_pos dw_com"
    by (auto simp: commit_law_def demo_setup_def)
  moreover have "seek_law demo_setup dw_pos dw_com"
    by (auto simp: seek_law_def demo_setup_def)
  moreover have "write_law demo_setup dw_pos dw_com"
    by (auto simp: write_law_def keeps_offsets_def demo_setup_def ret_def)
  ultimately show ?thesis by (simp add: consumer_laws_def)
qed

definition demo_start :: "demo_world kafka" where
  "demo_start =
     \<lparr>kf_world = \<lparr>dw_pos = (\<lambda>tp. 0), dw_com = (\<lambda>tp. 0), dw_written = []\<rparr>, kf_consumers = [],
      kf_pending = [], kf_settled = [], kf_handles = (\<lambda>h. None), kf_next = 1\<rparr>"

text \<open>Two records are taken, the second is acknowledged first.\<close>

definition demo_message :: "nat \<Rightarrow> received_message" where
  "demo_message h =
     \<lparr>rm_body = demo_body, rm_queue = u ''q'', rm_handle = h, rm_headers = [], rm_route = Route [],
      rm_key = Some [7], rm_native_attempts = 0\<rparr>"

definition demo_taken :: "demo_world kafka" where
  "demo_taken = snd (kafka_pop_batch 5 demo_setup (u ''q'') 2 1 demo_start)"

definition demo_second :: "demo_world kafka" where
  "demo_second = snd (kafka_ack demo_setup (demo_message 2) demo_taken)"

definition demo_first :: "demo_world kafka" where
  "demo_first = snd (kafka_ack demo_setup (demo_message 1) demo_second)"

lemma kafka_demo_runs:
  "in_flight demo_taken (demo_message 2)" "in_flight demo_second (demo_message 1)"
  "dw_com (kf_world demo_second) demo_tp = 0" "dw_com (kf_world demo_first) demo_tp = 2"
  "settled_of demo_taken (demo_message 2) = {(demo_tp, 1)}" "settled_of demo_second (demo_message 1) = {(demo_tp, 0)}"
  by code_simp+


end
