(* ===== verification/KafkaRecords.thy ===== *)
theory KafkaRecords
  imports KafkaTransport Retry
begin

text \<open>
  What the Kafka transport writes when it settles a record: the record's own bytes when it goes back
  where it came from, and a retry copy that counts the attempt and names its tier.
\<close>

section \<open>Bytes\<close>

lemma escape_text_no_other_surrogate:
  "c \<in> set (utf8_decode_escape bs) \<Longrightarrow> \<forall>b \<in> set bs. b < 256 \<Longrightarrow> is_surrogate c \<Longrightarrow> 0xDC80 \<le> c \<and> c \<le> 0xDCFF"
proof (induction bs rule: utf8_decode_escape.induct)
  case (1 bs)
  show ?case
  proof (cases bs)
    case Nil
    with "1.prems" show ?thesis by (simp add: utf8_decode_escape.simps)
  next
    case (Cons a r)
    show ?thesis
    proof (cases "decode_cp bs")
      case None
      then have "0x80 \<le> a"
        using Cons by (intro leI notI) (simp add: decode_cp_def)
      with None Cons "1.prems" "1.IH"(1) [OF Cons None] show ?thesis
        by (subst (asm) utf8_decode_escape.simps) auto
    next
      case (Some p)
      obtain c' r' where p: "p = (c', r')" by force
      with Some decode_cp_inverse have d: "bs = cp_bytes c' @ r'" "\<not> is_surrogate c'" by blast+
      have "\<forall>b \<in> set r'. b < 256" using "1.prems"(2) d(1) by auto
      moreover have "c \<in> set (c' # utf8_decode_escape r')"
        using Some p Cons "1.prems"(1) by (subst (asm) utf8_decode_escape.simps) simp
      ultimately show ?thesis
        using "1.IH"(2) [OF Cons Some p [symmetric]] "1.prems"(3) d(2) by auto
    qed
  qed
qed

lemma clean_surrogates_escape: "\<forall>b \<in> set bs. b < 256 \<Longrightarrow> clean_surrogates (utf8_decode_escape bs) = utf8_decode_escape bs"
  unfolding clean_surrogates_def by (rule map_idI) (auto dest: escape_text_no_other_surrogate)

lemma encode_with_agree:
  "encode_with f s = Some b \<Longrightarrow> (\<And>c x. c \<in> set s \<Longrightarrow> f c = Some x \<Longrightarrow> g c = Some x) \<Longrightarrow> encode_with g s = Some b"
  by (induction s arbitrary: b) (auto split: option.splits)

lemma utf8_encode_escape: "utf8_encode s = Some b \<Longrightarrow> utf8_surrogateescape s = Some b"
  unfolding utf8_encode_def utf8_surrogateescape_def
  by (erule encode_with_agree) (auto simp: escape_cp_def is_surrogate_def split: if_splits)

lemma record_value:
  assumes "\<forall>b \<in> set bs. b < 256" "record_kwargs raw_ok (utf8_decode_escape bs) = Inr r"
  shows "kr_value r = bs"
proof (cases "utf8_encode (utf8_decode_escape bs)")
  case None
  with assms surrogateescape_lossless [OF assms(1)] show ?thesis
    by (auto simp: record_kwargs_def utf8_bytes_def clean_surrogates_escape split: if_splits)
next
  case (Some b)
  from utf8_encode_escape [OF this] surrogateescape_lossless [OF assms(1)] have "b = bs" by simp
  with Some assms(2) show ?thesis
    by (auto simp: record_kwargs_def utf8_bytes_def bind_res_Inr)
qed

section \<open>Headers\<close>

lemma map_of_filter_absent: "(\<And>h. P h \<Longrightarrow> fst h \<noteq> k) \<Longrightarrow> map_of (filter P hs) k = None"
  by (induction hs) auto

lemma map_of_extra: "k \<in> fst ` set hs \<Longrightarrow> with_extra_headers hs extra = Inr hs' \<Longrightarrow> map_of hs' k = map_of hs k"
  by (auto simp: with_extra_headers_def bind_res_Inr map_add_def split: option.split dest: weak_map_of_SomeI)

lemma header_names [simp]:
  "DELAY_HEADER \<noteq> ORIGINAL_TOPIC_HEADER" "ORIGINAL_TOPIC_HEADER \<noteq> DELAY_HEADER"
  "DELAY_HEADER \<noteq> u ''bq-attempts''" "ORIGINAL_TOPIC_HEADER \<noteq> u ''bq-attempts''"
  "u ''bq-attempts'' \<noteq> DELAY_HEADER" "u ''bq-attempts'' \<noteq> ORIGINAL_TOPIC_HEADER"
  by (simp_all add: DELAY_HEADER_def ORIGINAL_TOPIC_HEADER_def)

text \<open>The retry headers a parked record carries, each exactly once.\<close>

lemma tier_record_headers:
  assumes "tier_record work_topic body n delay (Some a) = Inr (topic, r)"
  shows "topic = retry_topic work_topic n" "map_of (kr_headers r) (u ''bq-attempts'') = Some (int_str a)"
    "map_of (kr_headers r) DELAY_HEADER = Some (int_str delay)"
    "map_of (kr_headers r) ORIGINAL_TOPIC_HEADER = utf8_encode work_topic"
    "{u ''bq-attempts'', DELAY_HEADER, ORIGINAL_TOPIC_HEADER} \<subseteq> fst ` set (kr_headers r)"
proof -
  obtain r0 where r0: "record_kwargs False body = Inr r0"
    using assms by (cases "record_kwargs False body") (auto simp: tier_record_def)
  obtain tb where tb: "utf8_encode work_topic = Some tb"
    using assms r0 by (cases "utf8_encode work_topic") (auto simp: tier_record_def utf8_bytes_def)
  have t: "topic = retry_topic work_topic n"
      and r: "kr_headers r = filter (\<lambda>h. fst h \<noteq> u ''bq-attempts'')
                 (filter (\<lambda>h. fst h \<notin> {DELAY_HEADER, ORIGINAL_TOPIC_HEADER}) (kr_headers r0)) @
               [(u ''bq-attempts'', int_str a)] @ [(DELAY_HEADER, int_str delay), (ORIGINAL_TOPIC_HEADER, tb)]"
    using assms r0 tb by (auto simp: tier_record_def utf8_bytes_def Let_def)
  define base where "base = filter (\<lambda>h. fst h \<noteq> u ''bq-attempts'')
                 (filter (\<lambda>h. fst h \<notin> {DELAY_HEADER, ORIGINAL_TOPIC_HEADER}) (kr_headers r0))"
  have none: "map_of base k = None" if "k \<in> {u ''bq-attempts'', DELAY_HEADER, ORIGINAL_TOPIC_HEADER}" for k
    unfolding base_def filter_filter using that by (intro map_of_filter_absent) auto
  show "topic = retry_topic work_topic n" by (rule t)
  show "map_of (kr_headers r) (u ''bq-attempts'') = Some (int_str a)"
      "map_of (kr_headers r) DELAY_HEADER = Some (int_str delay)"
      "map_of (kr_headers r) ORIGINAL_TOPIC_HEADER = utf8_encode work_topic"
    unfolding r base_def [symmetric] map_of_append map_add_def by (simp_all add: none tb)
  show "{u ''bq-attempts'', DELAY_HEADER, ORIGINAL_TOPIC_HEADER} \<subseteq> fst ` set (kr_headers r)"
    unfolding r by auto
qed


section \<open>The retry copy\<close>

lemma with_attempts_body:
  assumes "with_attempts body n = Inr body'" "fst (decode body) = Inr e" "e \<noteq> []" "floats_ok (PDict e)"
  shows "\<exists>e'. fst (decode body') = Inr e' \<and> runtime_attempts e' = Inr n
    \<and> (\<forall>k. k \<noteq> u ''attempts'' \<longrightarrow> dget e' k = dget e k)"
proof -
  let ?e = "dset (u ''attempts'') (PInt n) e"
  have l: "fst (decode_lenient body) = Inr e" using decode_decode_lenient [OF assms(2)] assms(2) by simp
  have step: "with_attempts body n =
      (case runtime_attempts e of
         Inl x \<Rightarrow> if exc_class_of x = ValueError then encode ?e else Inl x
       | Inr k \<Rightarrow> if k = n \<and> get_or_none e (u ''attempts'') \<noteq> PNone then Inr body else encode ?e)"
    using assms(3) by (simp add: with_attempts_def l)
  have "body' = body \<and> runtime_attempts e = Inr n \<or> encode ?e = Inr body'"
    using assms(1) unfolding step by (cases "runtime_attempts e") (simp_all split: if_splits)
  then consider (same) "body' = body" "runtime_attempts e = Inr n" | (written) "encode ?e = Inr body'"
    by blast
  then show ?thesis
  proof cases
    case same
    with assms(2) show ?thesis by blast
  next
    case written
    have "is_valid_urn (dget ?e (u ''job''))" "wf_val (PDict ?e)" "floats_ok (PDict ?e)"
      using decode_result(4) [OF assms(2,3)]
        writable_dset(2) [OF decode_result(2) [OF assms(2,3)], of "PInt n"] writable_dset(3) [OF assms(4), of "PInt n"]
      by simp_all
    from encode_decodes [OF written this] have "decode body' = (Inr ?e, [])"
      by (intro decode_object(1))
    moreover have "runtime_attempts ?e = Inr n" by (simp add: runtime_attempts_def)
    ultimately show ?thesis by auto
  qed
qed

lemma tier_record_value:
  "tier_record work_topic body n delay a = Inr (topic, r) \<Longrightarrow> utf8_encode body = Some (kr_value r)"
  by (auto simp: tier_record_def record_kwargs_def utf8_bytes_def bind_res_Inr Let_def split: option.splits)

lemma attempts_before_nonneg: "attempts_before body = Inr n \<Longrightarrow> 0 \<le> n"
  by (auto simp: attempts_before_def attempts_or_def bind_res_Inr split: if_splits sum.splits)

text \<open>
  C19: a retry parks a faithful copy on the right tier. The record \<open>redeliver\<close> writes is on a configured
  tier topic of the queue the message came from, the one of the attempt or the last when the attempts
  have run past them; its value decodes to the envelope with the attempts counted up by one, which the
  header \<open>bq-attempts\<close> also says; its headers name the tier's delay and the topic to return to, and its
  key is the consumed record's.
\<close>

theorem redelivered_copy:
  assumes "redelivered_record tiers m body = Inr (topic, copy)" "tiers \<noteq> []"
    and "fst (decode body) = Inr e" "e \<noteq> []" "floats_ok (PDict e)"
  shows "\<exists>before n body' e'. attempts_before (rm_body m) = Inr before
    \<and> 1 \<le> n \<and> n \<le> length tiers \<and> (int n = before + 1 \<or> n = length tiers \<and> int n \<le> before)
    \<and> topic = retry_topic (rm_queue m) n
    \<and> utf8_encode body' = Some (kr_value copy) \<and> fst (decode body') = Inr e'
    \<and> runtime_attempts e' = Inr (before + 1) \<and> (\<forall>k. k \<noteq> u ''attempts'' \<longrightarrow> dget e' k = dget e k)
    \<and> map_of (kr_headers copy) (u ''bq-attempts'') = Some (int_str (before + 1))
    \<and> map_of (kr_headers copy) DELAY_HEADER = Some (int_str (tiers ! (n - 1)))
    \<and> map_of (kr_headers copy) ORIGINAL_TOPIC_HEADER = utf8_encode (rm_queue m)
    \<and> kr_key copy = rm_key m"
proof -
  from assms(1) obtain before body' rec hs where before: "attempts_before (rm_body m) = Inr before"
      and body': "with_attempts body (before + 1) = Inr body'"
      and tier: "tier_record (rm_queue m) body' (nat (min before (int (length tiers) - 1) + 1))
         (tiers ! nat (min before (int (length tiers) - 1) + 1 - 1)) (Some (before + 1)) = Inr (topic, rec)"
      and hs: "with_extra_headers (kr_headers rec)
         (filter (\<lambda>(k, v). k \<in> set TRACE_CONTEXT_HEADER_KEYS) (rm_headers m)) = Inr hs"
      and copy: "copy = rec\<lparr>kr_headers := hs, kr_key := rm_key m\<rparr>"
    by (auto simp: redelivered_record_def bind_res_Inr Let_def split: prod.splits)
  define n where "n = nat (min before (int (length tiers) - 1) + 1)"
  have b: "0 \<le> before" using attempts_before_nonneg [OF before] .
  have len: "1 \<le> length tiers" using assms(2) by (simp add: Suc_leI)
  have n: "1 \<le> n" "n \<le> length tiers" "int n = before + 1 \<or> n = length tiers \<and> int n \<le> before"
    using b len by (auto simp: n_def min_def)
  have idx: "nat (min before (int (length tiers) - 1)) = n - Suc 0"
    using b len by (simp add: n_def min_def nat_add_distrib)
  note t = tier_record_headers [OF tier]
  have keep: "map_of hs k = map_of (kr_headers rec) k"
    if "k \<in> {u ''bq-attempts'', DELAY_HEADER, ORIGINAL_TOPIC_HEADER}" for k
    using map_of_extra [OF _ hs] t(5) that by blast
  from with_attempts_body [OF body' assms(3-5)] obtain e' where
      "fst (decode body') = Inr e'" "runtime_attempts e' = Inr (before + 1)"
      "\<forall>k. k \<noteq> u ''attempts'' \<longrightarrow> dget e' k = dget e k"
    by blast
  with before n t keep tier_record_value [OF tier] show ?thesis
    by (intro exI [of _ before] exI [of _ n] exI [of _ body'] exI [of _ e'])
       (simp add: copy n_def [symmetric] idx)
qed

text \<open>
  A settle write gives the record's own bytes back. Whatever bytes a consumed value held, valid
  UTF-8 or not, writing its text on the settle path writes exactly those bytes, so a restored record is
  the record that was read.
\<close>

theorem settle_write_restores_bytes:
  assumes "\<forall>b \<in> set bs. b < 256" "km_value m = RawBytes bs"
    and "record_kwargs True (payload m) = Inr r"
  shows "kr_value r = bs"
  using record_value [OF assms(1)] assms(2,3) by (simp add: payload_def)

definition surrogate_body :: pystr where
  "surrogate_body = u ''{\"job\":\"urn:'' @ [92] @ u ''ud800\"}''"



section \<open>Witnesses\<close>

definition first_delivery :: received_message where
  "first_delivery =
     \<lparr>rm_body = u ''{\"job\":\"urn:a\",\"attempts\":0}'', rm_queue = u ''q'', rm_handle = 1, rm_headers = [],
      rm_route = Route [], rm_key = Some [7], rm_native_attempts = 0\<rparr>"

definition retried_body :: pystr where
  "retried_body = u ''{\"job\":\"urn:a\",\"attempts\":1}''"

theorem redelivered_copy_witness:
  "\<exists>topic copy. redelivered_record [5000, 30000] first_delivery retried_body = Inr (topic, copy)
    \<and> topic = retry_topic (u ''q'') 1 \<and> map_of (kr_headers copy) (u ''bq-attempts'') = Some (int_str 1)
    \<and> map_of (kr_headers copy) DELAY_HEADER = Some (int_str 5000)"
proof -
  have "\<not> isl (redelivered_record [5000, 30000] first_delivery retried_body)" by code_simp
  then obtain topic copy where c: "redelivered_record [5000, 30000] first_delivery retried_body = Inr (topic, copy)"
    by (cases "redelivered_record [5000, 30000] first_delivery retried_body") auto
  have e: "fst (decode retried_body) = Inr [(u ''job'', PStr (u ''urn:a'')), (u ''attempts'', PInt 1)]" by code_simp
  have zero: "attempts_before (rm_body first_delivery) = Inr 0" by code_simp
  have "rm_queue first_delivery = u ''q''" by (simp add: first_delivery_def)
  with redelivered_copy [OF c _ e] zero obtain n where n: "1 \<le> n" "n \<le> length [5000, 30000 :: int]"
      "int n = 1 \<or> n = length [5000, 30000 :: int] \<and> int n \<le> 0"
      "topic = retry_topic (u ''q'') n" "map_of (kr_headers copy) (u ''bq-attempts'') = Some (int_str 1)"
      "map_of (kr_headers copy) DELAY_HEADER = Some (int_str ([5000, 30000] ! (n - 1)))"
    by auto
  from n(3) have "n = 1" by auto
  with c n show ?thesis by auto
qed

theorem settle_write_restores_bytes_witness:
  "\<exists>r. record_kwargs True (payload \<lparr>km_position = None, km_headers = [], km_value = RawBytes [123, 255], km_key = None\<rparr>) = Inr r
     \<and> kr_value r = [123, 255]"
proof -
  let ?m = "\<lparr>km_position = None, km_headers = [], km_value = RawBytes [123, 255], km_key = None\<rparr>"
  have "\<not> isl (record_kwargs True (payload ?m))" by code_simp
  then obtain r where r: "record_kwargs True (payload ?m) = Inr r"
    by (cases "record_kwargs True (payload ?m)") auto
  with settle_write_restores_bytes [of "[123, 255]" ?m r] show ?thesis by simp
qed

end
