(* ===== verification/KafkaRetry.thy ===== *)
theory KafkaRetry
  imports Kafka
begin

text \<open>
  \<open>kafka_retry.py\<close>: the consumer that moves a record from a retry topic back to its work topic once it is
  due. It holds the records of each partition in order, writes a due head, and commits only a record
  whose write the broker confirmed; a failed write gives the partition back at that record.
\<close>

section \<open>Records\<close>

text \<open>\<open>rr_timestamp\<close> is what \<open>message.timestamp()\<close> answers, \<open>None\<close> when it raises.\<close>

record retry_message =
  rr_position :: "(pystr \<times> int) \<times> int"
  rr_timestamp :: "(int \<times> int option) option"
  rr_headers :: kafka_headers
  rr_value :: raw_text
  rr_key :: "bytes option"

abbreviation rr_topic :: "retry_message \<Rightarrow> pystr" where
  "rr_topic m \<equiv> fst (fst (rr_position m))"

text \<open>The arguments of \<open>produce\<close>: value and key as they were read, headers as they were but for two.\<close>

record retry_write =
  rw_topic :: pystr
  rw_value :: raw_text
  rw_headers :: kafka_headers
  rw_key :: "bytes option"

definition reinject_headers :: "kafka_headers \<Rightarrow> kafka_headers" where
  "reinject_headers headers =
     filter (\<lambda>(k, v). header_text k \<notin> {Some DELAY_HEADER, Some ORIGINAL_TOPIC_HEADER}) headers"

definition target_time :: "int option \<Rightarrow> int \<Rightarrow> rat \<Rightarrow> rat" where
  "target_time record_ms tier_ms now_ms =
     (case record_ms of
        None \<Rightarrow> now_ms + of_int tier_ms
      | Some t \<Rightarrow> min (max (of_int t + of_int tier_ms) now_ms) (now_ms + of_int tier_ms))"

text \<open>
  \<open>^(?P<work>.+)\.retry\.(?P<n>[0-9]+)$\<close>: a dot matches no newline, and \<open>$\<close> also matches before a last
  newline.
\<close>

definition match_retry_topic :: "pystr \<Rightarrow> (pystr \<times> nat) option" where
  "match_retry_topic topic =
     (let t = (if topic \<noteq> [] \<and> last topic = 10 then butlast topic else topic);
          ds = rev (takeWhile is_digit (rev t));
          rest = take (length t - length ds) t;
          work = take (length rest - 7) rest
      in if ds \<noteq> [] \<and> 7 < length rest \<and> drop (length rest - 7) rest = u ''.retry.'' \<and> 10 \<notin> set work
         then Some (work, digits_val ds) else None)"

definition tier_ms_of :: "int list \<Rightarrow> pystr \<Rightarrow> int option" where
  "tier_ms_of tiers topic =
     (case match_retry_topic topic of
        None \<Rightarrow> None
      | Some (work, n) \<Rightarrow> if 1 \<le> n \<and> n \<le> length tiers then Some (tiers ! (n - 1)) else None)"

definition record_ms :: "retry_message \<Rightarrow> int option" where
  "record_ms m =
     (case rr_timestamp m of
        Some (kind, Some t) \<Rightarrow> if kind = 0 \<or> t < 0 then None else Some t
      | _ \<Rightarrow> None)"

text \<open>Where a record goes back to, and as what.\<close>

definition work_topic_of :: "retry_message \<Rightarrow> pystr" where
  "work_topic_of m =
     (case header_value (rr_headers m) ORIGINAL_TOPIC_HEADER of
        Some t \<Rightarrow>
          if t \<noteq> [] then t
          else (case match_retry_topic (rr_topic m) of None \<Rightarrow> rr_topic m | Some (work, n) \<Rightarrow> work)
      | None \<Rightarrow> (case match_retry_topic (rr_topic m) of None \<Rightarrow> rr_topic m | Some (work, n) \<Rightarrow> work))"

definition reinjected :: "retry_message \<Rightarrow> retry_write" where
  "reinjected m =
     \<lparr>rw_topic = work_topic_of m, rw_value = rr_value m, rw_headers = reinject_headers (rr_headers m),
      rw_key = rr_key m\<rparr>"

section \<open>State\<close>

text \<open>\<open>rc_flush_all\<close> and \<open>rc_close\<close> do nothing when there is no producer or no consumer yet.\<close>

record 'w retry_client =
  rc_subscribe :: "pystr list \<Rightarrow> ('w, unit) op"
  rc_poll :: "rat \<Rightarrow> ('w, retry_message option) op"
  rc_commit :: "retry_message \<Rightarrow> ('w, unit) op"
  rc_seek :: "pystr \<times> int \<Rightarrow> int \<Rightarrow> ('w, unit) op"
  rc_pause :: "pystr \<times> int \<Rightarrow> ('w, unit) op"
  rc_resume :: "pystr \<times> int \<Rightarrow> ('w, unit) op"
  rc_produce :: "retry_write \<Rightarrow> ('w, nat) op"
  rc_flush :: "rat \<Rightarrow> ('w, unit) op"
  rc_flush_all :: "('w, unit) op"
  rc_close :: "('w, unit) op"
  rc_report :: "'w \<Rightarrow> nat \<Rightarrow> pystr option option"
  rc_clock :: "'w \<Rightarrow> rat"
  rc_tiers :: "int list"
  rc_work_topics :: "pystr list"
  rc_poll_interval :: rat
  rc_delivery_timeout :: rat

text \<open>
  The records each partition holds, oldest first, with the time each is due. \<open>rj_written\<close> is history:
  the records whose write was confirmed, in order.
\<close>

type_synonym waiting = "((pystr \<times> int) \<times> (retry_message \<times> rat) list) list"

record 'w reinjector =
  rj_world :: 'w
  rj_subscribed :: bool
  rj_waiting :: waiting
  rj_written :: "retry_message list"

definition tier_topics :: "int list \<Rightarrow> pystr list \<Rightarrow> pystr list" where
  "tier_topics tiers work_topics = concat (map (\<lambda>w. map (retry_topic w) [1..<length tiers + 1]) work_topics)"

definition init_topics :: "pyval list option \<Rightarrow> pystr list \<Rightarrow> (int list \<times> pystr list) res" where
  "init_topics retry_tiers_ms work_topics =
     bind_res (validated_tiers retry_tiers_ms) (\<lambda>tiers.
       if tiers = [] then Inl (Exc BabelQueueError (u ''RetryReinjector needs retry_tiers_ms.''))
       else if work_topics = [] then Inl (Exc BabelQueueError (u ''RetryReinjector needs at least one work topic.''))
       else Inr (tiers, tier_topics tiers work_topics))"

definition rj_client :: "('w, 'a) op \<Rightarrow> ('w reinjector, 'a) op" where
  "rj_client f = (\<lambda>s. case f (rj_world s) of (r, w) \<Rightarrow> (r, s\<lparr>rj_world := w\<rparr>))"

definition ignoring :: "('s, unit) op \<Rightarrow> ('s, unit) op" where
  "ignoring f = catch_exc f (\<lambda>e. ret ())"

text \<open>\<open>_consumer_\<close>: the consumer subscribes to the retry topics once, when it is first needed.\<close>

definition subscribe_once :: "'w retry_client \<Rightarrow> ('w reinjector, unit) op" where
  "subscribe_once C =
     (\<lambda>s. if rj_subscribed s then ret () s
          else then_op (rj_client (rc_subscribe C (tier_topics (rc_tiers C) (rc_work_topics C))))
                 (modify (\<lambda>s. s\<lparr>rj_subscribed := True\<rparr>)) s)"

section \<open>Holding and writing\<close>

definition held_in :: "waiting \<Rightarrow> pystr \<times> int \<Rightarrow> (retry_message \<times> rat) list" where
  "held_in ws tp = (case map_of ws tp of None \<Rightarrow> [] | Some held \<Rightarrow> held)"

definition accept_record :: "'w retry_client \<Rightarrow> retry_message \<Rightarrow> ('w reinjector, unit) op" where
  "accept_record C m =
     (case tier_ms_of (rc_tiers C) (rr_topic m) of
        None \<Rightarrow> rj_client (rc_commit C m)
      | Some tier_ms \<Rightarrow>
          (\<lambda>s. let tp = fst (rr_position m);
                   due = target_time (record_ms m) tier_ms (rc_clock C (rj_world s) * 1000)
               in then_op (modify (\<lambda>s. s\<lparr>rj_waiting := AList.update tp (held_in (rj_waiting s) tp @ [(m, due)]) (rj_waiting s)\<rparr>))
                    (ignoring (rj_client (rc_pause C tp))) s))"

definition reinject :: "'w retry_client \<Rightarrow> retry_message \<Rightarrow> ('w reinjector, unit) op" where
  "reinject C m =
     bind_op (rj_client (rc_produce C (reinjected m))) (\<lambda>ticket.
     then_op (rj_client (rc_flush C (rc_delivery_timeout C)))
       (\<lambda>s. case rc_report C (rj_world s) ticket of
              None \<Rightarrow> (Inl (Exc KafkaDeliveryError (u ''Kafka delivery was not confirmed'')), s)
            | Some (Some err) \<Rightarrow> (Inl (Exc KafkaDeliveryError (u ''Kafka delivery failed: '' @ err)), s)
            | Some None \<Rightarrow> (Inr (), s\<lparr>rj_written := rj_written s @ [m]\<rparr>)))"

text \<open>\<open>try: seek finally: resume\<close>; what \<open>resume\<close> raises is ignored when it is an \<open>Exception\<close>.\<close>

definition rewind_record :: "'w retry_client \<Rightarrow> retry_message \<Rightarrow> ('w reinjector, unit) op" where
  "rewind_record C m =
     (\<lambda>s. case rj_client (rc_seek C (fst (rr_position m)) (snd (rr_position m))) s of
            (r, s1) \<Rightarrow>
              (case ignoring (rj_client (rc_resume C (fst (rr_position m)))) s1 of
                 (Inl e, s2) \<Rightarrow> (Inl e, s2)
               | (Inr x, s2) \<Rightarrow> (r, s2)))"

text \<open>
  The loop over the records a partition holds: the books are kept current, so that whatever a call
  raises finds them as the source leaves them. The result is whether the partition was rewound and how
  many records were written.
\<close>

definition set_held :: "pystr \<times> int \<Rightarrow> (retry_message \<times> rat) list \<Rightarrow> 'w reinjector \<Rightarrow> 'w reinjector" where
  "set_held tp held s = s\<lparr>rj_waiting := AList.update tp held (rj_waiting s)\<rparr>"

fun release_held ::
  "'w retry_client \<Rightarrow> pystr \<times> int \<Rightarrow> rat \<Rightarrow> nat \<Rightarrow> (retry_message \<times> rat) list \<Rightarrow> ('w reinjector, bool \<times> nat) op" where
  "release_held C tp now_ms written [] = ret (False, written)"
| "release_held C tp now_ms written ((m, due) # held) =
     (if now_ms < due then ret (False, written)
      else (\<lambda>s. case reinject C m s of
              (Inl e, s1) \<Rightarrow>
                if is_Exception e
                then bind_op (rewind_record C m) (\<lambda>x. then_op (modify (set_held tp [])) (ret (True, written))) s1
                else (Inl e, s1)
            | (Inr x, s1) \<Rightarrow>
                bind_op (rj_client (rc_commit C m)) (\<lambda>x.
                  then_op (modify (set_held tp held)) (release_held C tp now_ms (Suc written) held)) s1))"

fun release_each ::
  "'w retry_client \<Rightarrow> rat \<Rightarrow> nat \<Rightarrow> (pystr \<times> int) list \<Rightarrow> ('w reinjector, nat) op" where
  "release_each C now_ms written [] = ret written"
| "release_each C now_ms written (tp # tps) =
     bind_op (\<lambda>s. release_held C tp now_ms written (held_in (rj_waiting s) tp) s) (\<lambda>(rewound, written').
       then_op
         (\<lambda>s. if held_in (rj_waiting s) tp = []
              then then_op (modify (\<lambda>s. s\<lparr>rj_waiting := AList.delete tp (rj_waiting s)\<rparr>))
                     (if rewound then ret () else ignoring (rj_client (rc_resume C tp))) s
              else ret () s)
         (release_each C now_ms written' tps))"

definition release_due :: "'w retry_client \<Rightarrow> ('w reinjector, nat) op" where
  "release_due C = (\<lambda>s. release_each C (rc_clock C (rj_world s) * 1000) 0 (map fst (rj_waiting s)) s)"

text \<open>One step: poll, never past the next due record, hold what came, and write what is due.\<close>

definition poll_wait :: "'w retry_client \<Rightarrow> rat option \<Rightarrow> 'w reinjector \<Rightarrow> rat" where
  "poll_wait C timeout s =
     (let wait = (case timeout of None \<Rightarrow> rc_poll_interval C | Some t \<Rightarrow> t);
          heads = List.map_filter (\<lambda>(tp, held). case held of [] \<Rightarrow> None | (m, due) # rest \<Rightarrow> Some due) (rj_waiting s)
      in if heads = [] then wait
         else max 0 (min wait (foldr min (tl heads) (hd heads) / 1000 - rc_clock C (rj_world s))))"

definition run_once :: "'w retry_client \<Rightarrow> rat option \<Rightarrow> ('w reinjector, nat) op" where
  "run_once C timeout =
     then_op (subscribe_once C)
     (bind_op (\<lambda>s. rj_client (rc_poll C (poll_wait C timeout s)) s) (\<lambda>message.
       then_op (case message of None \<Rightarrow> ret () | Some m \<Rightarrow> accept_record C m) (release_due C)))"

text \<open>Any sequence of steps a caller makes, each with its timeout, whatever they raise.\<close>

fun run_calls :: "'w retry_client \<Rightarrow> rat option list \<Rightarrow> 'w reinjector \<Rightarrow> 'w reinjector" where
  "run_calls C [] s = s"
| "run_calls C (t # ts) s = run_calls C ts (snd (run_once C t s))"

text \<open>
  \<open>run\<close>, with the number of steps begun before \<open>stop\<close> is seen: the first step that raises ends it, and the
  clients are closed in any case.
\<close>

fun run_steps :: "'w retry_client \<Rightarrow> nat \<Rightarrow> ('w reinjector, unit) op" where
  "run_steps C 0 = ret ()"
| "run_steps C (Suc n) = then_op (run_once C None) (run_steps C n)"

definition close_clients :: "'w retry_client \<Rightarrow> ('w reinjector, unit) op" where
  "close_clients C =
     then_op (ignoring (rj_client (rc_flush_all C))) (ignoring (rj_client (rc_close C)))"

definition run_reinjector :: "'w retry_client \<Rightarrow> nat \<Rightarrow> ('w reinjector, unit) op" where
  "run_reinjector C n =
     (\<lambda>s. case run_steps C n s of
            (r, s1) \<Rightarrow> (case close_clients C s1 of (Inl e, s2) \<Rightarrow> (Inl e, s2) | (Inr x, s2) \<Rightarrow> (r, s2)))"

text \<open>The loop is a prefix of the calls it could have made.\<close>

lemma run_steps_calls: "\<exists>k \<le> n. snd (run_steps C n s) = run_calls C (replicate k None) s"
proof (induction n arbitrary: s)
  case (Suc n)
  obtain r s1 where r: "run_once C None s = (r, s1)" by force
  show ?case
  proof (cases r)
    case (Inl e)
    with r have "snd (run_steps C (Suc n) s) = run_calls C (replicate 1 None) s"
      by (simp add: then_op_def bind_op_def)
    then show ?thesis by (intro exI [of _ 1]) simp
  next
    case (Inr x)
    from Suc.IH [of s1] obtain k where "k \<le> n" "snd (run_steps C n s1) = run_calls C (replicate k None) s1" by blast
    with r Inr show ?thesis by (intro exI [of _ "Suc k"]) (simp add: then_op_def bind_op_def)
  qed
qed (simp add: ret_def)

end
