(* ===== verification/KafkaRetryOrder.thy ===== *)
theory KafkaRetryOrder
  imports KafkaRetry
begin

text \<open>
  The re-inject consumer commits only what it has written, and writes each partition in order, whatever
  the client library answers within its documentation.
\<close>

section \<open>What the client library promises\<close>

text \<open>
  As for the transport's consumer, and a poll only hands out records of the subscribed retry topics.
\<close>

definition subscribed :: "'w retry_client \<Rightarrow> pystr \<Rightarrow> bool" where
  "subscribed C topic \<longleftrightarrow>
     (\<exists>work \<in> set (rc_work_topics C). \<exists>n \<in> {1..length (rc_tiers C)}.
        work \<noteq> [] \<and> 10 \<notin> set work \<and> topic = retry_topic work n)"

definition next_retry :: "'w retry_client \<Rightarrow> (pystr \<times> int \<Rightarrow> int set) \<Rightarrow> offsets \<Rightarrow> retry_message \<Rightarrow> offsets \<Rightarrow> bool" where
  "next_retry C recs p m p' \<longleftrightarrow>
     (case rr_position m of
        (tp, off) \<Rightarrow> p tp \<le> off \<and> (\<forall>x \<in> recs tp. p tp \<le> x \<longrightarrow> off \<le> x) \<and> p' = p(tp := off + 1))
     \<and> subscribed C (rr_topic m)"

definition retry_laws :: "'w retry_client \<Rightarrow> ('w \<Rightarrow> offsets) \<Rightarrow> ('w \<Rightarrow> offsets) \<Rightarrow> (pystr \<times> int \<Rightarrow> int set) \<Rightarrow> bool" where
  "retry_laws C pos com recs \<longleftrightarrow>
     (\<forall>t w r w'. rc_poll C t w = (r, w') \<longrightarrow> com w' = com w \<and>
        (\<exists>p. rebalanced (com w) (pos w) p \<and>
           (case r of Inr (Some m) \<Rightarrow> next_retry C recs p m (pos w') | _ \<Rightarrow> pos w' = p)))
   \<and> (\<forall>m w r w'. rc_commit C m w = (r, w') \<longrightarrow>
        pos w' = pos w \<and>
        (com w' = (com w)(fst (rr_position m) := snd (rr_position m) + 1) \<or> isl r \<and> com w' = com w))
   \<and> (\<forall>tp off w r w'. rc_seek C tp off w = (r, w') \<longrightarrow>
        com w' = com w \<and> pos w' = (pos w)(tp := (if isl r then com w tp else off)))
   \<and> (\<forall>tp. keeps_offsets pos com (rc_pause C tp)) \<and> (\<forall>tp. keeps_offsets pos com (rc_resume C tp))
   \<and> (\<forall>x. keeps_offsets pos com (rc_produce C x)) \<and> (\<forall>t. keeps_offsets pos com (rc_flush C t))
   \<and> (\<forall>x. keeps_offsets pos com (rc_subscribe C x))
   \<and> keeps_offsets pos com (rc_flush_all C) \<and> keeps_offsets pos com (rc_close C)"

section \<open>The invariant\<close>

definition written_offsets :: "retry_message list \<Rightarrow> pystr \<times> int \<Rightarrow> int set" where
  "written_offsets ms tp = {x. (tp, x) \<in> rr_position ` set ms}"

text \<open>Every record below a held one is written or held before it.\<close>

fun chain :: "int set \<Rightarrow> pystr \<times> int \<Rightarrow> int set \<Rightarrow> (retry_message \<times> rat) list \<Rightarrow> bool" where
  "chain R tp W [] = True"
| "chain R tp W ((m, due) # held) =
     (fst (rr_position m) = tp \<and> (\<forall>x \<in> R. x < snd (rr_position m) \<longrightarrow> x \<in> W)
      \<and> chain R tp (insert (snd (rr_position m)) W) held)"

definition held_offsets :: "(retry_message \<times> rat) list \<Rightarrow> int set" where
  "held_offsets held = (\<lambda>(m, due). snd (rr_position m)) ` set held"

definition in_offset_order :: "(pystr \<times> int \<Rightarrow> int set) \<Rightarrow> retry_message list \<Rightarrow> bool" where
  "in_offset_order recs ms \<longleftrightarrow>
     (\<forall>before m after. ms = before @ m # after \<longrightarrow>
        (\<forall>x \<in> recs (fst (rr_position m)). x < snd (rr_position m) \<longrightarrow>
           x \<in> written_offsets before (fst (rr_position m))))"

definition retry_ok ::
  "('w \<Rightarrow> offsets) \<Rightarrow> ('w \<Rightarrow> offsets) \<Rightarrow> (pystr \<times> int \<Rightarrow> int set) \<Rightarrow> 'w reinjector \<Rightarrow> bool" where
  "retry_ok pos com recs s \<longleftrightarrow>
     in_offset_order recs (rj_written s)
   \<and> (\<forall>tp. chain (recs tp) tp (written_offsets (rj_written s) tp) (held_in (rj_waiting s) tp)
        \<and> (\<forall>x \<in> recs tp. x < pos (rj_world s) tp \<longrightarrow>
             x \<in> written_offsets (rj_written s) tp \<union> held_offsets (held_in (rj_waiting s) tp))
        \<and> (\<forall>x \<in> recs tp. x < com (rj_world s) tp \<longrightarrow> x \<in> written_offsets (rj_written s) tp))"

lemma chain_mono: "chain R tp W held \<Longrightarrow> W \<subseteq> W' \<Longrightarrow> chain R tp W' held"
proof (induction held arbitrary: W W')
  case (Cons md held)
  obtain m due where md: "md = (m, due)" by force
  have "insert (snd (rr_position m)) W \<subseteq> insert (snd (rr_position m)) W'" using Cons.prems(2) by blast
  with Cons.IH Cons.prems md show ?case by auto
qed simp

lemma chain_snoc:
  "chain R tp W held \<Longrightarrow> fst (rr_position m) = tp \<Longrightarrow>
     (\<And>x. x \<in> R \<Longrightarrow> x < snd (rr_position m) \<Longrightarrow> x \<in> W \<union> held_offsets held) \<Longrightarrow>
     chain R tp W (held @ [(m, due)])"
  by (induction held arbitrary: W) (auto simp: held_offsets_def)

lemma held_offsets_simps [simp]:
  "held_offsets [] = {}" "held_offsets ((m, due) # held) = insert (snd (rr_position m)) (held_offsets held)"
  "held_offsets (held @ held') = held_offsets held \<union> held_offsets held'"
  by (auto simp: held_offsets_def)

lemma written_snoc [simp]:
  "written_offsets (ms @ [m]) tp =
     (if fst (rr_position m) = tp then insert (snd (rr_position m)) (written_offsets ms tp) else written_offsets ms tp)"
  by (cases "rr_position m") (auto simp: written_offsets_def)

lemma in_offset_order_snoc:
  assumes "in_offset_order recs ms"
    and "\<And>x. x \<in> recs (fst (rr_position m)) \<Longrightarrow> x < snd (rr_position m) \<Longrightarrow> x \<in> written_offsets ms (fst (rr_position m))"
  shows "in_offset_order recs (ms @ [m])"
  unfolding in_offset_order_def
proof (intro allI impI ballI)
  fix before k after x
  assume eq: "ms @ [m] = before @ k # after"
    and x: "x \<in> recs (fst (rr_position k))" "x < snd (rr_position k)"
  show "x \<in> written_offsets before (fst (rr_position k))"
  proof (cases after rule: rev_cases)
    case Nil
    with eq have "before = ms" "k = m" by auto
    with assms(2) x show ?thesis by simp
  next
    case (snoc rest y)
    with eq have "ms = before @ k # rest" by simp
    with assms(1) x show ?thesis unfolding in_offset_order_def by blast
  qed
qed

lemma held_in_update [simp]: "held_in (AList.update tp held ws) tp' = (if tp' = tp then held else held_in ws tp')"
  by (simp add: held_in_def update_conv')

lemma held_in_delete: "held_in ws tp = [] \<Longrightarrow> held_in (AList.delete tp ws) tp' = held_in ws tp'"
  by (simp add: held_in_def AList.delete_conv' split: option.splits)

lemma retry_okD:
  assumes "retry_ok pos com recs s"
  shows "in_offset_order recs (rj_written s)"
    "chain (recs tp) tp (written_offsets (rj_written s) tp) (held_in (rj_waiting s) tp)"
    "x \<in> recs tp \<Longrightarrow> x < pos (rj_world s) tp \<Longrightarrow>
       x \<in> written_offsets (rj_written s) tp \<union> held_offsets (held_in (rj_waiting s) tp)"
    "x \<in> recs tp \<Longrightarrow> x < com (rj_world s) tp \<Longrightarrow> x \<in> written_offsets (rj_written s) tp"
  using assms unfolding retry_ok_def by blast+

lemma retry_okI:
  assumes "in_offset_order recs (rj_written s)"
    "\<And>tp. chain (recs tp) tp (written_offsets (rj_written s) tp) (held_in (rj_waiting s) tp)"
    "\<And>tp x. x \<in> recs tp \<Longrightarrow> x < pos (rj_world s) tp \<Longrightarrow>
       x \<in> written_offsets (rj_written s) tp \<union> held_offsets (held_in (rj_waiting s) tp)"
    "\<And>tp x. x \<in> recs tp \<Longrightarrow> x < com (rj_world s) tp \<Longrightarrow> x \<in> written_offsets (rj_written s) tp"
  shows "retry_ok pos com recs s"
  using assms unfolding retry_ok_def by blast

lemma retry_ok_cong:
  assumes "retry_ok pos com recs s" "pos (rj_world s') = pos (rj_world s)" "com (rj_world s') = com (rj_world s)"
    and "rj_written s' = rj_written s" "\<And>tp. held_in (rj_waiting s') tp = held_in (rj_waiting s) tp"
  shows "retry_ok pos com recs s'"
  using assms unfolding retry_ok_def by simp

lemma retry_ok_keeps:
  assumes "keeps_offsets pos com f" "retry_ok pos com recs s"
  shows "retry_ok pos com recs (snd (rj_client f s))"
    and "rj_waiting (snd (rj_client f s)) = rj_waiting s" "rj_written (snd (rj_client f s)) = rj_written s"
proof -
  obtain r w where f: "f (rj_world s) = (r, w)" by force
  with assms(1) have "pos w = pos (rj_world s)" "com w = com (rj_world s)"
    unfolding keeps_offsets_def by (metis snd_conv)+
  with f show "retry_ok pos com recs (snd (rj_client f s))"
    by (intro retry_ok_cong [OF assms(2)]) (simp_all add: rj_client_def)
  from f show "rj_waiting (snd (rj_client f s)) = rj_waiting s" "rj_written (snd (rj_client f s)) = rj_written s"
    by (simp_all add: rj_client_def)
qed

lemma ignoring_snd: "snd (ignoring f s) = snd (f s)"
  by (auto simp: ignoring_def catch_exc_def ret_def split: prod.split sum.split)


section \<open>Topics\<close>

lemma takeWhile_digits:
  assumes "\<forall>c \<in> set ds. is_digit c" "\<not> is_digit d"
  shows "takeWhile is_digit (rev ds @ d # r) = rev ds"
  using assms by (subst takeWhile_append2) auto

text \<open>A retry topic is read back as the work topic and the tier it was made of.\<close>

lemma match_retry_topic_of:
  assumes "work \<noteq> []" "10 \<notin> set work"
  shows "match_retry_topic (retry_topic work n) = Some (work, n)"
proof -
  let ?t = "work @ u ''.retry.'' @ nat_str n"
  have ds: "\<forall>c \<in> set (nat_str n). is_digit c" by (rule nat_str_digits)
  then have "is_digit (last (nat_str n))" by simp
  then have "last (nat_str n) \<noteq> 10" by (auto simp: is_digit_def)
  then have no_newline: "last ?t \<noteq> 10" by simp
  have "rev ?t = rev (nat_str n) @ 46 # rev (work @ u ''.retry'')"
    by (simp add: u_def)
  then have "takeWhile is_digit (rev ?t) = rev (nat_str n)"
    using takeWhile_digits [OF ds, of 46] by (simp add: is_digit_def)
  moreover have "take (length ?t - length (nat_str n)) ?t = work @ u ''.retry.''" by simp
  moreover have "length (u ''.retry.'') = 7" by simp
  ultimately show ?thesis
    using no_newline assms by (simp add: match_retry_topic_def retry_topic_def)
qed

lemma subscribed_tier: "subscribed C topic \<Longrightarrow> \<exists>t. tier_ms_of (rc_tiers C) topic = Some t"
  by (auto simp: subscribed_def tier_ms_of_def match_retry_topic_of)

section \<open>Steps\<close>

lemma lawsD:
  assumes "retry_laws C pos com recs"
  shows "keeps_offsets pos com (rc_pause C tp)" "keeps_offsets pos com (rc_resume C tp)"
    "keeps_offsets pos com (rc_produce C x)" "keeps_offsets pos com (rc_flush C t)"
  using assms unfolding retry_laws_def by blast+

lemma accept_ok:
  assumes laws: "retry_laws C pos com recs" and ok: "retry_ok pos com recs s"
    and reb: "rebalanced (com (rj_world s)) (pos (rj_world s)) p" and m: "next_retry C recs p m (pos w)"
    and w: "com w = com (rj_world s)"
  shows "retry_ok pos com recs (snd (accept_record C m (s\<lparr>rj_world := w\<rparr>)))"
proof -
  obtain tp off where p: "rr_position m = (tp, off)" using prod.exhaust by blast
  with m have at: "p tp \<le> off" "\<forall>x \<in> recs tp. p tp \<le> x \<longrightarrow> off \<le> x" "pos w = p(tp := off + 1)"
      and "subscribed C (rr_topic m)"
    by (auto simp: next_retry_def)
  then obtain t where t: "tier_ms_of (rc_tiers C) (rr_topic m) = Some t" using subscribed_tier by blast
  define due where "due = target_time (record_ms m) t (rc_clock C w * 1000)"
  define s1 where "s1 = s\<lparr>rj_world := w,
      rj_waiting := AList.update tp (held_in (rj_waiting s) tp @ [(m, due)]) (rj_waiting s)\<rparr>"
  let ?W = "written_offsets (rj_written s)" and ?H = "\<lambda>tp. held_offsets (held_in (rj_waiting s) tp)"
  have known: "x \<in> ?W tp' \<union> ?H tp'" if "x \<in> recs tp'" "x < p tp'" for x tp'
    using that reb retry_okD(3,4) [OF ok, of x tp'] unfolding rebalanced_def by (metis UnI1)
  have below: "x \<in> ?W tp \<union> ?H tp" if "x \<in> recs tp" "x < off" for x
    using that at(2) known [of x tp] by force
  have "retry_ok pos com recs s1"
  proof (rule retry_okI)
    show "in_offset_order recs (rj_written s1)" using retry_okD(1) [OF ok] by (simp add: s1_def)
    show "chain (recs tp') tp' (written_offsets (rj_written s1) tp') (held_in (rj_waiting s1) tp')" for tp'
      using retry_okD(2) [OF ok, of tp'] below chain_snoc [OF retry_okD(2) [OF ok, of tp], of m due] p
      by (auto simp: s1_def)
    show "x \<in> written_offsets (rj_written s1) tp' \<union> held_offsets (held_in (rj_waiting s1) tp')"
      if "x \<in> recs tp'" "x < pos (rj_world s1) tp'" for tp' x
      using that known [of x tp'] below [of x] p at(3) by (cases "x = off") (auto simp: s1_def split: if_splits)
    show "x \<in> written_offsets (rj_written s1) tp'" if "x \<in> recs tp'" "x < com (rj_world s1) tp'" for tp' x
      using that retry_okD(4) [OF ok, of x tp'] w by (simp add: s1_def)
  qed
  moreover have "accept_record C m (s\<lparr>rj_world := w\<rparr>) = ignoring (rj_client (rc_pause C tp)) s1"
    using t p by (simp add: accept_record_def s1_def due_def then_op_def bind_op_def modify_def Let_def)
  ultimately show ?thesis
    using retry_ok_keeps(1) [OF lawsD(1) [OF laws, of tp]] by (simp add: ignoring_snd)
qed

lemma reinject_state:
  assumes laws: "retry_laws C pos com recs" and r: "reinject C m s = (r, s1)"
  shows "rj_waiting s1 = rj_waiting s" "pos (rj_world s1) = pos (rj_world s)" "com (rj_world s1) = com (rj_world s)"
    "rj_written s1 = (if isl r then rj_written s else rj_written s @ [m])"
proof -
  obtain r1 w1 where p: "rc_produce C (reinjected m) (rj_world s) = (r1, w1)" by force
  obtain r2 w2 where f: "rc_flush C (rc_delivery_timeout C) w1 = (r2, w2)" by force
  have "pos w1 = pos (rj_world s)" "com w1 = com (rj_world s)" "pos w2 = pos w1" "com w2 = com w1"
    using lawsD(3) [OF laws, of "reinjected m"] lawsD(4) [OF laws, of "rc_delivery_timeout C"] p f
    unfolding keeps_offsets_def by (metis snd_conv)+
  with r p f show "rj_waiting s1 = rj_waiting s" "pos (rj_world s1) = pos (rj_world s)"
      "com (rj_world s1) = com (rj_world s)" "rj_written s1 = (if isl r then rj_written s else rj_written s @ [m])"
    by (auto simp: reinject_def bind_op_def then_op_def rj_client_def split: sum.splits option.splits)
qed

text \<open>Writing the head of a partition keeps everything, whether or not its commit follows.\<close>

lemma write_head_ok:
  assumes laws: "retry_laws C pos com recs" and ok: "retry_ok pos com recs s"
    and h: "held_in (rj_waiting s) tp = (m, due) # held" and r: "reinject C m s = (Inr x, s1)"
  shows "retry_ok pos com recs s1"
proof -
  note st = reinject_state [OF laws r, simplified]
  from retry_okD(2) [OF ok, of tp] h have tp: "fst (rr_position m) = tp"
      and below: "\<forall>x \<in> recs tp. x < snd (rr_position m) \<longrightarrow> x \<in> written_offsets (rj_written s) tp"
    by auto
  have sub: "written_offsets (rj_written s) tp' \<subseteq> written_offsets (rj_written s1) tp'" for tp'
    by (auto simp: st)
  show ?thesis
  proof (rule retry_okI)
    show "in_offset_order recs (rj_written s1)"
      unfolding st using retry_okD(1) [OF ok] below tp by (intro in_offset_order_snoc) auto
    show "chain (recs tp') tp' (written_offsets (rj_written s1) tp') (held_in (rj_waiting s1) tp')" for tp'
      using chain_mono [OF retry_okD(2) [OF ok] sub] by (simp add: st(1))
    show "x \<in> written_offsets (rj_written s1) tp' \<union> held_offsets (held_in (rj_waiting s1) tp')"
      if "x \<in> recs tp'" "x < pos (rj_world s1) tp'" for tp' x
      using that retry_okD(3) [OF ok, of x tp'] sub [of tp'] by (auto simp: st(1,2))
    show "x \<in> written_offsets (rj_written s1) tp'" if "x \<in> recs tp'" "x < com (rj_world s1) tp'" for tp' x
      using that retry_okD(4) [OF ok, of x tp'] sub [of tp'] by (auto simp: st(3))
  qed
qed

lemma commit_head_ok:
  assumes laws: "retry_laws C pos com recs" and ok: "retry_ok pos com recs s"
    and h: "held_in (rj_waiting s) tp = (m, due) # held"
    and wr: "snd (rr_position m) \<in> written_offsets (rj_written s) tp"
    and c: "rj_client (rc_commit C m) s = (r, s1)"
  shows "retry_ok pos com recs s1" "retry_ok pos com recs (set_held tp held s1)" "rj_waiting s1 = rj_waiting s"
proof -
  from retry_okD(2) [OF ok, of tp] h have tp: "fst (rr_position m) = tp"
      and below: "\<forall>x \<in> recs tp. x < snd (rr_position m) \<longrightarrow> x \<in> written_offsets (rj_written s) tp"
      and rest: "chain (recs tp) tp (insert (snd (rr_position m)) (written_offsets (rj_written s) tp)) held"
    by auto
  obtain w where w: "rc_commit C m (rj_world s) = (r, w)" and s1: "s1 = s\<lparr>rj_world := w\<rparr>"
    using c by (cases "rc_commit C m (rj_world s)") (auto simp: rj_client_def)
  from laws w have pos: "pos w = pos (rj_world s)"
      and com: "com w = (com (rj_world s))(tp := snd (rr_position m) + 1) \<or> com w = com (rj_world s)"
    unfolding retry_laws_def using tp by blast+
  have com_ok: "x \<in> written_offsets (rj_written s) tp'" if x: "x \<in> recs tp'" "x < com w tp'" for x tp'
  proof (cases "tp' = tp \<and> com w \<noteq> com (rj_world s)")
    case True
    with com x have "x < snd (rr_position m) + 1" by auto
    with True x(1) below wr show ?thesis by (cases "x = snd (rr_position m)") auto
  next
    case False
    with com have "com w tp' = com (rj_world s) tp'" by (metis fun_upd_apply)
    with x retry_okD(4) [OF ok, of x tp'] show ?thesis by simp
  qed
  show "retry_ok pos com recs s1"
    by (rule retry_okI) (use retry_okD [OF ok] com_ok pos in \<open>simp_all add: s1\<close>)
  show "rj_waiting s1 = rj_waiting s" by (simp add: s1)
  show "retry_ok pos com recs (set_held tp held s1)"
  proof (rule retry_okI)
    show "in_offset_order recs (rj_written (set_held tp held s1))"
      using retry_okD(1) [OF ok] by (simp add: set_held_def s1)
    show "chain (recs tp') tp' (written_offsets (rj_written (set_held tp held s1)) tp')
        (held_in (rj_waiting (set_held tp held s1)) tp')" for tp'
      using retry_okD(2) [OF ok, of tp'] rest wr by (auto simp: set_held_def s1 insert_absorb)
    show "x \<in> written_offsets (rj_written (set_held tp held s1)) tp' \<union>
        held_offsets (held_in (rj_waiting (set_held tp held s1)) tp')"
      if "x \<in> recs tp'" "x < pos (rj_world (set_held tp held s1)) tp'" for tp' x
      using that retry_okD(3) [OF ok, of x tp'] h wr pos by (auto simp: set_held_def s1 split: if_splits)
    show "x \<in> written_offsets (rj_written (set_held tp held s1)) tp'"
      if "x \<in> recs tp'" "x < com (rj_world (set_held tp held s1)) tp'" for tp' x
      using that com_ok by (simp add: set_held_def s1)
  qed
qed

text \<open>A failed write gives the partition back at the record.\<close>

lemma rewind_head_ok:
  assumes laws: "retry_laws C pos com recs" and ok: "retry_ok pos com recs s"
    and h: "held_in (rj_waiting s) tp = (m, due) # held" and r: "rewind_record C m s = (r, s1)"
  shows "isl r \<Longrightarrow> retry_ok pos com recs s1" "\<not> isl r \<Longrightarrow> retry_ok pos com recs (set_held tp [] s1)"
proof -
  from retry_okD(2) [OF ok, of tp] h have tp: "fst (rr_position m) = tp"
      and below: "\<forall>x \<in> recs tp. x < snd (rr_position m) \<longrightarrow> x \<in> written_offsets (rj_written s) tp"
    by auto
  obtain r1 w1 where w1: "rc_seek C tp (snd (rr_position m)) (rj_world s) = (r1, w1)" by force
  obtain r2 w2 where w2: "rc_resume C tp w1 = (r2, w2)" by force
  have at1: "com w1 = com (rj_world s)"
      "pos w1 = (pos (rj_world s))(tp := (if isl r1 then com (rj_world s) tp else snd (rr_position m)))"
    using laws w1 unfolding retry_laws_def by blast+
  have at2: "com w2 = com w1" "pos w2 = pos w1"
    using lawsD(2) [OF laws, of tp] w2 unfolding keeps_offsets_def by (metis snd_conv)+
  have s1: "s1 = s\<lparr>rj_world := w2\<rparr>"
    using r w1 w2 tp by (auto simp: rewind_record_def ignoring_def catch_exc_def ret_def rj_client_def split: sum.splits if_splits)
  have moved: "x \<in> written_offsets (rj_written s) tp" if "x \<in> recs tp" "x < pos w2 tp" for x
    using that at1 at2 below retry_okD(4) [OF ok, of x tp] by (auto split: if_splits)
  have other: "pos w2 tp' = pos (rj_world s) tp'" if "tp' \<noteq> tp" for tp' using that at1 at2 by simp
  have reach: "x \<in> written_offsets (rj_written s) tp' \<union> held_offsets (if tp' = tp then held' else held_in (rj_waiting s) tp')"
    if "x \<in> recs tp'" "x < pos w2 tp'" for x tp' held'
    using that moved [of x] other [of tp'] retry_okD(3) [OF ok, of x tp'] by (cases "tp' = tp") auto
  show "retry_ok pos com recs s1" if "isl r"
  proof (rule retry_okI)
    show "x \<in> written_offsets (rj_written s1) tp' \<union> held_offsets (held_in (rj_waiting s1) tp')"
      if "x \<in> recs tp'" "x < pos (rj_world s1) tp'" for tp' x
      using that reach [of x tp' "held_in (rj_waiting s) tp"] by (auto simp: s1 split: if_splits)
  qed (use retry_okD [OF ok] at1 at2 in \<open>simp_all add: s1\<close>)
  show "retry_ok pos com recs (set_held tp [] s1)" if "\<not> isl r"
  proof (rule retry_okI)
    show "x \<in> written_offsets (rj_written (set_held tp [] s1)) tp' \<union>
        held_offsets (held_in (rj_waiting (set_held tp [] s1)) tp')"
      if "x \<in> recs tp'" "x < pos (rj_world (set_held tp [] s1)) tp'" for tp' x
      using that reach [of x tp' "[]"] by (auto simp: s1 set_held_def split: if_splits)
  qed (use retry_okD [OF ok] at1 at2 in \<open>simp_all add: s1 set_held_def\<close>)
qed

lemma release_held_ok:
  assumes laws: "retry_laws C pos com recs"
  shows "retry_ok pos com recs s \<Longrightarrow> held_in (rj_waiting s) tp = held \<Longrightarrow>
    retry_ok pos com recs (snd (release_held C tp now written held s))"
proof (induction held arbitrary: s written)
  case Nil
  then show ?case by (simp add: ret_def)
next
  case (Cons md held)
  obtain m due where md: "md = (m, due)" by force
  with Cons.prems(2) have h: "held_in (rj_waiting s) tp = (m, due) # held" by simp
  show ?case
  proof (cases "now < due")
    case True
    with Cons.prems(1) md show ?thesis by (simp add: ret_def)
  next
    case False
    obtain r s1 where r: "reinject C m s = (r, s1)" by force
    note st = reinject_state [OF laws r]
    have h1: "held_in (rj_waiting s1) tp = (m, due) # held" using h st(1) by simp
    show ?thesis
    proof (cases r)
      case (Inl e)
      have ok1: "retry_ok pos com recs s1"
        using Inl st by (intro retry_ok_cong [OF Cons.prems(1)]) simp_all
      obtain r2 s2 where rw: "rewind_record C m s1 = (r2, s2)" by force
      show ?thesis
        using rewind_head_ok [OF laws ok1 h1 rw] ok1 md False r Inl rw
        by (cases r2) (simp_all add: bind_op_def then_op_def modify_def ret_def)
    next
      case (Inr x)
      have ok1: "retry_ok pos com recs s1"
        using write_head_ok [OF laws Cons.prems(1) h] r Inr by simp
      from retry_okD(2) [OF Cons.prems(1), of tp] h have "fst (rr_position m) = tp" by simp
      then have wr: "snd (rr_position m) \<in> written_offsets (rj_written s1) tp"
        using Inr by (simp add: st)
      obtain r2 s2 where c: "rj_client (rc_commit C m) s1 = (r2, s2)" by force
      note cm = commit_head_ok [OF laws ok1 h1 wr c]
      show ?thesis
      proof (cases r2)
        case Inl2: (Inl e)
        with cm md False r Inr c show ?thesis by (simp add: bind_op_def)
      next
        case Inr2: (Inr y)
        have "held_in (rj_waiting (set_held tp held s2)) tp = held" by (simp add: set_held_def)
        from Cons.IH [OF cm(2) this] md False r Inr c Inr2 show ?thesis
          by (simp add: bind_op_def then_op_def modify_def)
      qed
    qed
  qed
qed

lemma release_each_ok:
  assumes laws: "retry_laws C pos com recs"
  shows "retry_ok pos com recs s \<Longrightarrow> retry_ok pos com recs (snd (release_each C now written tps s))"
proof (induction tps arbitrary: s written)
  case (Cons tp tps)
  obtain r s1 where r: "release_held C tp now written (held_in (rj_waiting s) tp) s = (r, s1)" by force
  have ok1: "retry_ok pos com recs s1"
    using release_held_ok [OF laws Cons.prems refl, of tp now written] r by simp
  show ?case
  proof (cases r)
    case (Inl e)
    with r ok1 show ?thesis by (simp add: bind_op_def)
  next
    case (Inr x)
    obtain rewound written' where x: "x = (rewound, written')" by force
    let ?f = "\<lambda>s. if held_in (rj_waiting s) tp = []
              then then_op (modify (\<lambda>s. s\<lparr>rj_waiting := AList.delete tp (rj_waiting s)\<rparr>))
                     (if rewound then ret () else ignoring (rj_client (rc_resume C tp))) s
              else ret () s"
    obtain r2 s2 where f: "?f s1 = (r2, s2)" by force
    have "retry_ok pos com recs s2"
    proof (cases "held_in (rj_waiting s1) tp = []")
      case True
      let ?s = "s1\<lparr>rj_waiting := AList.delete tp (rj_waiting s1)\<rparr>"
      have ok2: "retry_ok pos com recs ?s"
        by (rule retry_ok_cong [OF ok1]) (simp_all add: held_in_delete [OF True])
      show ?thesis
        using f True ok2 retry_ok_keeps(1) [OF lawsD(2) [OF laws, of tp] ok2] ignoring_snd [of "rj_client (rc_resume C tp)" ?s]
        by (cases rewound) (auto simp: then_op_def bind_op_def modify_def ret_def)
    next
      case False
      with f ok1 show ?thesis by (simp add: ret_def)
    qed
    with Cons.IH [of s2 written'] r Inr x f show ?thesis
      by (cases r2) (simp_all add: bind_op_def then_op_def)
  qed
qed (simp add: ret_def)

lemma subscribe_ok:
  assumes laws: "retry_laws C pos com recs" and ok: "retry_ok pos com recs s"
  shows "retry_ok pos com recs (snd (subscribe_once C s))"
proof (cases "rj_subscribed s")
  case False
  let ?s = "snd (rj_client (rc_subscribe C (tier_topics (rc_tiers C) (rc_work_topics C))) s)"
  from laws have "keeps_offsets pos com (rc_subscribe C (tier_topics (rc_tiers C) (rc_work_topics C)))"
    by (simp add: retry_laws_def)
  from retry_ok_keeps(1) [OF this ok] have "retry_ok pos com recs ?s" .
  moreover from this have "retry_ok pos com recs (?s\<lparr>rj_subscribed := True\<rparr>)" by (rule retry_ok_cong) simp_all
  ultimately show ?thesis
    using False by (auto simp: subscribe_once_def then_op_def bind_op_def modify_def split: prod.split sum.split)
qed (simp add: subscribe_once_def ret_def ok)

lemma polled_ok:
  assumes laws: "retry_laws C pos com recs" and ok: "retry_ok pos com recs s"
  shows "retry_ok pos com recs (snd (bind_op (\<lambda>s. rj_client (rc_poll C (poll_wait C t s)) s) (\<lambda>message.
           then_op (case message of None \<Rightarrow> ret () | Some m \<Rightarrow> accept_record C m) (release_due C)) s))"
proof -
  obtain r w where w: "rc_poll C (poll_wait C t s) (rj_world s) = (r, w)" by force
  from laws w obtain p where com: "com w = com (rj_world s)" and reb: "rebalanced (com (rj_world s)) (pos (rj_world s)) p"
      and case_r: "case r of Inr (Some m) \<Rightarrow> next_retry C recs p m (pos w) | _ \<Rightarrow> pos w = p"
    unfolding retry_laws_def by blast
  let ?s = "s\<lparr>rj_world := w\<rparr>"
  have due: "retry_ok pos com recs s' \<Longrightarrow> retry_ok pos com recs (snd (release_due C s'))" for s'
    unfolding release_due_def by (rule release_each_ok [OF laws])
  have idle: "retry_ok pos com recs ?s" if "pos w = p"
  proof (rule retry_okI)
    show "x \<in> written_offsets (rj_written ?s) tp \<union> held_offsets (held_in (rj_waiting ?s) tp)"
      if "x \<in> recs tp" "x < pos (rj_world ?s) tp" for tp x
    proof -
      from that \<open>pos w = p\<close> have "x < p tp" by simp
      with reb consider "x < pos (rj_world s) tp" | "x < com (rj_world s) tp"
        unfolding rebalanced_def by metis
      with that(1) retry_okD(3,4) [OF ok, of x tp] show ?thesis by cases auto
    qed
  qed (use retry_okD [OF ok] com in simp_all)
  show ?thesis
  proof (cases "\<exists>m. r = Inr (Some m)")
    case True
    then obtain m where m: "r = Inr (Some m)" by blast
    with case_r have "next_retry C recs p m (pos w)" by simp
    from accept_ok [OF laws ok reb this com] have a: "retry_ok pos com recs (snd (accept_record C m ?s))" .
    obtain r2 s2 where "accept_record C m ?s = (r2, s2)" by force
    with a due [of s2] w m show ?thesis
      by (cases r2) (simp_all add: bind_op_def then_op_def rj_client_def)
  next
    case False
    with case_r idle have "retry_ok pos com recs ?s" by (auto split: sum.splits option.splits)
    with due [of ?s] w False show ?thesis
      by (cases r) (auto simp: bind_op_def then_op_def rj_client_def ret_def split: option.splits)
  qed
qed

lemma run_once_ok:
  assumes laws: "retry_laws C pos com recs" and ok: "retry_ok pos com recs s"
  shows "retry_ok pos com recs (snd (run_once C t s))"
proof -
  obtain r s1 where r: "subscribe_once C s = (r, s1)" by force
  with subscribe_ok [OF assms] have "retry_ok pos com recs s1" by simp
  from polled_ok [OF laws this, of t] r \<open>retry_ok pos com recs s1\<close> show ?thesis
    by (cases r) (simp_all add: run_once_def then_op_def bind_op_def)
qed

lemma run_calls_ok:
  "retry_laws C pos com recs \<Longrightarrow> retry_ok pos com recs s \<Longrightarrow> retry_ok pos com recs (run_calls C timeouts s)"
  by (induction timeouts arbitrary: s) (simp_all add: run_once_ok)

lemma close_clients_ok:
  assumes laws: "retry_laws C pos com recs" and ok: "retry_ok pos com recs s"
  shows "retry_ok pos com recs (snd (close_clients C s))"
proof -
  from laws have "keeps_offsets pos com (rc_flush_all C)" "keeps_offsets pos com (rc_close C)"
    by (simp_all add: retry_laws_def)
  then have keep: "retry_ok pos com recs s \<Longrightarrow> retry_ok pos com recs (snd (ignoring (rj_client (rc_flush_all C)) s))"
      "retry_ok pos com recs s \<Longrightarrow> retry_ok pos com recs (snd (ignoring (rj_client (rc_close C)) s))" for s
    by (simp_all add: ignoring_snd retry_ok_keeps(1))
  obtain r s1 where r: "ignoring (rj_client (rc_flush_all C)) s = (r, s1)" by force
  with keep(1) [OF ok] have "retry_ok pos com recs s1" by simp
  with keep(2) r show ?thesis
    by (cases r) (simp_all add: close_clients_def then_op_def bind_op_def)
qed

lemma run_reinjector_ok:
  assumes "retry_laws C pos com recs" "retry_ok pos com recs s"
  shows "retry_ok pos com recs (snd (run_reinjector C n s))"
proof -
  obtain r s1 where r: "run_steps C n s = (r, s1)" by force
  with run_steps_calls [of n C s] run_calls_ok [OF assms] have "retry_ok pos com recs s1" by auto
  from close_clients_ok [OF assms(1) this] r show ?thesis
    by (cases "close_clients C s1"; cases "fst (close_clients C s1)") (simp_all add: run_reinjector_def)
qed

section \<open>Properties\<close>



section \<open>A run\<close>

text \<open>One partition with two records that are due, and a broker that confirms.\<close>

record retry_demo_world =
  rd_pos :: offsets
  rd_com :: offsets

definition retry_demo_tp :: "pystr \<times> int" where
  "retry_demo_tp = (retry_topic (u ''q'') 1, 0)"

definition retry_demo_record :: "int \<Rightarrow> retry_message" where
  "retry_demo_record off =
     \<lparr>rr_position = (retry_demo_tp, off), rr_timestamp = Some (1, Some 1000), rr_headers = [],
      rr_value = RawBytes [123, 125], rr_key = None\<rparr>"

definition retry_demo_recs :: "pystr \<times> int \<Rightarrow> int set" where
  "retry_demo_recs tp = (if tp = retry_demo_tp then {0, 1} else {})"

definition retry_demo :: "retry_demo_world retry_client" where
  "retry_demo =
     \<lparr>rc_subscribe = (\<lambda>topics. ret ()), rc_poll = (\<lambda>t w.
        if 0 \<le> rd_pos w retry_demo_tp \<and> rd_pos w retry_demo_tp \<le> 1
        then (Inr (Some (retry_demo_record (rd_pos w retry_demo_tp))),
              w\<lparr>rd_pos := (rd_pos w)(retry_demo_tp := rd_pos w retry_demo_tp + 1)\<rparr>)
        else (Inr None, w)),
      rc_commit = (\<lambda>m w. (Inr (), w\<lparr>rd_com := (rd_com w)(fst (rr_position m) := snd (rr_position m) + 1)\<rparr>)),
      rc_seek = (\<lambda>tp off w. (Inr (), w\<lparr>rd_pos := (rd_pos w)(tp := off)\<rparr>)),
      rc_pause = (\<lambda>tp. ret ()), rc_resume = (\<lambda>tp. ret ()), rc_produce = (\<lambda>x. ret 0), rc_flush = (\<lambda>t. ret ()),
      rc_flush_all = ret (), rc_close = ret (),
      rc_report = (\<lambda>w ticket. Some None), rc_clock = (\<lambda>w. 60), rc_tiers = [5000], rc_work_topics = [u ''q''],
      rc_poll_interval = 1, rc_delivery_timeout = 30\<rparr>"

definition retry_demo_start :: "retry_demo_world reinjector" where
  "retry_demo_start = \<lparr>rj_world = \<lparr>rd_pos = (\<lambda>tp. 0), rd_com = (\<lambda>tp. 0)\<rparr>, rj_subscribed = False, rj_waiting = [], rj_written = []\<rparr>"

definition retry_demo_end :: "retry_demo_world reinjector" where
  "retry_demo_end = run_calls retry_demo [None, None] retry_demo_start"

lemma retry_demo_subscribed: "subscribed retry_demo (fst retry_demo_tp)"
  by (auto simp: subscribed_def retry_demo_def retry_demo_tp_def u_def)

lemma retry_demo_laws: "retry_laws retry_demo rd_pos rd_com retry_demo_recs"
  unfolding retry_laws_def
proof (intro conjI allI impI)
  fix t w r w' assume "rc_poll retry_demo t w = (r, w')"
  then show "rd_com w' = rd_com w"
      "\<exists>p. rebalanced (rd_com w) (rd_pos w) p \<and>
         (case r of Inr (Some m) \<Rightarrow> next_retry retry_demo retry_demo_recs p m (rd_pos w') | _ \<Rightarrow> rd_pos w' = p)"
    using retry_demo_subscribed
    by (auto simp: retry_demo_def rebalanced_def next_retry_def retry_demo_record_def split: if_splits
        intro!: exI [of _ "rd_pos w"])
qed (auto simp: retry_demo_def keeps_offsets_def ret_def)


end
