(* ===== verification/Redis.thy ===== *)
theory Redis
  imports Runtime Headers
begin

text \<open>
  \<open>redis_transport.py\<close>: the frame that carries headers beside an envelope, the scripts the server runs
  as one step, and the transport in both layouts. The server's commands and the connection are
  parameters: a script is composed of commands the way its Lua text is, and a call may be refused, or
  be executed and lose its reply.
\<close>

section \<open>Stored values\<close>

definition FRAME_KEY :: pystr where
  "FRAME_KEY = u ''__bq_frame''"

definition FRAME_VERSION :: int where
  "FRAME_VERSION = 1"

text \<open>Header values of a decoded frame are any JSON values.\<close>

fun sanitize_headers :: "pyval dict \<Rightarrow> pystr dict" where
  "sanitize_headers [] = []"
| "sanitize_headers ((key, v) # hs) =
     (if key = [] \<or> v = PNone \<or> v = PStr [] then sanitize_headers hs
      else (key, py_str v) # sanitize_headers hs)"

definition text_values :: "pystr dict \<Rightarrow> pyval dict" where
  "text_values hs = map (\<lambda>(k, v). (k, PStr v)) hs"

definition frame_value :: "pystr \<Rightarrow> headers \<Rightarrow> pystr res" where
  "frame_value body headers =
     (let clean = sanitize_headers (text_values headers)
      in if clean = [] then Inr body
         else dumps (PDict [(FRAME_KEY, PInt FRAME_VERSION), (u ''headers'', PDict (text_values clean)), (u ''body'', PStr body)]))"

fun occurs_in :: "pystr \<Rightarrow> pystr \<Rightarrow> bool" where
  "occurs_in needle [] = (needle = [])"
| "occurs_in needle (c # cs) = (starts_with needle (c # cs) \<or> occurs_in needle cs)"

text \<open>A value that is no frame is a body; \<open>except (ValueError, TypeError)\<close> lets a \<open>RecursionError\<close> through.\<close>

definition unframe :: "pystr \<Rightarrow> (pystr \<times> headers) res" where
  "unframe v =
     (if v = [] \<or> hd v \<noteq> 123 \<or> \<not> occurs_in ([34] @ FRAME_KEY @ [34]) v then Inr (v, [])
      else case loads v of
             Inl e \<Rightarrow> if exc_class_of e = ValueError \<or> exc_class_of e = TypeError then Inr (v, []) else Inl e
           | Inr decoded \<Rightarrow>
               (case as_dict (Some decoded) of
                  None \<Rightarrow> Inr (v, [])
                | Some d \<Rightarrow>
                    if \<not> truthy (get_or_none d FRAME_KEY) \<or> \<not> dhas (u ''body'') d then Inr (v, [])
                    else (case as_str (dget d (u ''body'')) of
                            None \<Rightarrow> Inr (v, [])
                          | Some body \<Rightarrow>
                              (case as_dict (dget d (u ''headers'')) of
                                 None \<Rightarrow> Inr (body, [])
                               | Some hs \<Rightarrow> Inr (body, sanitize_headers hs)))))"

text \<open>A double plus one, rounded once.\<close>

definition float_succ :: "pyfloat \<Rightarrow> pyfloat" where
  "float_succ f =
     (case f of
        FFin s m e \<Rightarrow>
          let n = signed_mant s m * 2 ^ nat e + 2 ^ nat (- e)
          in round_ratio (n < 0) (nat \<bar>n\<bar>) (2 ^ nat (- e))
      | _ \<Rightarrow> f)"

definition released_body :: "pystr \<Rightarrow> pystr res" where
  "released_body body =
     bind_res (parse_envelope body) (\<lambda>envelope.
       case get_or_none envelope (u ''attempts'') of
         PInt n \<Rightarrow> dumps (PDict (dset (u ''attempts'') (PInt (n + 1)) envelope))
       | PFloat f \<Rightarrow> dumps (PDict (dset (u ''attempts'') (PFloat (float_succ f)) envelope))
       | _ \<Rightarrow> Inr body)"

text \<open>\<open>_as_text\<close> of a reply, which the client may have decoded already.\<close>

definition as_text :: "raw_text \<Rightarrow> pystr" where
  "as_text v = (case v of RawStr s \<Rightarrow> s | RawBytes b \<Rightarrow> utf8_decode_escape b | RawNone \<Rightarrow> [])"

section \<open>The server\<close>

text \<open>
  A score is a number of seconds or \<open>+inf\<close>. A call the connection refuses is not executed; one whose
  reply is lost is.
\<close>

datatype score = Until int | Unlimited

datatype call_fate = Served | Unreached exc | ReplyLost exc

text \<open>
  The commands: \<open>rk_lmove\<close> is \<open>LMOVE from to LEFT RIGHT\<close>, \<open>rk_lrem\<close> is \<open>LREM key 1 value\<close>,
  \<open>rk_due key now batch\<close> is \<open>ZRANGEBYSCORE key -inf now LIMIT 0 batch\<close> and \<open>rk_zremrange key n\<close> is
  \<open>ZREMRANGEBYRANK key 0 (n - 1)\<close>. The Lua library \<open>cjson\<close> decodes into its own values; \<open>rk_bump\<close> adds 1
  to the number \<open>attempts\<close> of a table and has no result for anything else.
\<close>

record ('w, 'j) redis_client =
  rk_fate :: "'w \<Rightarrow> call_fate \<times> 'w"
  rk_encode :: "pystr \<Rightarrow> bytes res"
  rk_reply :: "bytes \<Rightarrow> raw_text res"
  rk_rpush :: "pystr \<Rightarrow> bytes \<Rightarrow> 'w \<Rightarrow> 'w"
  rk_lpop :: "pystr \<Rightarrow> 'w \<Rightarrow> bytes option \<times> 'w"
  rk_lmove :: "pystr \<Rightarrow> pystr \<Rightarrow> 'w \<Rightarrow> bytes option \<times> 'w"
  rk_lrem :: "pystr \<Rightarrow> bytes \<Rightarrow> 'w \<Rightarrow> nat \<times> 'w"
  rk_zadd :: "pystr \<Rightarrow> score \<Rightarrow> bytes \<Rightarrow> 'w \<Rightarrow> 'w"
  rk_zrem :: "pystr \<Rightarrow> bytes \<Rightarrow> 'w \<Rightarrow> nat \<times> 'w"
  rk_due :: "pystr \<Rightarrow> int \<Rightarrow> int \<Rightarrow> 'w \<Rightarrow> bytes list"
  rk_zremrange :: "pystr \<Rightarrow> nat \<Rightarrow> 'w \<Rightarrow> 'w"
  rk_blpop :: "pystr \<Rightarrow> rat \<Rightarrow> 'w \<Rightarrow> 'w"
  rk_close :: "'w \<Rightarrow> 'w"
  rk_cjson_decode :: "bytes \<Rightarrow> 'j option"
  rk_bump :: "'j \<Rightarrow> 'j option"
  rk_cjson_encode :: "'j \<Rightarrow> bytes option"

section \<open>The scripts\<close>

definition push_script :: "('w, 'j, 'z) redis_client_scheme \<Rightarrow> pystr \<Rightarrow> pystr \<Rightarrow> bytes \<Rightarrow> 'w \<Rightarrow> unit \<times> 'w" where
  "push_script K ready notify payload w = ((), rk_rpush K notify [49] (rk_rpush K ready payload w))"

text \<open>A job that cannot be decoded, counted and encoded again is reserved as it is.\<close>

definition reserved_member :: "('w, 'j, 'z) redis_client_scheme \<Rightarrow> bytes \<Rightarrow> bytes" where
  "reserved_member K job =
     (case rk_cjson_decode K job of
        None \<Rightarrow> job
      | Some decoded \<Rightarrow>
          (case rk_bump K decoded of
             None \<Rightarrow> job
           | Some counted \<Rightarrow> (case rk_cjson_encode K counted of None \<Rightarrow> job | Some encoded \<Rightarrow> encoded)))"

definition pop_script ::
  "('w, 'j, 'z) redis_client_scheme \<Rightarrow> pystr \<Rightarrow> pystr \<Rightarrow> pystr \<Rightarrow> score \<Rightarrow> 'w \<Rightarrow> (bytes \<times> bytes) option \<times> 'w" where
  "pop_script K ready reserved notify deadline w =
     (case rk_lpop K ready w of
        (None, w1) \<Rightarrow> (None, w1)
      | (Some job, w1) \<Rightarrow>
          let member = reserved_member K job
          in (Some (job, member), snd (rk_lpop K notify (rk_zadd K reserved deadline member w1))))"

definition release_script ::
  "('w, 'j, 'z) redis_client_scheme \<Rightarrow> pystr \<Rightarrow> pystr \<Rightarrow> bytes \<Rightarrow> bytes \<Rightarrow> int \<Rightarrow> 'w \<Rightarrow> unit \<times> 'w" where
  "release_script K delayed reserved member body available w =
     ((), rk_zadd K delayed (Until available) body (snd (rk_zrem K reserved member w)))"

definition dead_letter_script ::
  "('w, 'j, 'z) redis_client_scheme \<Rightarrow> pystr \<Rightarrow> pystr \<Rightarrow> pystr \<Rightarrow> bytes \<Rightarrow> bytes \<Rightarrow> 'w \<Rightarrow> nat \<times> 'w" where
  "dead_letter_script K reserved target notify member body w =
     (case rk_zrem K reserved member w of
        (n, w1) \<Rightarrow>
          if n = 1 then (1, rk_rpush K notify [49] (rk_rpush K target body w1)) else (0, w1))"

text \<open>The batches of a hundred only split one push of them all.\<close>

definition migrate_script ::
  "('w, 'j, 'z) redis_client_scheme \<Rightarrow> pystr \<Rightarrow> pystr \<Rightarrow> pystr \<Rightarrow> int \<Rightarrow> int \<Rightarrow> 'w \<Rightarrow> bytes list \<times> 'w" where
  "migrate_script K from ready notify now batch w =
     (let val = rk_due K from now batch w
      in if val = [] then (val, w)
         else (val, fold (\<lambda>m w. rk_rpush K notify [49] (rk_rpush K ready m w)) val (rk_zremrange K from (length val) w)))"

definition deadline_member :: "bytes \<Rightarrow> bytes \<Rightarrow> bytes" where
  "deadline_member token raw = token @ [58] @ raw"

definition reserve_script ::
  "('w, 'j, 'z) redis_client_scheme \<Rightarrow> pystr \<Rightarrow> pystr \<Rightarrow> pystr \<Rightarrow> score \<Rightarrow> bytes \<Rightarrow> 'w \<Rightarrow> bytes option \<times> 'w" where
  "reserve_script K ready processing deadlines deadline token w =
     (case rk_lmove K ready processing w of
        (None, w1) \<Rightarrow> (None, w1)
      | (Some raw, w1) \<Rightarrow> (Some raw, rk_zadd K deadlines deadline (deadline_member token raw) w1))"

definition settle_script ::
  "('w, 'j, 'z) redis_client_scheme \<Rightarrow> pystr \<Rightarrow> pystr \<Rightarrow> bytes \<Rightarrow> bytes \<Rightarrow> (pystr \<times> bytes) option \<Rightarrow> 'w \<Rightarrow> nat \<times> 'w" where
  "settle_script K processing deadlines token raw target w =
     (case rk_zrem K deadlines (deadline_member token raw) w of
        (n, w1) \<Rightarrow>
          if n = 1
          then (let w2 = snd (rk_lrem K processing raw w1)
                in (1, case target of None \<Rightarrow> w2 | Some (key, body) \<Rightarrow> rk_rpush K key body w2))
          else (0, w1))"

text \<open>One lapsed member: \<open>#m >= 34\<close> and byte 33 a colon, else it is only removed.\<close>

definition sweep_member ::
  "('w, 'j, 'z) redis_client_scheme \<Rightarrow> pystr \<Rightarrow> pystr \<Rightarrow> pystr \<Rightarrow> bytes \<Rightarrow> nat \<times> 'w \<Rightarrow> nat \<times> 'w" where
  "sweep_member K ready processing deadlines m =
     (\<lambda>(moved, w).
        if 34 \<le> length m \<and> m ! 32 = 58
        then (case rk_lrem K processing (drop 33 m) w of
                (n, w1) \<Rightarrow>
                  if n = 1 then (Suc moved, snd (rk_zrem K deadlines m (rk_rpush K ready (drop 33 m) w1)))
                  else (moved, snd (rk_zrem K deadlines m w1)))
        else (moved, snd (rk_zrem K deadlines m w)))"

definition sweep_script ::
  "('w, 'j, 'z) redis_client_scheme \<Rightarrow> pystr \<Rightarrow> pystr \<Rightarrow> pystr \<Rightarrow> int \<Rightarrow> int \<Rightarrow> 'w \<Rightarrow> nat \<times> 'w" where
  "sweep_script K ready processing deadlines now batch w =
     fold (sweep_member K ready processing deadlines) (rk_due K deadlines now batch w) (0, w)"

section \<open>Settings\<close>

text \<open>The query of the URL by key; membership tests of \<open>lower()\<close> only need the ASCII letters.\<close>

definition q1 :: "pystr list dict \<Rightarrow> pystr \<Rightarrow> pystr option" where
  "q1 q key = (case qget q key of [] \<Rightarrow> None | v # vs \<Rightarrow> Some v)"

definition ascii_lower :: "pystr \<Rightarrow> pystr" where
  "ascii_lower s = map (\<lambda>c. if 65 \<le> c \<and> c \<le> 90 then c + 32 else c) s"

definition qbool :: "pystr list dict \<Rightarrow> pystr \<Rightarrow> bool" where
  "qbool q key =
     (case q1 q key of
        None \<Rightarrow> False
      | Some v \<Rightarrow> ascii_lower v \<in> {u ''1'', u ''true'', u ''yes'', u ''on''})"

definition DEFAULT_RETRY_AFTER :: int where
  "DEFAULT_RETRY_AFTER = 90"

definition qretry_after :: "pystr list dict \<Rightarrow> pyval res" where
  "qretry_after q =
     (case q1 q (u ''retry_after'') of
        None \<Rightarrow> Inr (PInt DEFAULT_RETRY_AFTER)
      | Some v \<Rightarrow>
          if ascii_lower (strip py_whitespace v) \<in> {u ''null'', u ''none''} then Inr PNone
          else (case int_of_str v of
                  Inr i \<Rightarrow> Inr (PInt i)
                | Inl e \<Rightarrow> Inl (Exc ValueError (u ''retry_after must be an integer or null''))))"

definition checked_retry_after :: "pyval \<Rightarrow> int option res" where
  "checked_retry_after v =
     (case v of
        PNone \<Rightarrow> Inr None
      | PInt i \<Rightarrow>
          if i < 0 then Inl (Exc ValueError (u ''retry_after must be a non-negative integer number of seconds or None''))
          else Inr (Some i)
      | _ \<Rightarrow> Inl (Exc ValueError (u ''retry_after must be a non-negative integer number of seconds or None'')))"

definition checked_batch :: "pyval \<Rightarrow> int res" where
  "checked_batch v =
     (case v of
        PInt i \<Rightarrow>
          if i \<noteq> - 1 \<and> i < 1 then Inl (Exc ValueError (u ''migration_batch_size must be -1 (all) or an integer >= 1''))
          else Inr i
      | _ \<Rightarrow> Inl (Exc ValueError (u ''migration_batch_size must be -1 (all) or an integer >= 1'')))"

text \<open>
  The clocks are read off the world. \<open>rd_token\<close> is \<open>secrets.token_hex(16)\<close>, its bytes in ASCII.
\<close>

record ('w, 'j) redis_setup = "('w, 'j) redis_client" +
  rd_laravel :: bool
  rd_prefix :: pystr
  rd_suffix :: pystr
  rd_retry_after :: "int option"
  rd_batch :: int
  rd_block_for :: "rat option"
  rd_clock :: "'w \<Rightarrow> rat"
  rd_monotonic :: "'w \<Rightarrow> rat"
  rd_sleep :: "rat \<Rightarrow> 'w \<Rightarrow> 'w"
  rd_token :: "'w \<Rightarrow> bytes \<times> 'w"

definition redis_options ::
  "pystr list dict \<Rightarrow> bool \<Rightarrow> pystr \<Rightarrow> pyval \<Rightarrow> pyval \<Rightarrow> (bool \<times> pystr \<times> int option \<times> int) res" where
  "redis_options q laravel_compat key_prefix retry_after batch =
     bind_res (if dhas (u ''retry_after'') q then qretry_after q else Inr retry_after) (\<lambda>chosen.
     bind_res (checked_retry_after chosen) (\<lambda>after.
     bind_res (checked_batch batch) (\<lambda>size.
       Inr (laravel_compat \<or> qbool q (u ''laravel'') \<or> qbool q (u ''laravel_compat''),
            (if dhas (u ''prefix'') q
             then (case q1 q (u ''prefix'') of None \<Rightarrow> key_prefix | Some p \<Rightarrow> if p = [] then key_prefix else p)
             else key_prefix),
            after, size))))"

section \<open>The transport\<close>

text \<open>
  A legacy handle is the stored value and the token of the reservation; the other layout's is the
  reserved member.
\<close>

datatype redis_handle = LegacyHandle pystr bytes | ReservedMember pystr

record 'w redis =
  rs_world :: 'w
  rs_handles :: "nat \<Rightarrow> redis_handle option"
  rs_next :: nat

definition redis_call :: "('w, 'j) redis_setup \<Rightarrow> ('w \<Rightarrow> 'a \<times> 'w) \<Rightarrow> ('w redis, 'a) op" where
  "redis_call K script =
     (\<lambda>s. case rk_fate K (rs_world s) of
            (Served, w) \<Rightarrow> (case script w of (x, w') \<Rightarrow> (Inr x, s\<lparr>rs_world := w'\<rparr>))
          | (Unreached e, w) \<Rightarrow> (Inl e, s\<lparr>rs_world := w\<rparr>)
          | (ReplyLost e, w) \<Rightarrow> (Inl e, s\<lparr>rs_world := snd (script w)\<rparr>))"

definition processing_key :: "('w, 'j) redis_setup \<Rightarrow> pystr \<Rightarrow> pystr" where
  "processing_key K queue = queue @ rd_suffix K"

definition deadlines_key :: "('w, 'j) redis_setup \<Rightarrow> pystr \<Rightarrow> pystr" where
  "deadlines_key K queue = processing_key K queue @ u '':deadlines''"

definition ready_key :: "('w, 'j) redis_setup \<Rightarrow> pystr \<Rightarrow> pystr" where
  "ready_key K queue = rd_prefix K @ queue"

definition redis_now :: "('w, 'j) redis_setup \<Rightarrow> 'w \<Rightarrow> int" where
  "redis_now K w = \<lfloor>rd_clock K w\<rfloor>"

definition deadline_score :: "('w, 'j) redis_setup \<Rightarrow> 'w \<Rightarrow> score" where
  "deadline_score K w =
     (case rd_retry_after K of None \<Rightarrow> Unlimited | Some after \<Rightarrow> Until (redis_now K w + after))"

definition available_at :: "('w, 'j) redis_setup \<Rightarrow> rat \<Rightarrow> 'w \<Rightarrow> int" where
  "available_at K delay w = redis_now K w + \<lceil>max delay 0\<rceil>"

text \<open>
  \<open>_wire\<close>: text that is UTF-8 is left to the client, escaped bytes are written back as they were.
\<close>

definition wire :: "('w, 'j) redis_setup \<Rightarrow> pystr \<Rightarrow> bytes res" where
  "wire K v =
     (case utf8_encode v of
        Some b \<Rightarrow> rk_encode K v
      | None \<Rightarrow> (case utf8_surrogateescape v of Some b \<Rightarrow> Inr b | None \<Rightarrow> rk_encode K v))"

definition push_plain :: "('w, 'j) redis_setup \<Rightarrow> pystr \<Rightarrow> bytes \<Rightarrow> 'w \<Rightarrow> unit \<times> 'w" where
  "push_plain K key v w = ((), rk_rpush K key v w)"

definition redis_publish :: "('w, 'j) redis_setup \<Rightarrow> pystr \<Rightarrow> pystr \<Rightarrow> ('w redis, unit) op" where
  "redis_publish K queue body =
     bind_op (lift_res (rk_encode K body)) (\<lambda>payload.
       if rd_laravel K
       then redis_call K (push_script K (ready_key K queue) (ready_key K queue @ u '':notify'') payload)
       else redis_call K (push_plain K queue payload))"

definition redis_publish_delayed :: "('w, 'j) redis_setup \<Rightarrow> pystr \<Rightarrow> pystr \<Rightarrow> rat \<Rightarrow> ('w redis, unit) op" where
  "redis_publish_delayed K queue body delay =
     (if \<not> rd_laravel K then raise_op (Exc BabelQueueError (u ''publish_delayed needs the Laravel-compatible layout''))
      else bind_op (lift_res (rk_encode K body)) (\<lambda>payload.
             (\<lambda>s. redis_call K
                    (\<lambda>w. ((), rk_zadd K (ready_key K queue @ u '':delayed'') (Until (available_at K delay (rs_world s))) payload w)) s)))"

definition redis_publish_with_headers ::
  "('w, 'j) redis_setup \<Rightarrow> pystr \<Rightarrow> pystr \<Rightarrow> headers \<Rightarrow> ('w redis, unit) op" where
  "redis_publish_with_headers K queue body headers =
     (if rd_laravel K then redis_publish K queue body
      else bind_op (lift_res (bind_res (frame_value body headers) (rk_encode K))) (\<lambda>payload.
             redis_call K (push_plain K queue payload)))"

section \<open>Settling\<close>

text \<open>The gated settle: a reservation that has been swept is left alone. The result is only logged.\<close>

definition settle ::
  "('w, 'j) redis_setup \<Rightarrow> received_message \<Rightarrow> (pystr \<times> pystr) option \<Rightarrow> ('w redis, unit) op" where
  "settle K m target =
     (\<lambda>s. case rs_handles s (rm_handle m) of
            Some (LegacyHandle raw token) \<Rightarrow>
              bind_op (lift_res (wire K raw)) (\<lambda>stored.
              bind_op (lift_res (case target of
                                   None \<Rightarrow> Inr None
                                 | Some (key, body) \<Rightarrow> bind_res (wire K body) (\<lambda>b. Inr (Some (key, b))))) (\<lambda>target'.
                then_op (redis_call K (settle_script K (processing_key K (rm_queue m)) (deadlines_key K (rm_queue m)) token stored target'))
                  (ret ()))) s
          | _ \<Rightarrow> ret () s)"

text \<open>\<open>message.handle\<close> where the other layout uses it.\<close>

definition member_of :: "redis_handle \<Rightarrow> pystr" where
  "member_of h = (case h of ReservedMember m \<Rightarrow> m | LegacyHandle raw token \<Rightarrow> raw)"

definition redis_ack :: "('w, 'j) redis_setup \<Rightarrow> received_message \<Rightarrow> ('w redis, unit) op" where
  "redis_ack K m =
     (if \<not> rd_laravel K then settle K m None
      else (\<lambda>s. case rs_handles s (rm_handle m) of
                  None \<Rightarrow> ret () s
                | Some h \<Rightarrow>
                    bind_op (lift_res (wire K (member_of h))) (\<lambda>member.
                      then_op (redis_call K (rk_zrem K (ready_key K (rm_queue m) @ u '':reserved'') member)) (ret ())) s))"

definition redis_redeliver :: "('w, 'j) redis_setup \<Rightarrow> received_message \<Rightarrow> pystr \<Rightarrow> rat \<Rightarrow> ('w redis, unit) op" where
  "redis_redeliver K m body delay =
     (if rd_laravel K
      then (\<lambda>s. case rs_handles s (rm_handle m) of
                  None \<Rightarrow> ret () s
                | Some h \<Rightarrow>
                    bind_op (lift_res (wire K (member_of h))) (\<lambda>member.
                    bind_op (lift_res (wire K body)) (\<lambda>payload.
                      redis_call K
                        (release_script K (ready_key K (rm_queue m) @ u '':delayed'') (ready_key K (rm_queue m) @ u '':reserved'')
                           member payload (available_at K delay (rs_world s))))) s)
      else bind_op (lift_res (frame_value body (rm_headers m))) (\<lambda>v. settle K m (Some (rm_queue m, v))))"

definition redis_release :: "('w, 'j) redis_setup \<Rightarrow> received_message \<Rightarrow> rat \<Rightarrow> ('w redis, unit) op" where
  "redis_release K m delay =
     bind_op (lift_res (released_body (rm_body m))) (\<lambda>body. redis_redeliver K m body delay)"

definition redis_dead_letter :: "('w, 'j) redis_setup \<Rightarrow> received_message \<Rightarrow> pystr \<Rightarrow> pystr \<Rightarrow> ('w redis, unit) op" where
  "redis_dead_letter K m queue body =
     (if rd_laravel K
      then (\<lambda>s. case rs_handles s (rm_handle m) of
                  None \<Rightarrow> redis_publish K queue body s
                | Some h \<Rightarrow>
                    bind_op (lift_res (wire K (member_of h))) (\<lambda>member.
                    bind_op (lift_res (wire K body)) (\<lambda>payload.
                      then_op (redis_call K
                        (dead_letter_script K (ready_key K (rm_queue m) @ u '':reserved'') (ready_key K queue)
                           (ready_key K queue @ u '':notify'') member payload)) (ret ()))) s)
      else bind_op (lift_res (frame_value body (rm_headers m))) (\<lambda>v. settle K m (Some (queue, v))))"

section \<open>Popping\<close>

definition sweep :: "('w, 'j) redis_setup \<Rightarrow> pystr \<Rightarrow> ('w redis, nat) op" where
  "sweep K queue =
     (\<lambda>s. redis_call K
            (sweep_script K queue (processing_key K queue) (deadlines_key K queue) (redis_now K (rs_world s)) (rd_batch K)) s)"

definition legacy_message :: "pystr \<Rightarrow> nat \<Rightarrow> pystr \<Rightarrow> received_message res" where
  "legacy_message queue h txt =
     bind_res (unframe txt) (\<lambda>(body, headers).
       Inr \<lparr>rm_body = body, rm_queue = queue, rm_handle = h, rm_headers = headers,
            rm_route = Route (if \<not> has_invalid_utf8 txt \<and> poison_cause body True = None then [] else NON_NUMERIC_ATTEMPTS_ROUTE),
            rm_key = None, rm_native_attempts = 0\<rparr>)"

definition keep_handle :: "redis_handle \<Rightarrow> ('w redis, nat) op" where
  "keep_handle h = (\<lambda>s. (Inr (rs_next s), s\<lparr>rs_handles := (rs_handles s)(rs_next s := Some h), rs_next := Suc (rs_next s)\<rparr>))"

definition reserve :: "('w, 'j) redis_setup \<Rightarrow> pystr \<Rightarrow> ('w redis, (bytes \<times> bytes) option) op" where
  "reserve K queue =
     (\<lambda>s. case rd_token K (rs_world s) of
            (token, w) \<Rightarrow>
              bind_op
                (redis_call K (reserve_script K queue (processing_key K queue) (deadlines_key K queue) (deadline_score K w) token))
                (\<lambda>raw. ret (map_option (\<lambda>r. (r, token)) raw)) (s\<lparr>rs_world := w\<rparr>))"

definition wait_pause :: "('w, 'j) redis_setup \<Rightarrow> rat \<Rightarrow> ('w redis, unit) op" where
  "wait_pause K t = modify (\<lambda>s. s\<lparr>rs_world := rd_sleep K t (rs_world s)\<rparr>)"

text \<open>
  The first argument bounds the tries before the time is up: what it ends is the wait for a message.
  The handle is kept once the message has been built.
\<close>

fun pop_legacy :: "nat \<Rightarrow> ('w, 'j) redis_setup \<Rightarrow> pystr \<Rightarrow> rat \<Rightarrow> rat \<Rightarrow> ('w redis, received_message option) op" where
  "pop_legacy 0 K queue finish pause = ret None"
| "pop_legacy (Suc n) K queue finish pause =
     then_op (sweep K queue)
     (bind_op (reserve K queue) (\<lambda>r.
       case r of
         Some (raw, token) \<Rightarrow>
           bind_op (lift_res (rk_reply K raw)) (\<lambda>reply.
           bind_op (\<lambda>s. (legacy_message queue (rs_next s) (as_text reply), s)) (\<lambda>m.
             then_op (keep_handle (LegacyHandle (as_text reply) token)) (ret (Some m))))
       | None \<Rightarrow>
           (\<lambda>s. let remaining = finish - rd_monotonic K (rs_world s)
                in if remaining \<le> 0 then ret None s
                   else then_op (wait_pause K (min pause remaining)) (pop_legacy n K queue finish (min (pause * 2) 1)) s)))"

definition migrate :: "('w, 'j) redis_setup \<Rightarrow> pystr \<Rightarrow> ('w redis, unit) op" where
  "migrate K ready =
     (\<lambda>s. let now = redis_now K (rs_world s)
          in then_op (redis_call K (migrate_script K (ready @ u '':delayed'') ready (ready @ u '':notify'') now (rd_batch K)))
               (if rd_retry_after K = None then ret ()
                else then_op (redis_call K (migrate_script K (ready @ u '':reserved'') ready (ready @ u '':notify'') now (rd_batch K)))
                       (ret ())) s)"

definition zset_message :: "pystr \<Rightarrow> nat \<Rightarrow> pystr \<Rightarrow> pystr \<Rightarrow> received_message" where
  "zset_message queue h job reserved =
     \<lparr>rm_body = job, rm_queue = queue, rm_handle = h, rm_headers = [],
      rm_route = Route (if job = reserved \<or> has_invalid_utf8 job \<or> poison_cause job True \<noteq> None then NON_NUMERIC_ATTEMPTS_ROUTE else []),
      rm_key = None, rm_native_attempts = 0\<rparr>"

fun pop_zset :: "nat \<Rightarrow> ('w, 'j) redis_setup \<Rightarrow> pystr \<Rightarrow> rat \<Rightarrow> ('w redis, received_message option) op" where
  "pop_zset 0 K queue finish = ret None"
| "pop_zset (Suc n) K queue finish =
     then_op (migrate K (ready_key K queue))
     (bind_op (\<lambda>s. redis_call K (pop_script K (ready_key K queue) (ready_key K queue @ u '':reserved'') (ready_key K queue @ u '':notify'')
                                    (deadline_score K (rs_world s))) s) (\<lambda>r.
       case r of
         Some (job, member) \<Rightarrow>
           bind_op (lift_res (rk_reply K job)) (\<lambda>j.
           bind_op (lift_res (rk_reply K member)) (\<lambda>m.
           bind_op (keep_handle (ReservedMember (as_text m))) (\<lambda>h.
             ret (Some (zset_message queue h (as_text j) (as_text m))))))
       | None \<Rightarrow>
           (\<lambda>s. let remaining = finish - rd_monotonic K (rs_world s)
                in if remaining \<le> 0 then ret None s
                   else then_op (redis_call K (\<lambda>w. ((), rk_blpop K (ready_key K queue @ u '':notify'') (min 1 remaining) w)))
                          (pop_zset n K queue finish) s)))"

definition redis_pop :: "nat \<Rightarrow> ('w, 'j) redis_setup \<Rightarrow> pystr \<Rightarrow> rat \<Rightarrow> ('w redis, received_message option) op" where
  "redis_pop n K queue timeout =
     (\<lambda>s. let block = (case rd_block_for K of Some b \<Rightarrow> b | None \<Rightarrow> timeout);
              finish = rd_monotonic K (rs_world s) + (if 0 < block then block else 0)
          in if rd_laravel K then pop_zset n K queue finish s else pop_legacy n K queue finish (1 / 10) s)"

text \<open>The transport the runtime uses; \<open>n\<close> bounds the tries of a pop.\<close>

definition redis_transport :: "nat \<Rightarrow> ('w, 'j) redis_setup \<Rightarrow> 'w redis transport" where
  "redis_transport n K =
     \<lparr>t_publish = redis_publish K,
      t_pop = (\<lambda>q. redis_pop n K q 1),
      t_ack = redis_ack K,
      t_close = modify (\<lambda>s. s\<lparr>rs_world := rk_close K (rs_world s)\<rparr>),
      t_classifies_poison = True,
      t_publish_with_headers = Some (redis_publish_with_headers K),
      t_publish_routed = None, t_publish_settle = None, t_publish_redriven = None,
      t_redeliver = Some (redis_redeliver K),
      t_dead_letter = Some (redis_dead_letter K),
      t_rewind = None, t_dead_letter_queue_name = None, t_abandon = None,
      t_settle_native = None, t_settle_native_dead_letter = None, t_pop_batch = None, t_retry_tiers_ms = None\<rparr>"

end
