(* ===== verification/RedisServer.thy ===== *)
theory RedisServer
  imports Redis "HOL-Library.Multiset"
begin

text \<open>
  What the Redis transport relies on of the server, as its documentation states it: a view of the
  server's lists and sorted sets, what each command does to the view, and the hypothesis that the
  commands of the model act on the view that way.
\<close>

section \<open>Views\<close>

text \<open>
  A list per key; a sorted set per key, its members in ascending order of score, then of bytes; and the
  reservation tokens drawn so far.
\<close>

record redis_view =
  rv_lists :: "pystr \<Rightarrow> bytes list"
  rv_zsets :: "pystr \<Rightarrow> (bytes \<times> score) list"
  rv_tokens :: "bytes list"

fun bytes_less :: "bytes \<Rightarrow> bytes \<Rightarrow> bool" where
  "bytes_less [] b = (b \<noteq> [])"
| "bytes_less a [] = False"
| "bytes_less (a # as) (b # bs) = (a < b \<or> a = b \<and> bytes_less as bs)"

fun score_less :: "score \<Rightarrow> score \<Rightarrow> bool" where
  "score_less (Until a) (Until b) = (a < b)"
| "score_less (Until a) Unlimited = True"
| "score_less Unlimited b = False"

fun lapsed :: "int \<Rightarrow> score \<Rightarrow> bool" where
  "lapsed now (Until t) = (t \<le> now)"
| "lapsed now Unlimited = False"

definition ranks_before :: "bytes \<times> score \<Rightarrow> bytes \<times> score \<Rightarrow> bool" where
  "ranks_before p q \<longleftrightarrow> score_less (snd p) (snd q) \<or> snd p = snd q \<and> bytes_less (fst p) (fst q)"

definition zput :: "bytes \<Rightarrow> score \<Rightarrow> (bytes \<times> score) list \<Rightarrow> (bytes \<times> score) list" where
  "zput m sc z =
     (let rest = filter (\<lambda>p. fst p \<noteq> m) z
      in takeWhile (\<lambda>p. ranks_before p (m, sc)) rest @ (m, sc) # dropWhile (\<lambda>p. ranks_before p (m, sc)) rest)"

definition zdue :: "int \<Rightarrow> int \<Rightarrow> (bytes \<times> score) list \<Rightarrow> bytes list" where
  "zdue now batch z =
     (let due = map fst (filter (\<lambda>p. lapsed now (snd p)) z) in if batch < 0 then due else take (nat batch) due)"

section \<open>Commands on a view\<close>

definition put_list :: "pystr \<Rightarrow> bytes list \<Rightarrow> redis_view \<Rightarrow> redis_view" where
  "put_list k xs v = v\<lparr>rv_lists := (rv_lists v)(k := xs)\<rparr>"

definition put_zset :: "pystr \<Rightarrow> (bytes \<times> score) list \<Rightarrow> redis_view \<Rightarrow> redis_view" where
  "put_zset k z v = v\<lparr>rv_zsets := (rv_zsets v)(k := z)\<rparr>"

definition v_rpush :: "pystr \<Rightarrow> bytes \<Rightarrow> redis_view \<Rightarrow> redis_view" where
  "v_rpush k x v = put_list k (rv_lists v k @ [x]) v"

definition v_lpop :: "pystr \<Rightarrow> redis_view \<Rightarrow> bytes option \<times> redis_view" where
  "v_lpop k v = (case rv_lists v k of [] \<Rightarrow> (None, v) | x # xs \<Rightarrow> (Some x, put_list k xs v))"

definition v_lmove :: "pystr \<Rightarrow> pystr \<Rightarrow> redis_view \<Rightarrow> bytes option \<times> redis_view" where
  "v_lmove a b v = (case rv_lists v a of [] \<Rightarrow> (None, v) | x # xs \<Rightarrow> (Some x, v_rpush b x (put_list a xs v)))"

definition v_lrem :: "pystr \<Rightarrow> bytes \<Rightarrow> redis_view \<Rightarrow> nat \<times> redis_view" where
  "v_lrem k x v = (if x \<in> set (rv_lists v k) then (1, put_list k (remove1 x (rv_lists v k)) v) else (0, v))"

definition v_zadd :: "pystr \<Rightarrow> score \<Rightarrow> bytes \<Rightarrow> redis_view \<Rightarrow> redis_view" where
  "v_zadd k sc m v = put_zset k (zput m sc (rv_zsets v k)) v"

definition v_zrem :: "pystr \<Rightarrow> bytes \<Rightarrow> redis_view \<Rightarrow> nat \<times> redis_view" where
  "v_zrem k m v =
     (if m \<in> fst ` set (rv_zsets v k) then (1, put_zset k (filter (\<lambda>p. fst p \<noteq> m) (rv_zsets v k)) v) else (0, v))"

definition v_zremrange :: "pystr \<Rightarrow> nat \<Rightarrow> redis_view \<Rightarrow> redis_view" where
  "v_zremrange k n v = put_zset k (drop n (rv_zsets v k)) v"

section \<open>The hypothesis\<close>

definition command_laws :: "('w, 'j) redis_setup \<Rightarrow> ('w \<Rightarrow> redis_view) \<Rightarrow> bool" where
  "command_laws K view \<longleftrightarrow>
     (\<forall>k x w. view (rk_rpush K k x w) = v_rpush k x (view w)) \<and>
     (\<forall>k w. apsnd view (rk_lpop K k w) = v_lpop k (view w)) \<and>
     (\<forall>a b w. apsnd view (rk_lmove K a b w) = v_lmove a b (view w)) \<and>
     (\<forall>k x w. apsnd view (rk_lrem K k x w) = v_lrem k x (view w)) \<and>
     (\<forall>k sc m w. view (rk_zadd K k sc m w) = v_zadd k sc m (view w)) \<and>
     (\<forall>k m w. apsnd view (rk_zrem K k m w) = v_zrem k m (view w)) \<and>
     (\<forall>k now batch w. rk_due K k now batch w = zdue now batch (rv_zsets (view w) k)) \<and>
     (\<forall>k n w. view (rk_zremrange K k n w) = v_zremrange k n (view w))"

text \<open>
  What happens around a call leaves the data alone; waiting for a wake-up at most takes it. A token has
  16 bytes in hexadecimal and has not been drawn before.
\<close>

definition client_laws :: "('w, 'j) redis_setup \<Rightarrow> ('w \<Rightarrow> redis_view) \<Rightarrow> bool" where
  "client_laws K view \<longleftrightarrow>
     (\<forall>w. view (snd (rk_fate K w)) = view w) \<and>
     (\<forall>t w. view (rd_sleep K t w) = view w) \<and>
     (\<forall>k t w. view (rk_blpop K k t w) \<in> {view w, snd (v_lpop k (view w))}) \<and>
     (\<forall>w. length (fst (rd_token K w)) = 32 \<and> fst (rd_token K w) \<notin> set (rv_tokens (view w)) \<and>
          view (snd (rd_token K w)) = (view w)\<lparr>rv_tokens := fst (rd_token K w) # rv_tokens (view w)\<rparr>) \<and>
     (\<forall>s b. rk_encode K s = Inr b \<longrightarrow> s \<noteq> [] \<longrightarrow> b \<noteq> [])"

definition redis_laws :: "('w, 'j) redis_setup \<Rightarrow> ('w \<Rightarrow> redis_view) \<Rightarrow> bool" where
  "redis_laws K view \<longleftrightarrow> command_laws K view \<and> client_laws K view"

section \<open>Scripts on a view\<close>

lemma apsnd_view:
  assumes "apsnd view p = q"
  shows "fst p = fst q" "view (snd p) = snd q"
  using assms by (cases p; cases q; simp)+

lemma command_lawsD:
  assumes "command_laws K view"
  shows "view (rk_rpush K k x w) = v_rpush k x (view w)"
    "fst (rk_lpop K k w) = fst (v_lpop k (view w))" "view (snd (rk_lpop K k w)) = snd (v_lpop k (view w))"
    "fst (rk_lmove K a b w) = fst (v_lmove a b (view w))" "view (snd (rk_lmove K a b w)) = snd (v_lmove a b (view w))"
    "fst (rk_lrem K k x w) = fst (v_lrem k x (view w))" "view (snd (rk_lrem K k x w)) = snd (v_lrem k x (view w))"
    "view (rk_zadd K k sc m w) = v_zadd k sc m (view w)"
    "fst (rk_zrem K k m w) = fst (v_zrem k m (view w))" "view (snd (rk_zrem K k m w)) = snd (v_zrem k m (view w))"
    "rk_due K k now batch w = zdue now batch (rv_zsets (view w) k)"
    "view (rk_zremrange K k n w) = v_zremrange k n (view w)"
  using assms unfolding command_laws_def by (metis fst_apsnd snd_apsnd)+

lemma client_lawsD:
  assumes "client_laws K view"
  shows "rk_fate K w = (f, w') \<Longrightarrow> view w' = view w" "view (rd_sleep K t w) = view w"
    "view (rk_blpop K k t w) \<in> {view w, snd (v_lpop k (view w))}"
    "rd_token K w = (tok, w') \<Longrightarrow> length tok = 32 \<and> tok \<notin> set (rv_tokens (view w)) \<and>
       view w' = (view w)\<lparr>rv_tokens := tok # rv_tokens (view w)\<rparr>"
    "rk_encode K s = Inr b \<Longrightarrow> s \<noteq> [] \<Longrightarrow> b \<noteq> []"
  using assms unfolding client_laws_def by (metis fst_conv snd_conv)+

lemma view_simps [simp]:
  "rv_lists (put_list k xs v) = (rv_lists v)(k := xs)" "rv_zsets (put_list k xs v) = rv_zsets v"
  "rv_tokens (put_list k xs v) = rv_tokens v"
  "rv_lists (put_zset k z v) = rv_lists v" "rv_zsets (put_zset k z v) = (rv_zsets v)(k := z)"
  "rv_tokens (put_zset k z v) = rv_tokens v"
  by (simp_all add: put_list_def put_zset_def)

lemma set_zput: "set (zput m sc z) = insert (m, sc) {p \<in> set z. fst p \<noteq> m}"
proof -
  define rest where "rest = filter (\<lambda>p. fst p \<noteq> m) z"
  have "set (takeWhile P rest) \<union> set (dropWhile P rest) = set rest" for P
    by (metis set_append takeWhile_dropWhile_id)
  then have "set (zput m sc z) = insert (m, sc) (set rest)"
    by (auto simp: zput_def rest_def [symmetric] Let_def)
  then show ?thesis by (simp add: rest_def)
qed

lemma distinct_zput:
  assumes "distinct (map fst z)"
  shows "distinct (map fst (zput m sc z))"
proof -
  define rest where "rest = filter (\<lambda>p. fst p \<noteq> m) z"
  have r: "distinct (map fst rest)" "m \<notin> fst ` set rest"
    using assms by (auto simp: rest_def distinct_map_filter)
  define P where "P = (\<lambda>p. ranks_before p (m, sc))"
  have "distinct (map fst (takeWhile P rest @ dropWhile P rest))" using r(1) by simp
  moreover have "set rest = set (takeWhile P rest) \<union> set (dropWhile P rest)"
    by (metis set_append takeWhile_dropWhile_id)
  ultimately have "distinct (map fst (takeWhile P rest @ (m, sc) # dropWhile P rest))"
    using r(2) unfolding map_append distinct_append by (auto simp: image_Un)
  then show ?thesis by (simp add: zput_def rest_def [symmetric] P_def Let_def)
qed

lemma mset_zput:
  assumes "m \<notin> fst ` set z"
  shows "mset (zput m sc z) = add_mset (m, sc) (mset z)"
proof -
  from assms have "filter (\<lambda>p. fst p \<noteq> m) z = z" by (auto intro!: filter_True)
  moreover have "mset (takeWhile P z) + mset (dropWhile P z) = mset z" for P
    by (metis mset_append takeWhile_dropWhile_id)
  ultimately show ?thesis by (simp add: zput_def Let_def)
qed

end
