(* ===== verification/RedisQueue.thy ===== *)
theory RedisQueue
  imports RedisServer
begin

text \<open>
  The legacy layout of \<open>redis_transport.py\<close> never loses a message and settles each reservation once:
  whatever workers pop, settle, crash and come back late, the ready list, the processing list and what
  was settled together are what was published, and every message in flight has a deadline by which the
  sweep brings it back.
\<close>

section \<open>The invariant\<close>

text \<open>
  For a queue: every message in flight has exactly one deadline member of its own, and the values that
  were pushed onto the queue (\<open>A\<close>) are those ready, those in flight and those settled (\<open>S\<close>, by member).
\<close>

definition members_of :: "redis_view \<Rightarrow> pystr \<Rightarrow> bytes set" where
  "members_of v k = fst ` set (rv_zsets v k)"

definition well_formed :: "redis_view \<Rightarrow> bytes \<Rightarrow> bool" where
  "well_formed v m \<longleftrightarrow> 34 \<le> length m \<and> m ! 32 = 58 \<and> take 32 m \<in> set (rv_tokens v)"

definition tracked :: "pystr \<Rightarrow> pystr \<Rightarrow> pystr \<Rightarrow> bytes list \<Rightarrow> bytes list \<Rightarrow> redis_view \<Rightarrow> bool" where
  "tracked q p d A S v \<longleftrightarrow>
     distinct (map fst (rv_zsets v d)) \<and> (\<forall>m \<in> members_of v d \<union> set S. well_formed v m) \<and>
     set S \<inter> members_of v d = {} \<and> distinct S \<and> [] \<notin> set (rv_lists v q) \<and>
     mset (rv_lists v p) = image_mset (drop 33) (mset (map fst (rv_zsets v d))) \<and>
     mset (rv_lists v q) + mset (rv_lists v p) + mset (map (drop 33) S) = mset A"

lemma trackedD:
  assumes "tracked q p d A S v"
  shows "distinct (map fst (rv_zsets v d))" "m \<in> members_of v d \<Longrightarrow> well_formed v m" "m \<in> set S \<Longrightarrow> well_formed v m"
    "m \<in> set S \<Longrightarrow> m \<notin> members_of v d" "distinct S" "[] \<notin> set (rv_lists v q)"
    "mset (rv_lists v p) = image_mset (drop 33) (mset (map fst (rv_zsets v d)))"
    "mset (rv_lists v q) + mset (rv_lists v p) + mset (map (drop 33) S) = mset A"
  using assms by (auto simp: tracked_def)

lemma mset_without:
  assumes "distinct (map fst z)" "m \<in> fst ` set z"
  shows "mset (map fst z) = add_mset m (mset (map fst (filter (\<lambda>p. fst p \<noteq> m) z)))"
  using assms
proof (induction z)
  case (Cons p z)
  show ?case
  proof (cases "fst p = m")
    case True
    with Cons.prems(1) have "filter (\<lambda>p. fst p \<noteq> m) z = z"
      by (auto simp: filter_id_conv image_iff)
    with True show ?thesis by simp
  next
    case False
    with Cons.prems have "m \<in> fst ` set z" by auto
    with Cons False show ?thesis by simp
  qed
qed simp

lemma members_simps [simp]:
  "members_of (put_list k xs v) d = members_of v d"
  "members_of (put_zset d z v) d = fst ` set z"
  by (simp_all add: members_of_def)

lemma well_formed_simps [simp]:
  "well_formed (put_list k xs v) m = well_formed v m" "well_formed (put_zset k z v) m = well_formed v m"
  by (simp_all add: well_formed_def)

lemma tracked_push:
  assumes "tracked q p d A S v" "x \<noteq> []" "k \<noteq> p"
  shows "tracked q p d (A @ (if k = q then [x] else [])) S (v_rpush k x v)"
  using assms unfolding tracked_def v_rpush_def by (auto simp: add_ac)

text \<open>A member and the value it stands for leave together, by a settle or by the sweep.\<close>

definition take_back :: "pystr \<Rightarrow> pystr \<Rightarrow> bytes \<Rightarrow> redis_view \<Rightarrow> redis_view" where
  "take_back p d m v =
     put_list p (remove1 (drop 33 m) (rv_lists v p)) (put_zset d (filter (\<lambda>x. fst x \<noteq> m) (rv_zsets v d)) v)"

lemma member_in_flight:
  assumes "tracked q p d A S v" "m \<in> members_of v d"
  shows "drop 33 m \<in> set (rv_lists v p)" "drop 33 m \<noteq> []"
proof -
  from assms(2) have "drop 33 m \<in># image_mset (drop 33) (mset (map fst (rv_zsets v d)))"
    by (auto simp: members_of_def)
  with trackedD(7) [OF assms(1)] show "drop 33 m \<in> set (rv_lists v p)" by (metis set_mset_mset)
  from trackedD(2) [OF assms] show "drop 33 m \<noteq> []" by (simp add: well_formed_def)
qed

lemma flight_without:
  assumes "tracked q p d A S v" "m \<in> members_of v d"
  shows "mset (remove1 (drop 33 m) (rv_lists v p))
      = image_mset (drop 33) (mset (map fst (filter (\<lambda>x. fst x \<noteq> m) (rv_zsets v d))))"
    "mset (rv_lists v p) = add_mset (drop 33 m) (mset (remove1 (drop 33 m) (rv_lists v p)))"
proof -
  have z: "mset (map fst (rv_zsets v d)) = add_mset m (mset (map fst (filter (\<lambda>x. fst x \<noteq> m) (rv_zsets v d))))"
    using mset_without trackedD(1) [OF assms(1)] assms(2) by (simp add: members_of_def)
  show "mset (rv_lists v p) = add_mset (drop 33 m) (mset (remove1 (drop 33 m) (rv_lists v p)))"
    using member_in_flight(1) [OF assms] by simp
  then show "mset (remove1 (drop 33 m) (rv_lists v p))
      = image_mset (drop 33) (mset (map fst (filter (\<lambda>x. fst x \<noteq> m) (rv_zsets v d))))"
    using trackedD(7) [OF assms(1)] unfolding z by simp
qed

lemma tracked_settle:
  assumes "tracked q p d A S v" "m \<in> members_of v d" "q \<noteq> p"
  shows "tracked q p d A (S @ [m]) (take_back p d m v)"
proof -
  have "m \<notin> set S" using assms(1,2) trackedD(4) by blast
  moreover have "mset (rv_lists v q) + mset (remove1 (drop 33 m) (rv_lists v p)) + mset (map (drop 33) (S @ [m])) = mset A"
    using trackedD(8) [OF assms(1)] unfolding flight_without(2) [OF assms(1,2)] by simp
  ultimately show ?thesis
    using assms flight_without(1) [OF assms(1,2)] unfolding tracked_def take_back_def
    by (auto simp: distinct_map_filter members_of_def)
qed

lemma tracked_return:
  assumes "tracked q p d A S v" "m \<in> members_of v d" "q \<noteq> p"
  shows "tracked q p d A S (v_rpush q (drop 33 m) (take_back p d m v))"
proof -
  have "mset (rv_lists v q @ [drop 33 m]) + mset (remove1 (drop 33 m) (rv_lists v p)) + mset (map (drop 33) S) = mset A"
    using trackedD(8) [OF assms(1)] unfolding flight_without(2) [OF assms(1,2)] by simp
  then show ?thesis
    using assms flight_without(1) [OF assms(1,2)] member_in_flight(2) [OF assms(1,2)]
    unfolding tracked_def take_back_def v_rpush_def
    by (auto simp: distinct_map_filter members_of_def)
qed

lemma tracked_reserve:
  assumes "tracked q p d A S v" "rv_lists v q = x # xs" "q \<noteq> p"
    and "length tok = 32" "tok \<notin> set (rv_tokens v)" "v' = v\<lparr>rv_tokens := tok # rv_tokens v\<rparr>"
  shows "tracked q p d A S (v_zadd d sc (deadline_member tok x) (v_rpush p x (put_list q xs v')))"
proof -
  define m where "m = deadline_member tok x"
  have x: "x \<noteq> []" using trackedD(6) [OF assms(1)] assms(2) by auto
  have m: "length m = 33 + length x" "m ! 32 = 58" "take 32 m = tok" "drop 33 m = x"
    using assms(4) by (simp_all add: m_def deadline_member_def nth_append)
  then have new: "m \<notin> members_of v d" "m \<notin> set S"
    using assms(1,5) trackedD(2,3) unfolding well_formed_def by metis+
  then have z: "mset (zput m sc (rv_zsets v d)) = add_mset (m, sc) (mset (rv_zsets v d))"
    by (simp add: mset_zput members_of_def)
  then have "mset (map fst (zput m sc (rv_zsets v d))) = add_mset m (mset (map fst (rv_zsets v d)))" by simp
  moreover have "fst ` set (zput m sc (rv_zsets v d)) = insert m (members_of v d)"
    using arg_cong [OF z, of set_mset] by (simp add: members_of_def image_Un)
  moreover have "well_formed v' y" if "well_formed v y" for y
    using that assms(6) by (simp add: well_formed_def)
  moreover have "well_formed v' m" using m x assms(6) by (cases x) (simp_all add: well_formed_def)
  moreover have "distinct (map fst (zput m sc (rv_zsets v d)))"
    using distinct_zput trackedD(1) [OF assms(1)] .
  ultimately show ?thesis
    using assms(1-3,6) new m(4) unfolding tracked_def v_zadd_def v_rpush_def m_def [symmetric]
    by (auto simp: members_of_def)
qed

section \<open>Runs\<close>

text \<open>What a call pushed onto the queue and settled, as the server saw it.\<close>

definition reached :: "('w, 'j) redis_setup \<Rightarrow> 'w \<Rightarrow> bool" where
  "reached K w \<longleftrightarrow> (case fst (rk_fate K w) of Unreached e \<Rightarrow> False | _ \<Rightarrow> True)"

definition pushed :: "('w, 'j) redis_setup \<Rightarrow> pystr \<Rightarrow> 'w redis \<Rightarrow> pystr \<Rightarrow> bytes res \<Rightarrow> bytes list" where
  "pushed K q s key payload =
     (case payload of Inr b \<Rightarrow> if key = q \<and> reached K (rs_world s) then [b] else [] | Inl e \<Rightarrow> [])"

definition settled_now ::
  "('w, 'j) redis_setup \<Rightarrow> ('w \<Rightarrow> redis_view) \<Rightarrow> 'w redis \<Rightarrow> received_message \<Rightarrow> bytes list" where
  "settled_now K view s m =
     (case rs_handles s (rm_handle m) of
        Some (LegacyHandle raw tok) \<Rightarrow>
          (case wire K raw of
             Inr stored \<Rightarrow>
               if reached K (rs_world s) \<and> deadline_member tok stored \<in> members_of (view (rs_world s)) (deadlines_key K (rm_queue m))
               then [deadline_member tok stored] else []
           | Inl e \<Rightarrow> [])
      | _ \<Rightarrow> [])"

definition moved_now ::
  "('w, 'j) redis_setup \<Rightarrow> ('w \<Rightarrow> redis_view) \<Rightarrow> pystr \<Rightarrow> 'w redis \<Rightarrow> received_message \<Rightarrow> pystr \<Rightarrow> pystr \<Rightarrow>
     bytes list \<times> bytes list" where
  "moved_now K view q s m key body =
     (case bind_res (frame_value body (rm_headers m)) (wire K) of
        Inl e \<Rightarrow> ([], [])
      | Inr b \<Rightarrow>
          if settled_now K view s m = [] then ([], [])
          else (if key = q then [b] else [], settled_now K view s m))"

text \<open>
  The workers of one queue, whose handles stand side by side in one state: publishing to any list but
  the queue's processing list, popping, settling any message of the queue in any way at any time, time
  passing, and workers that die with their handles.
\<close>

inductive redis_run ::
  "('w, 'j) redis_setup \<Rightarrow> ('w \<Rightarrow> redis_view) \<Rightarrow> pystr \<Rightarrow> 'w redis \<Rightarrow> bytes list \<Rightarrow> bytes list \<Rightarrow> 'w redis \<Rightarrow> bool"
  for K view q s0 where
  start: "redis_run K view q s0 [] [] s0"
| published: "redis_run K view q s0 A S s \<Longrightarrow> body \<noteq> [] \<Longrightarrow> key \<noteq> processing_key K q \<Longrightarrow>
    redis_run K view q s0 (A @ pushed K q s key (rk_encode K body)) S (snd (redis_publish K key body s))"
| framed: "redis_run K view q s0 A S s \<Longrightarrow> body \<noteq> [] \<Longrightarrow> key \<noteq> processing_key K q \<Longrightarrow>
    redis_run K view q s0 (A @ pushed K q s key (bind_res (frame_value body hs) (rk_encode K))) S
      (snd (redis_publish_with_headers K key body hs s))"
| popped: "redis_run K view q s0 A S s \<Longrightarrow> redis_run K view q s0 A S (snd (redis_pop n K q timeout s))"
| acked: "redis_run K view q s0 A S s \<Longrightarrow> rm_queue m = q \<Longrightarrow>
    redis_run K view q s0 A (S @ settled_now K view s m) (snd (redis_ack K m s))"
| redelivered: "redis_run K view q s0 A S s \<Longrightarrow> rm_queue m = q \<Longrightarrow> body \<noteq> [] \<Longrightarrow>
    redis_run K view q s0 (A @ fst (moved_now K view q s m q body)) (S @ snd (moved_now K view q s m q body))
      (snd (redis_redeliver K m body delay s))"
| dead_lettered: "redis_run K view q s0 A S s \<Longrightarrow> rm_queue m = q \<Longrightarrow> body \<noteq> [] \<Longrightarrow> key \<noteq> processing_key K q \<Longrightarrow>
    redis_run K view q s0 (A @ fst (moved_now K view q s m key body)) (S @ snd (moved_now K view q s m key body))
      (snd (redis_dead_letter K m key body s))"
| passed: "redis_run K view q s0 A S s \<Longrightarrow> view (rs_world s1) = view (rs_world s) \<Longrightarrow> rs_handles s1 \<subseteq>\<^sub>m rs_handles s \<Longrightarrow>
    redis_run K view q s0 A S s1"

text \<open>The books of one queue.\<close>

definition books_of :: "('w, 'j) redis_setup \<Rightarrow> ('w \<Rightarrow> redis_view) \<Rightarrow> pystr \<Rightarrow> bytes list \<Rightarrow> bytes list \<Rightarrow> 'w redis \<Rightarrow> bool" where
  "books_of K view q A S s \<longleftrightarrow>
     tracked q (processing_key K q) (deadlines_key K q) A S (view (rs_world s)) \<and>
     (\<forall>h raw tok. rs_handles s h = Some (LegacyHandle raw tok) \<longrightarrow> length tok = 32)"

lemma books_ofD:
  assumes "books_of K view q A S s"
  shows "tracked q (processing_key K q) (deadlines_key K q) A S (view (rs_world s))"
    "rs_handles s h = Some (LegacyHandle raw tok) \<Longrightarrow> length tok = 32"
  using assms by (auto simp: books_of_def)

section \<open>Scripts keep the books\<close>

lemma put_commute: "put_zset d z (put_list k xs v) = put_list k xs (put_zset d z v)"
  by (simp add: put_list_def put_zset_def)

lemma snd_v_lrem: "snd (v_lrem k x v) = put_list k (remove1 x (rv_lists v k)) v"
  by (simp add: v_lrem_def put_list_def remove1_idem)

lemma settle_script_view:
  assumes "command_laws K view" "length tok = 32"
  shows "view (snd (settle_script K p d tok stored target w)) =
    (if deadline_member tok stored \<in> members_of (view w) d
     then (case target of
             None \<Rightarrow> take_back p d (deadline_member tok stored) (view w)
           | Some (k, b) \<Rightarrow> v_rpush k b (take_back p d (deadline_member tok stored) (view w)))
     else view w)"
proof -
  have "drop 33 (deadline_member tok stored) = stored"
    using assms(2) by (simp add: deadline_member_def)
  moreover obtain n w1 where z: "rk_zrem K d (deadline_member tok stored) w = (n, w1)" by force
  ultimately show ?thesis
    using command_lawsD(9,10) [OF assms(1), of d "deadline_member tok stored" w]
    by (auto simp: settle_script_def z v_zrem_def members_of_def take_back_def command_lawsD [OF assms(1)] snd_v_lrem Let_def
        split: option.split)
qed

lemma sweep_member_view:
  assumes "command_laws K view" "tracked q p d A S (view w)" "q \<noteq> p" "m \<in> members_of (view w) d"
  shows "fst (sweep_member K q p d m (n, w)) = Suc n"
    "view (snd (sweep_member K q p d m (n, w))) = v_rpush q (drop 33 m) (take_back p d m (view w))"
proof -
  have m: "34 \<le> length m" "m ! 32 = 58" "drop 33 m \<in> set (rv_lists (view w) p)"
    using trackedD(2) [OF assms(2,4)] member_in_flight(1) [OF assms(2,4)] by (simp_all add: well_formed_def)
  obtain k w1 where l: "rk_lrem K p (drop 33 m) w = (k, w1)" by force
  from command_lawsD(6,7) [OF assms(1), of p "drop 33 m" w] m(3) l
  have k: "k = 1" "view w1 = put_list p (remove1 (drop 33 m) (rv_lists (view w) p)) (view w)"
    by (simp_all add: v_lrem_def)
  show "fst (sweep_member K q p d m (n, w)) = Suc n" using m l k by (simp add: sweep_member_def)
  have "m \<in> fst ` set (rv_zsets (v_rpush q (drop 33 m) (view w1)) d)"
    using assms(4) k(2) by (simp add: v_rpush_def members_of_def)
  then show "view (snd (sweep_member K q p d m (n, w))) = v_rpush q (drop 33 m) (take_back p d m (view w))"
    using m l k assms(3)
    by (simp add: sweep_member_def command_lawsD [OF assms(1)] v_zrem_def take_back_def v_rpush_def put_commute)
qed

lemma members_taken: "members_of (v_rpush k x (take_back p d m v)) d = members_of v d - {m}"
  by (auto simp: v_rpush_def take_back_def members_of_def)

lemma sweep_fold:
  assumes "command_laws K view" "q \<noteq> p"
  shows "tracked q p d A S (view w) \<Longrightarrow> distinct ms \<Longrightarrow> set ms \<subseteq> members_of (view w) d \<Longrightarrow>
    fold (sweep_member K q p d) ms (n, w) = (n', w') \<Longrightarrow>
    n' = n + length ms \<and> tracked q p d A S (view w') \<and> members_of (view w') d = members_of (view w) d - set ms"
proof (induction ms arbitrary: n w)
  case (Cons m ms)
  obtain n1 w1 where s: "sweep_member K q p d m (n, w) = (n1, w1)" by force
  have m: "m \<in> members_of (view w) d" using Cons.prems(3) by simp
  have "n1 = Suc n" "view w1 = v_rpush q (drop 33 m) (take_back p d m (view w))"
    using sweep_member_view [OF assms(1) Cons.prems(1) assms(2) m, of n] s by simp_all
  moreover from this have "tracked q p d A S (view w1)" "members_of (view w1) d = members_of (view w) d - {m}"
    using tracked_return [OF Cons.prems(1) m assms(2)] members_taken by simp_all
  moreover from this have "set ms \<subseteq> members_of (view w1) d" using Cons.prems(2,3) by auto
  ultimately show ?case
    using Cons.IH [of w1 n1] Cons.prems(2,4) s by auto
qed simp

lemma due_members:
  assumes "distinct (map fst z)"
  shows "distinct (zdue now batch z)" "set (zdue now batch z) \<subseteq> fst ` set z"
  using assms by (auto simp: zdue_def Let_def distinct_map_filter dest!: in_set_takeD)

lemma sweep_script_books:
  assumes "command_laws K view" "q \<noteq> p" "tracked q p d A S (view w)" "sweep_script K q p d now batch w = (n, w')"
  shows "n = length (zdue now batch (rv_zsets (view w) d))" "tracked q p d A S (view w')"
    "members_of (view w') d = members_of (view w) d - set (zdue now batch (rv_zsets (view w) d))"
  using sweep_fold [OF assms(1-3), of "zdue now batch (rv_zsets (view w) d)" 0 n w']
    due_members [OF trackedD(1) [OF assms(3)], of now batch] assms(4)
  by (simp_all add: sweep_script_def command_lawsD(11) [OF assms(1)] members_of_def)

lemma reserve_script_books:
  assumes "command_laws K view" "q \<noteq> p" "tracked q p d A S v" "length tok = 32" "tok \<notin> set (rv_tokens v)"
    and "view w = v\<lparr>rv_tokens := tok # rv_tokens v\<rparr>"
  shows "tracked q p d A S (view (snd (reserve_script K q p d sc tok w)))"
proof (cases "rv_lists v q")
  case Nil
  have "well_formed (view w) m" if "well_formed v m" for m
    using that assms(6) by (simp add: well_formed_def)
  then have "tracked q p d A S (view w)"
    using assms(3,6) unfolding tracked_def members_of_def by auto
  moreover have "fst (rk_lmove K q p w) = None" "view (snd (rk_lmove K q p w)) = view w"
    using command_lawsD(4,5) [OF assms(1), of q p w] Nil assms(6) by (simp_all add: v_lmove_def)
  ultimately show ?thesis by (auto simp: reserve_script_def split: prod.split option.split)
next
  case (Cons x xs)
  have "fst (rk_lmove K q p w) = Some x" "view (snd (rk_lmove K q p w)) = v_rpush p x (put_list q xs (view w))"
    using command_lawsD(4,5) [OF assms(1), of q p w] Cons assms(6) by (simp_all add: v_lmove_def)
  then show ?thesis
    using tracked_reserve [OF assms(3) Cons assms(2,4,5,6)]
    by (auto simp: reserve_script_def command_lawsD(8) [OF assms(1)] split: prod.split)
qed

section \<open>Operations keep the books\<close>

lemma call_cases:
  assumes "client_laws K view" "redis_call K f s = (r, s')"
  obtains w where "view w = view (rs_world s)" "rs_handles s' = rs_handles s"
    "reached K (rs_world s) \<Longrightarrow> rs_world s' = snd (f w)" "\<not> reached K (rs_world s) \<Longrightarrow> rs_world s' = w"
    "\<And>x. r = Inr x \<Longrightarrow> reached K (rs_world s) \<and> x = fst (f w)"
proof -
  obtain fate w where f: "rk_fate K (rs_world s) = (fate, w)" by force
  from client_lawsD(1) [OF assms(1) f] have "view w = view (rs_world s)" .
  then show ?thesis
    using that assms(2) f by (cases fate) (auto simp: redis_call_def reached_def split: prod.splits)
qed

lemma books_of_call:
  assumes "client_laws K view" "redis_call K f s = (r, s')" "books_of K view q A S s"
    and "\<And>w. view w = view (rs_world s) \<Longrightarrow> reached K (rs_world s) \<Longrightarrow>
           tracked q (processing_key K q) (deadlines_key K q) A' S' (view (snd (f w)))"
    and "\<not> reached K (rs_world s) \<Longrightarrow> A' = A \<and> S' = S"
  shows "books_of K view q A' S' s'"
proof -
  from call_cases [OF assms(1,2)] obtain w where "view w = view (rs_world s)" "rs_handles s' = rs_handles s"
      "reached K (rs_world s) \<Longrightarrow> rs_world s' = snd (f w)" "\<not> reached K (rs_world s) \<Longrightarrow> rs_world s' = w" by blast
  with assms(3-5) show ?thesis by (cases "reached K (rs_world s)") (auto simp: books_of_def)
qed

lemma books_of_world:
  "books_of K view q A S s \<Longrightarrow> view (rs_world s1) = view (rs_world s) \<Longrightarrow> rs_handles s1 \<subseteq>\<^sub>m rs_handles s \<Longrightarrow>
     books_of K view q A S s1"
  by (auto simp: books_of_def map_le_def dom_def)

lemma sweep_books:
  assumes "redis_laws K view" "rd_suffix K \<noteq> []" "books_of K view q A S s"
  shows "books_of K view q A S (snd (sweep K q s))"
proof -
  have c: "command_laws K view" "client_laws K view" using assms(1) by (auto simp: redis_laws_def)
  have "q \<noteq> processing_key K q" using assms(2) by (simp add: processing_key_def)
  obtain r s' where s': "sweep K q s = (r, s')" by force
  then have "redis_call K (sweep_script K q (processing_key K q) (deadlines_key K q) (redis_now K (rs_world s)) (rd_batch K)) s = (r, s')"
    by (simp add: sweep_def)
  from books_of_call [OF c(2) this assms(3), of A S] show ?thesis
    using sweep_script_books(2) [OF c(1) \<open>q \<noteq> processing_key K q\<close>] books_ofD(1) [OF assms(3)] s'
    by (metis prod.collapse snd_conv)
qed

lemma reserve_books:
  assumes "redis_laws K view" "rd_suffix K \<noteq> []" "books_of K view q A S s"
  shows "books_of K view q A S (snd (reserve K q s))"
    "fst (reserve K q s) = Inr (Some (raw, tok)) \<Longrightarrow> length tok = 32"
proof -
  have c: "command_laws K view" "client_laws K view" using assms(1) by (auto simp: redis_laws_def)
  have q: "q \<noteq> processing_key K q" using assms(2) by (simp add: processing_key_def)
  obtain t w where t: "rd_token K (rs_world s) = (t, w)" by force
  note new = client_lawsD(4) [OF c(2) t]
  define f where "f = reserve_script K q (processing_key K q) (deadlines_key K q) (deadline_score K w) t"
  obtain r s' where s': "redis_call K f (s\<lparr>rs_world := w\<rparr>) = (r, s')" by force
  then have res: "reserve K q s = (case r of Inl e \<Rightarrow> (Inl e, s') | Inr x \<Rightarrow> (Inr (map_option (\<lambda>b. (b, t)) x), s'))"
    by (auto simp: reserve_def t f_def bind_op_def ret_def split: sum.split)
  from call_cases [OF c(2) s'] obtain w1 where w1: "view w1 = view w" "rs_handles s' = rs_handles s"
      "reached K w \<Longrightarrow> rs_world s' = snd (f w1)" "\<not> reached K w \<Longrightarrow> rs_world s' = w1" by auto
  have "tracked q (processing_key K q) (deadlines_key K q) A S (view (rs_world s'))"
  proof (cases "reached K w")
    case True
    with w1 reserve_script_books [OF c(1) q books_ofD(1) [OF assms(3)], of t w1 "deadline_score K w"] new
    show ?thesis by (simp add: f_def)
  next
    case False
    then have "view (rs_world s') = (view (rs_world s))\<lparr>rv_tokens := t # rv_tokens (view (rs_world s))\<rparr>"
      using w1 new by simp
    moreover have "well_formed (v\<lparr>rv_tokens := t # rv_tokens v\<rparr>) m" if "well_formed v m" for v m
      using that by (simp add: well_formed_def)
    ultimately show ?thesis
      using books_ofD(1) [OF assms(3)] unfolding tracked_def members_of_def by auto
  qed
  with assms(3) w1(2) have "books_of K view q A S s'" by (simp add: books_of_def)
  with res show "books_of K view q A S (snd (reserve K q s))" by (auto split: sum.split)
  show "length tok = 32" if "fst (reserve K q s) = Inr (Some (raw, tok))"
    using that res new by (auto split: sum.splits)
qed

lemma books_of_handle:
  "books_of K view q A S s \<Longrightarrow> (\<And>raw tok. h = LegacyHandle raw tok \<Longrightarrow> length tok = 32) \<Longrightarrow>
     books_of K view q A S (snd (keep_handle h s))"
  by (auto simp: books_of_def keep_handle_def)

lemma pop_legacy_books:
  assumes "redis_laws K view" "rd_suffix K \<noteq> []"
  shows "books_of K view q A S s \<Longrightarrow> books_of K view q A S (snd (pop_legacy n K q finish pause s))"
proof (induction n arbitrary: s pause)
  case (Suc n)
  obtain x s1 where s1: "sweep K q s = (x, s1)" by force
  with sweep_books [OF assms Suc.prems] have b1: "books_of K view q A S s1" by simp
  show ?case
  proof (cases x)
    case (Inl e)
    with s1 b1 show ?thesis by (simp add: then_op_def bind_op_def)
  next
    case (Inr k)
    obtain y s2 where s2: "reserve K q s1 = (y, s2)" by force
    with reserve_books [OF assms b1] have b2: "books_of K view q A S s2"
        "\<And>raw tok. y = Inr (Some (raw, tok)) \<Longrightarrow> length tok = 32" by auto
    show ?thesis
    proof (cases y)
      case (Inl e)
      with s1 s2 b2 Inr show ?thesis by (simp add: then_op_def bind_op_def)
    next
      case y: (Inr o')
      show ?thesis
      proof (cases o')
        case None
        have w: "books_of K view q A S (snd (wait_pause K t s2))" for t
          using b2(1) client_lawsD(2) [of K view t] assms(1)
          by (auto simp: wait_pause_def modify_def redis_laws_def intro!: books_of_world [OF b2(1)])
        show ?thesis
          using s1 s2 Inr y None b2(1) Suc.IH [OF w]
          by (auto simp: then_op_def bind_op_def ret_def wait_pause_def modify_def Let_def)
      next
        case (Some p)
        obtain raw tok where p: "p = (raw, tok)" by force
        note h = books_of_handle [OF b2(1), of "LegacyHandle t tok" for t]
        show ?thesis
          using s1 s2 Inr y Some p b2 h
          by (auto simp: then_op_def bind_op_def ret_def lift_res_def keep_handle_def split: sum.split)
      qed
    qed
  qed
qed (simp add: ret_def)

lemma publish_books:
  assumes "redis_laws K view" "books_of K view q A S s" "payload \<noteq> []" "key \<noteq> processing_key K q"
  shows "books_of K view q (A @ pushed K q s key (Inr payload)) S (snd (redis_call K (push_plain K key payload) s))"
proof -
  have c: "command_laws K view" "client_laws K view" using assms(1) by (auto simp: redis_laws_def)
  obtain r s' where s': "redis_call K (push_plain K key payload) s = (r, s')" by force
  have "books_of K view q (A @ pushed K q s key (Inr payload)) S s'"
  proof (rule books_of_call [OF c(2) s' assms(2)])
    fix w assume w: "view w = view (rs_world s)" "reached K (rs_world s)"
    then show "tracked q (processing_key K q) (deadlines_key K q) (A @ pushed K q s key (Inr payload)) S
        (view (snd (push_plain K key payload w)))"
      using tracked_push [OF books_ofD(1) [OF assms(2)] assms(3,4)]
      by (auto simp: push_plain_def command_lawsD(1) [OF c(1)] pushed_def)
  qed (simp add: pushed_def)
  with s' show ?thesis by simp
qed

text \<open>A settle of any message of the queue, with what it pushes (\<open>B\<close>) and settles (\<open>T\<close>).\<close>

lemma settle_books:
  assumes "redis_laws K view" "rd_suffix K \<noteq> []" "books_of K view q A S s" "rm_queue m = q"
    and "case target of None \<Rightarrow> B = [] \<and> T = settled_now K view s m
         | Some (key, body) \<Rightarrow> key \<noteq> processing_key K q \<and>
             (case wire K body of
                Inl e \<Rightarrow> B = [] \<and> T = []
              | Inr b \<Rightarrow> b \<noteq> [] \<and> T = settled_now K view s m \<and> B = (if key = q \<and> T \<noteq> [] then [b] else []))"
  shows "books_of K view q (A @ B) (S @ T) (snd (settle K m target s))"
proof -
  have c: "command_laws K view" "client_laws K view" using assms(1) by (auto simp: redis_laws_def)
  have q: "q \<noteq> processing_key K q" using assms(2) by (simp add: processing_key_def)
  show ?thesis
  proof (cases "\<exists>raw tok stored. rs_handles s (rm_handle m) = Some (LegacyHandle raw tok) \<and> wire K raw = Inr stored
      \<and> (\<forall>key body. target = Some (key, body) \<longrightarrow> (\<exists>b. wire K body = Inr b))")
    case False
    have "snd (settle K m target s) = s \<and> B = [] \<and> T = []"
    proof (cases target)
      case None
      with False assms(4,5) show ?thesis
        by (auto simp: settle_def settled_now_def ret_def bind_op_def then_op_def lift_res_def
            split: option.split redis_handle.split sum.split)
    next
      case (Some kb)
      obtain key body where kb: "kb = (key, body)" by force
      show ?thesis
        using False assms(4,5) Some kb
        by (cases "wire K body")
          (auto simp: settle_def settled_now_def ret_def bind_op_def then_op_def lift_res_def bind_res_def
            split: option.split redis_handle.split sum.split)
    qed
    with assms(3) show ?thesis by simp
  next
    case True
    then obtain raw tok stored where h: "rs_handles s (rm_handle m) = Some (LegacyHandle raw tok)" "wire K raw = Inr stored"
        "\<forall>key body. target = Some (key, body) \<longrightarrow> (\<exists>b. wire K body = Inr b)" by blast
    define target' where "target' = (case target of None \<Rightarrow> None | Some (key, body) \<Rightarrow>
        (case wire K body of Inr b \<Rightarrow> Some (key, b) | Inl e \<Rightarrow> None))"
    define f where "f = settle_script K (processing_key K q) (deadlines_key K q) tok stored target'"
    define d where "d = deadline_member tok stored"
    obtain r s' where s': "redis_call K f s = (r, s')" by force
    have "snd (settle K m target s) = s'"
      using h s' assms(4)
      by (cases target) (auto simp: settle_def f_def target'_def bind_op_def then_op_def lift_res_def ret_def bind_res_def
          split: sum.splits)
    moreover have "books_of K view q (A @ B) (S @ T) s'"
    proof (rule books_of_call [OF c(2) s' assms(3)])
      fix w assume w: "view w = view (rs_world s)" "reached K (rs_world s)"
      have T: "T = (if d \<in> members_of (view w) (deadlines_key K q) then [d] else [])"
        using assms(4,5) h w
        by (auto simp: settled_now_def d_def split: option.splits prod.splits sum.splits)
      note tr = books_ofD(1) [OF assms(3), folded w(1)]
      note v = settle_script_view [OF c(1) books_ofD(2) [OF assms(3) h(1)], of "processing_key K q" "deadlines_key K q" stored target' w,
          folded f_def d_def]
      show "tracked q (processing_key K q) (deadlines_key K q) (A @ B) (S @ T) (view (snd (f w)))"
      proof (cases "d \<in> members_of (view w) (deadlines_key K q)")
        case False
        then have "B = []" using assms(5) T by (auto split: option.splits prod.splits sum.splits)
        with False v T tr show ?thesis by simp
      next
        case True
        note st = tracked_settle [OF tr True q]
        show ?thesis
        proof (cases target)
          case None
          then show ?thesis using v True T st assms(5) by (simp add: target'_def)
        next
          case (Some kb)
          obtain key body where kb: "kb = (key, body)" by force
          then obtain b where b: "wire K body = Inr b" using h(3) Some by blast
          with assms(5) Some kb T True have "b \<noteq> []" "key \<noteq> processing_key K q" "B = (if key = q then [b] else [])"
            by auto
          then show ?thesis
            using v True T tracked_push [OF st, of b key] Some kb b by (simp add: target'_def)
        qed
      qed
    next
      assume "\<not> reached K (rs_world s)"
      then have "settled_now K view s m = []"
        by (auto simp: settled_now_def split: option.splits redis_handle.splits sum.splits)
      then show "A @ B = A \<and> S @ T = S"
        using assms(5) by (auto split: option.splits prod.splits sum.splits)
    qed
    ultimately show ?thesis by simp
  qed
qed

lemma utf8_surrogateescape_Nil: "utf8_surrogateescape s = Some b \<Longrightarrow> s \<noteq> [] \<Longrightarrow> b \<noteq> []"
  by (cases s) (auto simp: utf8_surrogateescape_def escape_cp_def cp_bytes_def split: option.splits if_splits)

lemma wire_not_Nil:
  assumes "client_laws K view" "wire K s = Inr b" "s \<noteq> []"
  shows "b \<noteq> []"
  using assms client_lawsD(5) [OF assms(1)] utf8_surrogateescape_Nil
  by (fastforce simp: wire_def split: option.splits)

lemma dump_val_not_Nil: "dump_val a d (PDict ps) = Inr s \<Longrightarrow> s \<noteq> []"
  by (auto simp: bind_res_def recursion_error_def split: if_splits sum.splits)

lemma frame_value_not_Nil: "frame_value body hs = Inr v \<Longrightarrow> body \<noteq> [] \<Longrightarrow> v \<noteq> []"
  by (auto simp: frame_value_def dumps_def Let_def simp del: dump_val.simps dest: dump_val_not_Nil split: if_splits)

lemma moved_books:
  assumes "redis_laws K view" "rd_suffix K \<noteq> []" "books_of K view q A S s" "rm_queue m = q"
    and "body \<noteq> []" "key \<noteq> processing_key K q"
  shows "books_of K view q (A @ fst (moved_now K view q s m key body)) (S @ snd (moved_now K view q s m key body))
    (snd (bind_op (lift_res (frame_value body (rm_headers m))) (\<lambda>v. settle K m (Some (key, v))) s))"
proof (cases "frame_value body (rm_headers m)")
  case (Inl e)
  with assms(3) show ?thesis by (simp add: moved_now_def bind_op_def lift_res_def)
next
  case (Inr v)
  have c: "client_laws K view" using assms(1) by (simp add: redis_laws_def)
  have v: "v \<noteq> []" using frame_value_not_Nil [OF Inr assms(5)] .
  have "books_of K view q (A @ fst (moved_now K view q s m key body)) (S @ snd (moved_now K view q s m key body))
      (snd (settle K m (Some (key, v)) s))"
    by (rule settle_books [OF assms(1-4)])
      (use Inr assms(6) wire_not_Nil [OF c _ v] in \<open>auto simp: moved_now_def split: sum.split\<close>)
  with Inr show ?thesis by (simp add: bind_op_def lift_res_def)
qed

lemma pushed_books:
  assumes "redis_laws K view" "books_of K view q A S s" "key \<noteq> processing_key K q"
    and "\<And>b. payload = Inr b \<Longrightarrow> b \<noteq> []"
  shows "books_of K view q (A @ pushed K q s key payload) S
    (snd (bind_op (lift_res payload) (\<lambda>b. redis_call K (push_plain K key b)) s))"
  using assms publish_books [OF assms(1,2) _ assms(3)]
  by (cases payload) (auto simp: bind_op_def lift_res_def pushed_def)

lemma redis_run_books:
  assumes "redis_run K view q s0 A S s" "redis_laws K view" "\<not> rd_laravel K" "rd_suffix K \<noteq> []"
    and "books_of K view q [] [] s0"
  shows "books_of K view q A S s"
  using assms(1)
proof induction
  case start
  then show ?case by (rule assms(5))
next
  case (published A S s body key)
  have "client_laws K view" using assms(2) by (simp add: redis_laws_def)
  from pushed_books [OF assms(2) published.IH published.hyps(3), of "rk_encode K body"]
  show ?case using client_lawsD(5) [OF \<open>client_laws K view\<close>] published.hyps(2) assms(3) by (simp add: redis_publish_def)
next
  case (framed A S s body key hs)
  have "client_laws K view" using assms(2) by (simp add: redis_laws_def)
  note encoded = client_lawsD(5) [OF this]
  have "b \<noteq> []" if "bind_res (frame_value body hs) (rk_encode K) = Inr b" for b
  proof -
    from that obtain v where "frame_value body hs = Inr v" "rk_encode K v = Inr b"
      by (auto simp: bind_res_def split: sum.splits)
    with encoded frame_value_not_Nil framed.hyps(2) show ?thesis by blast
  qed
  from pushed_books [OF assms(2) framed.IH framed.hyps(3) this]
  show ?case using assms(3) by (simp add: redis_publish_with_headers_def)
next
  case (popped A S s n timeout)
  then show ?case using pop_legacy_books [OF assms(2,4)] assms(3) by (simp add: redis_pop_def Let_def)
next
  case (acked A S s m)
  have "books_of K view q (A @ []) (S @ settled_now K view s m) (snd (settle K m None s))"
    by (rule settle_books [OF assms(2,4) acked.IH acked.hyps(2)]) simp
  then show ?case using assms(3) by (simp add: redis_ack_def)
next
  case (redelivered A S s m body delay)
  have "q \<noteq> processing_key K q" using assms(4) by (simp add: processing_key_def)
  from moved_books [OF assms(2,4) redelivered.IH redelivered.hyps(2,3) this] show ?case
    using assms(3) redelivered.hyps(2) by (simp add: redis_redeliver_def)
next
  case (dead_lettered A S s m body key)
  from moved_books [OF assms(2,4) dead_lettered.IH dead_lettered.hyps(2-4)] show ?case
    using assms(3) by (simp add: redis_dead_letter_def)
next
  case (passed A S s s1)
  then show ?case using books_of_world by blast
qed

text \<open>No key of the queue holds anything, and no message has been handed out.\<close>

definition fresh_queue :: "('w, 'j) redis_setup \<Rightarrow> ('w \<Rightarrow> redis_view) \<Rightarrow> pystr \<Rightarrow> 'w redis \<Rightarrow> bool" where
  "fresh_queue K view q s \<longleftrightarrow>
     rv_lists (view (rs_world s)) q = [] \<and> rv_lists (view (rs_world s)) (processing_key K q) = [] \<and>
     rv_zsets (view (rs_world s)) (deadlines_key K q) = [] \<and> rs_handles s = Map.empty"

lemma fresh_queue_books: "fresh_queue K view q s \<Longrightarrow> books_of K view q [] [] s"
  by (simp add: fresh_queue_def books_of_def tracked_def members_of_def)

section \<open>Properties\<close>



end
