(* ===== verification/RedisDemo.thy ===== *)
theory RedisDemo
  imports RedisQueue
begin

text \<open>
  A small Redis server that does what the commands are documented to do, to run the transport on: the
  witnesses of the Redis properties, and the empty value that the sweep cannot bring back.
\<close>

record redis_world =
  rw_view :: redis_view
  rw_clock :: rat

definition on_view :: "(redis_view \<Rightarrow> redis_view) \<Rightarrow> redis_world \<Rightarrow> redis_world" where
  "on_view f w = w\<lparr>rw_view := f (rw_view w)\<rparr>"

definition from_view :: "(redis_view \<Rightarrow> 'a \<times> redis_view) \<Rightarrow> redis_world \<Rightarrow> 'a \<times> redis_world" where
  "from_view f w = (case f (rw_view w) of (x, v) \<Rightarrow> (x, w\<lparr>rw_view := v\<rparr>))"

text \<open>A token that no earlier one equals.\<close>

definition next_token :: "bytes list \<Rightarrow> bytes" where
  "next_token tokens = replicate 31 48 @ [49 + sum_list (map sum_list tokens)]"

definition redis_demo :: "(redis_world, bytes) redis_setup" where
  "redis_demo =
     \<lparr>rk_fate = (\<lambda>w. (Served, w)),
      rk_encode = (\<lambda>s. case utf8_surrogateescape s of
          Some b \<Rightarrow> Inr b | None \<Rightarrow> Inl (Exc UnicodeEncodeError (u ''surrogates not allowed''))),
      rk_reply = (\<lambda>b. Inr (RawBytes b)),
      rk_rpush = (\<lambda>k x. on_view (v_rpush k x)), rk_lpop = (\<lambda>k. from_view (v_lpop k)),
      rk_lmove = (\<lambda>a b. from_view (v_lmove a b)), rk_lrem = (\<lambda>k x. from_view (v_lrem k x)),
      rk_zadd = (\<lambda>k sc m. on_view (v_zadd k sc m)), rk_zrem = (\<lambda>k m. from_view (v_zrem k m)),
      rk_due = (\<lambda>k now batch w. zdue now batch (rv_zsets (rw_view w) k)),
      rk_zremrange = (\<lambda>k n. on_view (v_zremrange k n)),
      rk_blpop = (\<lambda>k t w. w), rk_close = (\<lambda>w. w),
      rk_cjson_decode = (\<lambda>b. None), rk_bump = (\<lambda>j. None), rk_cjson_encode = (\<lambda>j. Some j),
      rd_laravel = False, rd_prefix = u ''queues:'', rd_suffix = u '':processing'', rd_retry_after = Some 90,
      rd_batch = - 1, rd_block_for = None, rd_clock = rw_clock, rd_monotonic = (\<lambda>w. 0), rd_sleep = (\<lambda>t w. w),
      rd_token = (\<lambda>w. let t = next_token (rv_tokens (rw_view w))
                       in (t, on_view (\<lambda>v. v\<lparr>rv_tokens := t # rv_tokens v\<rparr>) w))\<rparr>"

lemma member_sum: "x \<in> set xs \<Longrightarrow> sum_list x \<le> sum_list (map sum_list xs)" for x :: "nat list"
  by (induction xs) auto

lemma next_token_fresh: "next_token tokens \<notin> set tokens" "length (next_token tokens) = 32"
proof -
  show "next_token tokens \<notin> set tokens"
    using member_sum [of "next_token tokens" tokens] by (auto simp: next_token_def)
qed (simp add: next_token_def)

lemma redis_demo_laws: "redis_laws redis_demo rw_view"
proof -
  have "command_laws redis_demo rw_view"
    by (auto simp: command_laws_def redis_demo_def on_view_def from_view_def split: prod.splits)
  moreover have "client_laws redis_demo rw_view"
    using utf8_surrogateescape_Nil next_token_fresh
    by (auto simp: client_laws_def redis_demo_def on_view_def Let_def split: option.splits)
  ultimately show ?thesis by (simp add: redis_laws_def)
qed

definition redis_empty :: "redis_world redis" where
  "redis_empty =
     \<lparr>rs_world = \<lparr>rw_view = \<lparr>rv_lists = (\<lambda>k. []), rv_zsets = (\<lambda>k. []), rv_tokens = []\<rparr>, rw_clock = 0\<rparr>,
      rs_handles = Map.empty, rs_next = 1\<rparr>"

abbreviation jobs :: pystr where
  "jobs \<equiv> u ''jobs''"

definition redis_demo_body :: pystr where
  "redis_demo_body = u ''{\"job\":\"urn:a\"}''"

text \<open>One worker takes the message and does not come back in time; a second one is given it again.\<close>

definition redis_published :: "redis_world redis" where
  "redis_published = snd (redis_publish redis_demo jobs redis_demo_body redis_empty)"

definition redis_taken :: "redis_world redis" where
  "redis_taken = snd (redis_pop 1 redis_demo jobs 0 redis_published)"

definition redis_late :: "redis_world redis" where
  "redis_late = redis_taken\<lparr>rs_world := (rs_world redis_taken)\<lparr>rw_clock := 100\<rparr>\<rparr>"

definition redis_again :: "redis_world redis" where
  "redis_again = snd (redis_pop 1 redis_demo jobs 0 redis_late)"

definition redis_message :: "nat \<Rightarrow> received_message" where
  "redis_message h =
     \<lparr>rm_body = redis_demo_body, rm_queue = jobs, rm_handle = h, rm_headers = [], rm_route = Route [],
      rm_key = None, rm_native_attempts = 0\<rparr>"

definition redis_late_ack :: "redis_world redis" where
  "redis_late_ack = snd (redis_ack redis_demo (redis_message 1) redis_again)"

definition redis_acked :: "redis_world redis" where
  "redis_acked = snd (redis_ack redis_demo (redis_message 2) redis_late_ack)"

lemma redis_demo_settles:
  "settled_now redis_demo rw_view redis_again (redis_message 1) = []"
  "settled_now redis_demo rw_view redis_late_ack (redis_message 2) = [deadline_member (next_token [next_token []]) redis_demo_body]"
  "rv_lists (rw_view (rs_world redis_acked)) jobs = []"
  "rv_lists (rw_view (rs_world redis_acked)) (processing_key redis_demo jobs) = []"
  "rv_lists (rw_view (rs_world redis_late_ack)) (processing_key redis_demo jobs) = [redis_demo_body]"
  "pushed redis_demo jobs redis_empty jobs (rk_encode redis_demo redis_demo_body) = [redis_demo_body]"
  by code_simp+

lemma redis_demo_runs:
  "redis_run redis_demo rw_view jobs redis_empty [redis_demo_body] [] redis_late"
  "redis_run redis_demo rw_view jobs redis_empty [redis_demo_body]
     [deadline_member (next_token [next_token []]) redis_demo_body] redis_acked"
proof -
  have "redis_run redis_demo rw_view jobs redis_empty ([] @ pushed redis_demo jobs redis_empty jobs (rk_encode redis_demo redis_demo_body)) []
      redis_published"
    unfolding redis_published_def
    by (rule redis_run.published [OF redis_run.start]) (simp_all add: redis_demo_body_def redis_demo_def processing_key_def u_def)
  then have "redis_run redis_demo rw_view jobs redis_empty [redis_demo_body] [] redis_published"
    by (simp add: redis_demo_settles)
  then have "redis_run redis_demo rw_view jobs redis_empty [redis_demo_body] [] redis_taken"
    unfolding redis_taken_def by (rule redis_run.popped)
  then show late: "redis_run redis_demo rw_view jobs redis_empty [redis_demo_body] [] redis_late"
    by (rule redis_run.passed) (simp_all add: redis_late_def)
  then have "redis_run redis_demo rw_view jobs redis_empty [redis_demo_body] [] redis_again"
    unfolding redis_again_def by (rule redis_run.popped)
  note again = this
  have jobs: "rm_queue (redis_message h) = jobs" for h by (simp add: redis_message_def)
  from redis_run.acked [OF again jobs [of 1], folded redis_late_ack_def, unfolded redis_demo_settles(1) append_Nil2]
  have "redis_run redis_demo rw_view jobs redis_empty [redis_demo_body] [] redis_late_ack" .
  from redis_run.acked [OF this jobs [of 2], folded redis_acked_def, unfolded redis_demo_settles(2) append_Nil]
  show "redis_run redis_demo rw_view jobs redis_empty [redis_demo_body]
     [deadline_member (next_token [next_token []]) redis_demo_body] redis_acked" .
qed

lemma redis_demo_start: "fresh_queue redis_demo rw_view jobs redis_empty" "\<not> rd_laravel redis_demo" "rd_suffix redis_demo \<noteq> []"
  by (simp_all add: fresh_queue_def redis_empty_def redis_demo_def u_def)


definition redis_swept :: "nat res \<times> redis_world redis" where
  "redis_swept = sweep redis_demo jobs redis_late"

lemma redis_demo_late:
  "fst redis_swept = Inr 1" "rd_batch redis_demo = - 1"
  "list_all (\<lambda>p. lapsed (redis_now redis_demo (rs_world redis_late)) (snd p))
     (rv_zsets (rw_view (rs_world redis_late)) (deadlines_key redis_demo jobs))"
  "rv_lists (rw_view (rs_world redis_late)) (processing_key redis_demo jobs) = [redis_demo_body]"
  "rv_lists (rw_view (rs_world redis_late)) jobs = []"
  by code_simp+


section \<open>An empty value\<close>

definition redis_void :: "redis_world redis" where
  "redis_void =
     (let taken = snd (redis_pop 1 redis_demo jobs 0 (snd (redis_publish redis_demo jobs [] redis_empty)))
      in snd (sweep redis_demo jobs (taken\<lparr>rs_world := (rs_world taken)\<lparr>rw_clock := 100\<rparr>\<rparr>)))"


end
