(* ===== verification/Sqs.thy ===== *)
theory Sqs
  imports Kafka Redis
begin

text \<open>
  \<open>sqs_transport.py\<close>: the envelope projected onto message attributes, the attempts reconciled with the
  number of deliveries the broker counted, and the transport, which hands a message back by its
  visibility timeout. The client library is a record of operations on its own world.
\<close>

section \<open>Values\<close>

datatype sqs_attribute = SqsString pystr | SqsNumber pystr

definition MAX_VISIBILITY_TIMEOUT :: int where
  "MAX_VISIBILITY_TIMEOUT = 43200"

definition MAX_PUBLISH_DELAY :: int where
  "MAX_PUBLISH_DELAY = 900"

text \<open>\<open>int(x)\<close> of a number truncates; the delays of the runtime are finite.\<close>

definition trunc_rat :: "rat \<Rightarrow> int" where
  "trunc_rat x = (if x < 0 then \<lceil>x\<rceil> else \<lfloor>x\<rfloor>)"

definition visibility_seconds :: "rat \<Rightarrow> int" where
  "visibility_seconds delay = max 0 (min (trunc_rat delay) MAX_VISIBILITY_TIMEOUT)"

definition attribute_if :: "bool \<Rightarrow> string \<Rightarrow> sqs_attribute \<Rightarrow> (pystr \<times> sqs_attribute) list" where
  "attribute_if c name a = (if c then [(u name, a)] else [])"

definition sqs_attributes :: "pystr \<Rightarrow> (pystr \<times> sqs_attribute) list res" where
  "sqs_attributes body =
     bind_res (parse_envelope body) (\<lambda>env.
     bind_res (meta_or_empty env) (\<lambda>meta.
       let s = (\<lambda>v. SqsString (py_str v)); n = (\<lambda>v. SqsNumber (py_str v));
           job = get_or_none env (u ''job''); trace = get_or_none env (u ''trace_id'');
           id = get_or_none meta (u ''id''); version = get_or_none meta (u ''schema_version'');
           lang = get_or_none meta (u ''lang''); created = get_or_none meta (u ''created_at'')
       in Inr (attribute_if (truthy job) ''bq-job'' (s job)
               @ attribute_if (truthy trace) ''bq-trace-id'' (s trace)
               @ attribute_if (truthy id) ''bq-message-id'' (s id)
               @ attribute_if (version \<noteq> PNone) ''bq-schema-version'' (n version)
               @ attribute_if (truthy lang) ''bq-source-lang'' (s lang)
               @ attribute_if (created \<noteq> PNone) ''bq-created-at'' (n created))))"

text \<open>A blank header or one the contract owns is skipped; the table ends at ten.\<close>

fun merge_attributes :: "(pystr \<times> sqs_attribute) list \<Rightarrow> headers \<Rightarrow> (pystr \<times> sqs_attribute) list" where
  "merge_attributes merged [] = merged"
| "merge_attributes merged ((key, v) # hs) =
     (if key = [] \<or> v = [] \<or> dhas key merged then merge_attributes merged hs
      else if 10 \<le> length merged then merged
      else merge_attributes (merged @ [(key, SqsString v)]) hs)"

text \<open>\<open>int(env.get("attempts", 0))\<close>.\<close>

definition counted_attempts :: "pyval dict \<Rightarrow> int res" where
  "counted_attempts env = py_int (case dget env (u ''attempts'') of None \<Rightarrow> PInt 0 | Some v \<Rightarrow> v)"

definition sqs_reconcile :: "pystr \<Rightarrow> pystr \<Rightarrow> pystr res" where
  "sqs_reconcile body receive_count =
     (case int_of_str receive_count of
        Inl e \<Rightarrow> Inr body
      | Inr rc \<Rightarrow>
          if rc \<le> 1 then Inr body
          else bind_res (parse_envelope body) (\<lambda>env.
                 if env = [] then Inr body
                 else bind_res (counted_attempts env) (\<lambda>attempts.
                        if rc - 1 \<le> attempts then Inr body
                        else bind_res (fst (decode_lenient body)) (\<lambda>reencoded.
                               encode (dset (u ''attempts'') (PInt (rc - 1)) reencoded)))))"

definition sqs_native_attempts :: "pystr option \<Rightarrow> int" where
  "sqs_native_attempts receive_count =
     (case receive_count of
        None \<Rightarrow> 0
      | Some c \<Rightarrow> (case int_of_str c of Inl e \<Rightarrow> 0 | Inr rc \<Rightarrow> max (rc - 1) 0))"

text \<open>Received attributes: the \<open>StringValue\<close> of each, where it has one.\<close>

type_synonym sqs_received_attributes = "(pystr \<times> pystr option) list"

definition sqs_unsupported_version :: "sqs_received_attributes \<Rightarrow> pystr option" where
  "sqs_unsupported_version attributes =
     (case map_of attributes (u ''bq-schema-version'') of
        Some (Some raw) \<Rightarrow>
          if set raw \<subseteq> set ASCII_WHITESPACE \<or> raw = int_str SCHEMA_VERSION then None else Some raw
      | _ \<Rightarrow> None)"

definition message_attribute_headers :: "sqs_received_attributes \<Rightarrow> headers" where
  "message_attribute_headers attributes =
     List.map_filter (\<lambda>(k, v). map_option (\<lambda>t. (k, t)) v) attributes"

section \<open>State\<close>

record sqs_params =
  sp_url :: pystr
  sp_body :: pystr
  sp_delay :: "int option"
  sp_attributes :: "(pystr \<times> sqs_attribute) list"
  sp_group :: "pystr option"
  sp_dedup :: "pyval option"

record sqs_message =
  sm_body :: pystr
  sm_count :: "pystr option"
  sm_attributes :: sqs_received_attributes
  sm_handle :: pystr

text \<open>
  The client (boto3): \<open>sc_receive url wait visibility\<close> asks for one message with all its attributes. A
  message without a receipt handle has the empty one.
\<close>

record 'w sqs_setup =
  sc_url :: "pystr \<Rightarrow> ('w, pystr) op"
  sc_send :: "sqs_params \<Rightarrow> ('w, unit) op"
  sc_receive :: "pystr \<Rightarrow> int \<Rightarrow> int option \<Rightarrow> ('w, sqs_message option) op"
  sc_delete :: "pystr \<Rightarrow> pystr \<Rightarrow> ('w, unit) op"
  sc_visibility :: "pystr \<Rightarrow> pystr \<Rightarrow> int \<Rightarrow> ('w, unit) op"
  sc_prefix :: "pystr option"
  sc_wait_time :: "int option"
  sc_visibility_timeout :: "int option"
  sc_fifo :: bool
  sc_group :: "pystr option"
  sc_content_dedup :: bool

text \<open>
  \<open>__init__\<close>: an argument that is given wins over the query of the URL; a wait or a timeout in the URL that
  is no integer is as good as absent. The client is built for the region of the host name and for the
  endpoint, where there are any.
\<close>

definition str_or :: "pystr option \<Rightarrow> pystr option \<Rightarrow> pystr option" where
  "str_or x y = (case x of None \<Rightarrow> y | Some s \<Rightarrow> if s = [] then y else Some s)"

definition qint :: "pystr list dict \<Rightarrow> pystr \<Rightarrow> int option" where
  "qint q key =
     (case q1 q key of
        None \<Rightarrow> None
      | Some v \<Rightarrow> (case int_of_str v of Inr i \<Rightarrow> Some i | Inl e \<Rightarrow> None))"

definition int_or :: "int option \<Rightarrow> int option \<Rightarrow> int option" where
  "int_or x y = (case x of None \<Rightarrow> y | Some i \<Rightarrow> Some i)"

definition init_sqs ::
  "'w sqs_setup \<Rightarrow> pystr list dict \<Rightarrow> pystr option \<Rightarrow> int option \<Rightarrow> int option \<Rightarrow> bool \<Rightarrow> pystr option \<Rightarrow> bool
     \<Rightarrow> 'w sqs_setup" where
  "init_sqs client q queue_url_prefix wait_time visibility_timeout is_fifo message_group_id content_dedup =
     client\<lparr>sc_prefix := str_or queue_url_prefix (q1 q (u ''prefix'')),
            sc_wait_time := int_or wait_time (qint q (u ''wait_time'')),
            sc_visibility_timeout := int_or visibility_timeout (qint q (u ''visibility_timeout'')),
            sc_fifo := is_fifo \<or> qbool q (u ''fifo''),
            sc_group := str_or message_group_id (q1 q (u ''group_id'')),
            sc_content_dedup := content_dedup \<or> qbool q (u ''content_dedup'')\<rparr>"

definition sqs_client_kwargs ::
  "pystr option \<Rightarrow> pystr list dict \<Rightarrow> pystr option \<Rightarrow> pystr option \<Rightarrow> (pystr \<times> pystr) list" where
  "sqs_client_kwargs hostname q region endpoint =
     (case str_or region (str_or hostname None) of None \<Rightarrow> [] | Some r \<Rightarrow> if r = [] then [] else [(u ''region_name'', r)])
     @ (case str_or endpoint (q1 q (u ''endpoint'')) of None \<Rightarrow> [] | Some e \<Rightarrow> if e = [] then [] else [(u ''endpoint_url'', e)])"

record 'w sqs =
  sq_world :: 'w
  sq_urls :: "pystr dict"
  sq_uncounted :: "pystr list"
  sq_handles :: "nat \<Rightarrow> pystr"
  sq_next :: nat

definition sqs_client :: "('w, 'a) op \<Rightarrow> ('w sqs, 'a) op" where
  "sqs_client f = (\<lambda>s. case f (sq_world s) of (r, w) \<Rightarrow> (r, s\<lparr>sq_world := w\<rparr>))"

fun rstrip_slash :: "pystr \<Rightarrow> pystr" where
  "rstrip_slash s = rev (dropWhile (\<lambda>c. c = 47) (rev s))"

definition resolve_url :: "'w sqs_setup \<Rightarrow> pystr \<Rightarrow> ('w sqs, pystr) op" where
  "resolve_url K name =
     (\<lambda>s. case dget (sq_urls s) name of
            Some cached \<Rightarrow> ret cached s
          | None \<Rightarrow>
              bind_op (case sc_prefix K of
                         Some p \<Rightarrow> if p = [] then sqs_client (sc_url K name) else ret (rstrip_slash p @ u ''/'' @ name)
                       | None \<Rightarrow> sqs_client (sc_url K name)) (\<lambda>url.
                then_op (modify (\<lambda>s. s\<lparr>sq_urls := dset name url (sq_urls s)\<rparr>)) (ret url)) s)"

section \<open>Operations\<close>

definition checked_delay :: "bool \<Rightarrow> pyval \<Rightarrow> int option res" where
  "checked_delay is_fifo delay =
     (case delay of
        PNone \<Rightarrow> Inr None
      | PInt d \<Rightarrow>
          if is_fifo then Inl (Exc BabelQueueError (u ''SQS FIFO queues do not support a per-message delay''))
          else if d < 0 \<or> MAX_PUBLISH_DELAY < d
          then Inl (Exc BabelQueueError (u ''SQS delay_seconds is outside 0..900''))
          else Inr (if 0 < d then Some d else None)
      | _ \<Rightarrow> Inl (Exc BabelQueueError (u ''SQS delay_seconds must be an integer'')))"

definition dedup_id :: "'w sqs_setup \<Rightarrow> pystr \<Rightarrow> pyval option res" where
  "dedup_id K body =
     (if \<not> sc_fifo K \<or> sc_content_dedup K then Inr None
      else bind_res (parse_envelope body) (\<lambda>env.
           bind_res (meta_or_empty env) (\<lambda>meta.
             Inr (if truthy (get_or_none meta (u ''id'')) then Some (get_or_none meta (u ''id'')) else None))))"

definition sqs_send :: "'w sqs_setup \<Rightarrow> pystr \<Rightarrow> pystr \<Rightarrow> headers \<Rightarrow> pyval \<Rightarrow> ('w sqs, unit) op" where
  "sqs_send K queue body headers delay =
     bind_op (resolve_url K queue) (\<lambda>url.
     bind_op (lift_res (checked_delay (sc_fifo K) delay)) (\<lambda>d.
     bind_op (lift_res (sqs_attributes body)) (\<lambda>contract.
     bind_op (lift_res (dedup_id K body)) (\<lambda>dedup.
       sqs_client (sc_send K
         \<lparr>sp_url = url, sp_body = body, sp_delay = d, sp_attributes = merge_attributes contract headers,
          sp_group = (if sc_fifo K then Some (case sc_group K of Some g \<Rightarrow> if g = [] then queue else g | None \<Rightarrow> queue) else None),
          sp_dedup = dedup\<rparr>)))))"

definition sqs_publish :: "'w sqs_setup \<Rightarrow> pystr \<Rightarrow> pystr \<Rightarrow> pyval \<Rightarrow> ('w sqs, unit) op" where
  "sqs_publish K queue body delay = sqs_send K queue body [] delay"

definition sqs_publish_with_headers :: "'w sqs_setup \<Rightarrow> pystr \<Rightarrow> pystr \<Rightarrow> headers \<Rightarrow> ('w sqs, unit) op" where
  "sqs_publish_with_headers K queue body headers = sqs_send K queue body headers PNone"

definition sqs_wait :: "'w sqs_setup \<Rightarrow> rat \<Rightarrow> int" where
  "sqs_wait K timeout =
     (let wait = (if 0 < timeout then min (trunc_rat timeout) 20 else 0)
      in case sc_wait_time K of Some t \<Rightarrow> if t < wait then t else wait | None \<Rightarrow> wait)"

text \<open>The message built from what was received.\<close>

definition sqs_received :: "pystr \<Rightarrow> nat \<Rightarrow> sqs_message \<Rightarrow> received_message res" where
  "sqs_received queue h m =
     (let unsupported = truncate_declared_version (sqs_unsupported_version (sm_attributes m))
      in bind_res (case (unsupported, sm_count m) of
                     (None, Some count) \<Rightarrow> sqs_reconcile (sm_body m) count
                   | _ \<Rightarrow> Inr (sm_body m)) (\<lambda>body.
         bind_res (case unsupported of
                     None \<Rightarrow> Inr []
                   | Some v \<Rightarrow> bind_res (quote v) (\<lambda>q. Inr (UNSUPPORTED_SCHEMA_ROUTE_PREFIX @ q))) (\<lambda>r.
           Inr \<lparr>rm_body = body, rm_queue = queue, rm_handle = h,
                rm_headers = message_attribute_headers (sm_attributes m), rm_route = Route r, rm_key = None,
                rm_native_attempts = sqs_native_attempts (sm_count m)\<rparr>)))"

definition sqs_pop :: "'w sqs_setup \<Rightarrow> pystr \<Rightarrow> rat \<Rightarrow> ('w sqs, received_message option) op" where
  "sqs_pop K queue timeout =
     bind_op (resolve_url K queue) (\<lambda>url.
     bind_op (sqs_client (sc_receive K url (sqs_wait K timeout) (sc_visibility_timeout K))) (\<lambda>r.
       case r of
         None \<Rightarrow> ret None
       | Some m \<Rightarrow>
           bind_op (\<lambda>s. (sqs_received queue (sq_next s) m, s)) (\<lambda>received.
             then_op (modify (\<lambda>s. s\<lparr>sq_handles := (sq_handles s)(sq_next s := sm_handle m), sq_next := Suc (sq_next s),
                                   sq_uncounted := (if sm_handle m \<noteq> [] \<and> sm_count m = None
                                                    then List.insert (sm_handle m) (sq_uncounted s) else sq_uncounted s)\<rparr>))
               (ret (Some received)))))"

definition discard_handle :: "pystr \<Rightarrow> ('w sqs, unit) op" where
  "discard_handle h = modify (\<lambda>s. s\<lparr>sq_uncounted := removeAll h (sq_uncounted s)\<rparr>)"

definition sqs_ack :: "'w sqs_setup \<Rightarrow> received_message \<Rightarrow> ('w sqs, unit) op" where
  "sqs_ack K m =
     (\<lambda>s. let h = sq_handles s (rm_handle m)
          in if h = [] then ret () s
             else then_op (discard_handle h)
                    (bind_op (resolve_url K (rm_queue m)) (\<lambda>url. sqs_client (sc_delete K url h))) s)"

definition sqs_dead_letter_queue_name :: "pystr \<Rightarrow> pystr option \<Rightarrow> pystr res" where
  "sqs_dead_letter_queue_name queue suffix =
     (let sfx = (case suffix of Some x \<Rightarrow> if x = [] then u ''-dlq'' else x | None \<Rightarrow> u ''-dlq'')
      in Inr (if ends_with (u ''.fifo'') queue then take (length queue - 5) queue @ sfx @ u ''.fifo'' else queue @ sfx))"

definition sqs_settle_native :: "'w sqs_setup \<Rightarrow> received_message \<Rightarrow> pystr \<Rightarrow> pystr \<Rightarrow> ('w sqs, unit) op" where
  "sqs_settle_native K m reason description =
     (\<lambda>s. let h = sq_handles s (rm_handle m) in if h = [] then ret () s else discard_handle h s)"

text \<open>The body is not sent again: the broker counts the deliveries.\<close>

definition sqs_redeliver :: "'w sqs_setup \<Rightarrow> received_message \<Rightarrow> pystr \<Rightarrow> rat \<Rightarrow> ('w sqs, unit) op" where
  "sqs_redeliver K m body delay =
     (\<lambda>s. let h = sq_handles s (rm_handle m)
          in if h = [] then ret () s
             else then_op (discard_handle h)
                    (bind_op (resolve_url K (rm_queue m)) (\<lambda>url. sqs_client (sc_visibility K url h (visibility_seconds delay)))) s)"

definition sqs_transport :: "'w sqs_setup \<Rightarrow> 'w sqs transport" where
  "sqs_transport K =
     \<lparr>t_publish = (\<lambda>q body. sqs_publish K q body PNone),
      t_pop = (\<lambda>q. sqs_pop K q 1),
      t_ack = sqs_ack K,
      t_close = ret (),
      t_classifies_poison = False,
      t_publish_with_headers = Some (sqs_publish_with_headers K),
      t_publish_routed = None, t_publish_settle = None, t_publish_redriven = None,
      t_redeliver = Some (sqs_redeliver K),
      t_dead_letter = None, t_rewind = None,
      t_dead_letter_queue_name = Some sqs_dead_letter_queue_name, t_abandon = None,
      t_settle_native = Some (sqs_settle_native K), t_settle_native_dead_letter = None,
      t_pop_batch = None, t_retry_tiers_ms = None\<rparr>"

end
