(* ===== verification/Asb.thy ===== *)
theory Asb
  imports Sqs Endpoints
begin

text \<open>
  \<open>asb_transport.py\<close>: the projection onto a Service Bus message, the version gate on its application
  properties, the attempts reconciled with the delivery count, and the transport over the peek-lock
  operations of the client library, a record of operations on its own world.
\<close>

section \<open>Values\<close>

text \<open>A property value as the AMQP client hands it over; \<open>PropOther\<close> is any other type, by its \<open>str\<close>.\<close>

datatype prop_value = PropNone | PropBytes bytes | PropStr pystr | PropInt int | PropBool bool | PropOther pystr

fun prop_text :: "prop_value \<Rightarrow> raw_text" where
  "prop_text PropNone = RawNone"
| "prop_text (PropBytes b) = RawBytes b"
| "prop_text (PropStr s) = RawStr s"
| "prop_text (PropInt i) = RawStr (int_str i)"
| "prop_text (PropBool b) = RawStr (if b then u ''True'' else u ''False'')"
| "prop_text (PropOther s) = RawStr s"

type_synonym properties = "(raw_text \<times> prop_value) list"

definition property_headers :: "properties \<Rightarrow> headers" where
  "property_headers props = out_of_band_headers (RawItems (map (\<lambda>(k, v). RawPair k (prop_text v)) props))"

text \<open>The gate on a present value: the text \<open>1\<close> or the integer 1 passes, as does a blank text.\<close>

definition gate_value :: "prop_value \<Rightarrow> pystr option" where
  "gate_value v =
     (let text_gate = (\<lambda>raw. if set raw \<subseteq> set ASCII_WHITESPACE \<or> raw = int_str SCHEMA_VERSION then None else Some raw)
      in case v of
           PropNone \<Rightarrow> None
         | PropBytes b \<Rightarrow> text_gate (utf8_decode_replace b)
         | PropStr s \<Rightarrow> text_gate s
         | PropInt i \<Rightarrow> if i = SCHEMA_VERSION then None else Some (int_str i)
         | PropBool b \<Rightarrow> Some (if b then u ''True'' else u ''False'')
         | PropOther s \<Rightarrow> Some s)"

definition asb_unsupported_version :: "properties \<Rightarrow> pystr option" where
  "asb_unsupported_version props =
     (case find (\<lambda>(k, v). header_text k = Some (u ''bq-schema-version'')) props of
        None \<Rightarrow> None
      | Some (k, v) \<Rightarrow> gate_value v)"

text \<open>An integer outside 32 bits is wrapped as an AMQP long.\<close>

datatype amqp_value = AmqpPlain pyval | AmqpLong int

definition amqp_typed :: "pyval \<Rightarrow> amqp_value" where
  "amqp_typed v =
     (case v of
        PInt i \<Rightarrow> if - (2 ^ 31) \<le> i \<and> i \<le> 2 ^ 31 - 1 then AmqpPlain (PInt i) else AmqpLong i
      | _ \<Rightarrow> AmqpPlain v)"

record asb_fields =
  af_subject :: "pyval option"
  af_correlation_id :: "pyval option"
  af_message_id :: "pyval option"
  af_properties :: "pyval dict"

definition when_truthy :: "pyval \<Rightarrow> pyval option" where
  "when_truthy v = (if truthy v then Some v else None)"

definition member_if :: "bool \<Rightarrow> string \<Rightarrow> 'v \<Rightarrow> (pystr \<times> 'v) list" where
  "member_if c name v = (if c then [(u name, v)] else [])"

definition asb_projection :: "pystr \<Rightarrow> asb_fields res" where
  "asb_projection body =
     bind_res (parse_envelope body) (\<lambda>env.
     bind_res (meta_or_empty env) (\<lambda>meta.
       let version = get_or_none meta (u ''schema_version''); lang = get_or_none meta (u ''lang'');
           created = get_or_none meta (u ''created_at'')
       in Inr \<lparr>af_subject = when_truthy (get_or_none env (u ''job'')),
               af_correlation_id = when_truthy (get_or_none env (u ''trace_id'')),
               af_message_id = when_truthy (get_or_none meta (u ''id'')),
               af_properties = member_if (version \<noteq> PNone) ''bq-schema-version'' version
                 @ member_if (truthy lang) ''bq-source-lang'' lang
                 @ member_if (created \<noteq> PNone) ''bq-created-at'' created\<rparr>))"

text \<open>The delivery count is a value with an \<open>int()\<close>, or none.\<close>

definition asb_reconcile :: "pystr \<Rightarrow> int option \<Rightarrow> pystr res" where
  "asb_reconcile body delivery_count =
     (case delivery_count of
        None \<Rightarrow> Inr body
      | Some dc \<Rightarrow>
          if dc \<le> 1 then Inr body
          else bind_res (fst (decode_lenient body)) (\<lambda>env.
                 if env = [] then Inr body
                 else bind_res (counted_attempts env) (\<lambda>attempts.
                        if dc - 1 \<le> attempts then Inr body
                        else encode (dset (u ''attempts'') (PInt (dc - 1)) env))))"

section \<open>The transport\<close>

record asb_outgoing =
  ao_body :: pystr
  ao_subject :: "pyval option"
  ao_correlation_id :: "pyval option"
  ao_message_id :: "pyval option"
  ao_properties :: "(pystr \<times> amqp_value) list"

record asb_message =
  am_text :: pystr
  am_properties :: properties
  am_count :: "int option"

text \<open>
  The client library hands out sender and receiver objects, named by numbers. \<open>ac_abandon\<close> and
  \<open>ac_dead_letter\<close> are methods a receiver may lack. A handle is the received message.
\<close>

record 'w asb_setup =
  ac_sender :: "pystr \<Rightarrow> ('w, nat) op"
  ac_receiver :: "pystr \<Rightarrow> ('w, nat) op"
  ac_send :: "nat \<Rightarrow> asb_outgoing \<Rightarrow> ('w, unit) op"
  ac_receive :: "nat \<Rightarrow> rat option \<Rightarrow> ('w, asb_message option) op"
  ac_complete :: "nat \<Rightarrow> asb_message \<Rightarrow> ('w, unit) op"
  ac_abandon :: "(nat \<Rightarrow> asb_message \<Rightarrow> ('w, unit) op) option"
  ac_dead_letter :: "(nat \<Rightarrow> asb_message \<Rightarrow> pystr \<Rightarrow> pystr \<Rightarrow> ('w, unit) op) option"
  ac_close_link :: "nat \<Rightarrow> ('w, unit) op"
  ac_close :: "('w, unit) op"
  ac_max_wait_time :: "rat option"

record 'w asb =
  as_world :: 'w
  as_senders :: "nat dict"
  as_receivers :: "nat dict"
  as_handles :: "nat \<Rightarrow> asb_message option"
  as_next :: nat

definition asb_client :: "('w, 'a) op \<Rightarrow> ('w asb, 'a) op" where
  "asb_client f = (\<lambda>s. case f (as_world s) of (r, w) \<Rightarrow> (r, s\<lparr>as_world := w\<rparr>))"

definition asb_sender :: "'w asb_setup \<Rightarrow> pystr \<Rightarrow> ('w asb, nat) op" where
  "asb_sender K = cached as_senders as_senders_update (\<lambda>queue. asb_client (ac_sender K queue))"

definition asb_receiver :: "'w asb_setup \<Rightarrow> pystr \<Rightarrow> ('w asb, nat) op" where
  "asb_receiver K = cached as_receivers as_receivers_update (\<lambda>queue. asb_client (ac_receiver K queue))"

text \<open>Both caches keep the contract: one endpoint for each queue, opened once.\<close>

lemma asb_client_keeps [simp]:
  "as_senders (snd (asb_client f s)) = as_senders s" "as_receivers (snd (asb_client f s)) = as_receivers s"
  "as_handles (snd (asb_client f s)) = as_handles s" "as_next (snd (asb_client f s)) = as_next s"
  by (simp_all add: asb_client_def split: prod.split)

interpretation asb_senders: endpoint_cache as_senders "asb_sender K" for K :: "'w asb_setup"
proof unfold_locales
  fix s :: "'w asb" and s' q h p
  show "dget (as_senders s) q = Some h \<Longrightarrow> asb_sender K q s = (Inr h, s)"
    and "asb_sender K q s = (Inr h, s') \<Longrightarrow> dget (as_senders s') q = Some h"
    and "dget (as_senders s) p = Some h \<Longrightarrow> dget (as_senders (snd (asb_sender K q s))) p = Some h"
    unfolding asb_sender_def by (rule cached_laws; simp)+
qed

interpretation asb_receivers: endpoint_cache as_receivers "asb_receiver K" for K :: "'w asb_setup"
proof unfold_locales
  fix s :: "'w asb" and s' q h p
  show "dget (as_receivers s) q = Some h \<Longrightarrow> asb_receiver K q s = (Inr h, s)"
    and "asb_receiver K q s = (Inr h, s') \<Longrightarrow> dget (as_receivers s') q = Some h"
    and "dget (as_receivers s) p = Some h \<Longrightarrow> dget (as_receivers (snd (asb_receiver K q s))) p = Some h"
    unfolding asb_receiver_def by (rule cached_laws; simp)+
qed

definition asb_send :: "'w asb_setup \<Rightarrow> pystr \<Rightarrow> pystr \<Rightarrow> headers \<Rightarrow> ('w asb, unit) op" where
  "asb_send K queue body headers =
     bind_op (lift_res (asb_projection body)) (\<lambda>f.
       let extra = out_of_band_headers (RawItems (map (\<lambda>(k, v). RawPair (RawStr k) (RawStr v)) headers));
           properties = dupdate (map (\<lambda>(k, v). (k, PStr v)) extra) (af_properties f)
       in bind_op (asb_sender K queue) (\<lambda>sender. asb_client (ac_send K sender
            \<lparr>ao_body = body, ao_subject = af_subject f, ao_correlation_id = af_correlation_id f,
             ao_message_id = af_message_id f, ao_properties = map (\<lambda>(k, v). (k, amqp_typed v)) properties\<rparr>)))"

definition asb_received :: "pystr \<Rightarrow> nat \<Rightarrow> asb_message \<Rightarrow> received_message res" where
  "asb_received queue h m =
     (let received = \<lparr>rm_body = am_text m, rm_queue = queue, rm_handle = h, rm_headers = [], rm_route = Route [],
                      rm_key = None, rm_native_attempts = 0\<rparr>
      in case truncate_declared_version (asb_unsupported_version (am_properties m)) of
           Some v \<Rightarrow> bind_res (quote v) (\<lambda>q. Inr (received\<lparr>rm_route := Route (UNSUPPORTED_SCHEMA_ROUTE_PREFIX @ q)\<rparr>))
         | None \<Rightarrow>
             bind_res (asb_reconcile (am_text m) (am_count m)) (\<lambda>body.
               Inr (received\<lparr>rm_body := body, rm_headers := property_headers (am_properties m)\<rparr>)))"

definition asb_wait :: "'w asb_setup \<Rightarrow> rat \<Rightarrow> rat option" where
  "asb_wait K timeout =
     (case ac_max_wait_time K of Some t \<Rightarrow> Some t | None \<Rightarrow> if 0 < timeout then Some timeout else None)"

definition asb_pop :: "'w asb_setup \<Rightarrow> pystr \<Rightarrow> rat \<Rightarrow> ('w asb, received_message option) op" where
  "asb_pop K queue timeout =
     bind_op (asb_receiver K queue) (\<lambda>receiver.
     bind_op (asb_client (ac_receive K receiver (asb_wait K timeout))) (\<lambda>r.
       case r of
         None \<Rightarrow> ret None
       | Some m \<Rightarrow>
           bind_op (\<lambda>s. (asb_received queue (as_next s) m, s)) (\<lambda>received.
             then_op (modify (\<lambda>s. s\<lparr>as_handles := (as_handles s)(as_next s := Some m), as_next := Suc (as_next s)\<rparr>))
               (ret (Some received)))))"

definition asb_with_handle ::
  "'w asb_setup \<Rightarrow> received_message \<Rightarrow> 'a \<Rightarrow> (nat \<Rightarrow> asb_message \<Rightarrow> ('w, 'a) op) \<Rightarrow> ('w asb, 'a) op" where
  "asb_with_handle K m none f =
     (\<lambda>s. case as_handles s (rm_handle m) of
            None \<Rightarrow> ret none s
          | Some h \<Rightarrow> bind_op (asb_receiver K (rm_queue m)) (\<lambda>receiver. asb_client (f receiver h)) s)"

definition asb_ack :: "'w asb_setup \<Rightarrow> received_message \<Rightarrow> ('w asb, unit) op" where
  "asb_ack K m = asb_with_handle K m () (ac_complete K)"

definition asb_abandon :: "'w asb_setup \<Rightarrow> received_message \<Rightarrow> ('w asb, unit) op" where
  "asb_abandon K m =
     asb_with_handle K m () (\<lambda>receiver h. case ac_abandon K of None \<Rightarrow> ret () | Some abandon \<Rightarrow> abandon receiver h)"

definition asb_settle_native_dead_letter ::
  "'w asb_setup \<Rightarrow> received_message \<Rightarrow> pystr \<Rightarrow> pystr \<Rightarrow> ('w asb, bool) op" where
  "asb_settle_native_dead_letter K m reason description =
     (\<lambda>s. if as_handles s (rm_handle m) = None then ret False s
          else case ac_dead_letter K of
                 Some native \<Rightarrow>
                   then_op (asb_with_handle K m () (\<lambda>receiver h. native receiver h reason description)) (ret True) s
               | None \<Rightarrow>
                   then_op (asb_receiver K (rm_queue m)) (then_op (asb_abandon K m) (ret False)) s)"

definition asb_settle_native :: "'w asb_setup \<Rightarrow> received_message \<Rightarrow> pystr \<Rightarrow> pystr \<Rightarrow> ('w asb, unit) op" where
  "asb_settle_native K m reason description =
     then_op (asb_settle_native_dead_letter K m reason description) (ret ())"

text \<open>The senders, the receivers and then the client are closed.\<close>

definition asb_close :: "'w asb_setup \<Rightarrow> ('w asb, unit) op" where
  "asb_close K =
     (\<lambda>s. close_each (map (\<lambda>(queue, h). asb_client (ac_close_link K h)) (as_senders s @ as_receivers s)
                      @ [asb_client (ac_close K)]) s)"

definition asb_transport :: "'w asb_setup \<Rightarrow> 'w asb transport" where
  "asb_transport K =
     \<lparr>t_publish = (\<lambda>q body. asb_send K q body []),
      t_pop = (\<lambda>q. asb_pop K q 1),
      t_ack = asb_ack K,
      t_close = asb_close K,
      t_classifies_poison = False,
      t_publish_with_headers = Some (asb_send K),
      t_publish_routed = None, t_publish_settle = None, t_publish_redriven = None,
      t_redeliver = None, t_dead_letter = None, t_rewind = None, t_dead_letter_queue_name = None,
      t_abandon = Some (asb_abandon K),
      t_settle_native = Some (asb_settle_native K),
      t_settle_native_dead_letter = Some (asb_settle_native_dead_letter K),
      t_pop_batch = None, t_retry_tiers_ms = None\<rparr>"

end
