(* ===== verification/Artemis.thy ===== *)
theory Artemis
  imports Asb
begin

text \<open>
  \<open>artemis_transport.py\<close>: the projection onto an AMQP 1.0 message as a JMS peer reads it, the version
  gate, the attempts reconciled with the delivery count, and the transport over the blocking client.
\<close>

section \<open>Values\<close>

definition APP_ID :: pystr where
  "APP_ID = u ''babelqueue''"

definition to_amqp_url :: "pystr \<Rightarrow> pystr" where
  "to_amqp_url url =
     (if starts_with (u ''artemis+ssl://'') url then u ''amqps://'' @ drop 14 url
      else if starts_with (u ''artemis://'') url then u ''amqp://'' @ drop 10 url
      else url)"

text \<open>\<open>int(env.get("attempts", 0) or 0)\<close>.\<close>

definition attempts_or_zero :: "pyval dict \<Rightarrow> int res" where
  "attempts_or_zero env =
     (let v = get_or_none env (u ''attempts'') in py_int (if truthy v then v else PInt 0))"

definition artemis_projection :: "pystr \<Rightarrow> pystr dict res" where
  "artemis_projection body =
     bind_res (parse_envelope body) (\<lambda>env.
       if env = [] then Inr []
       else bind_res (meta_or_empty env) (\<lambda>meta.
            bind_res (attempts_or_zero env) (\<lambda>attempts.
              let version = get_or_none meta (u ''schema_version''); lang = get_or_none meta (u ''lang'')
              in Inr (member_if (version \<noteq> PNone) ''bq_schema_version'' (py_str version)
                      @ member_if (truthy lang) ''bq_source_lang'' (py_str lang)
                      @ [(u ''bq_attempts'', int_str attempts), (u ''bq_app_id'', APP_ID)]))))"

definition jms_type :: "pystr \<Rightarrow> pystr res" where
  "jms_type body = bind_res (parse_envelope body) (\<lambda>env. Inr (truthy_text env ''job''))"

definition correlation_id :: "pystr \<Rightarrow> pystr res" where
  "correlation_id body = bind_res (parse_envelope body) (\<lambda>env. Inr (truthy_text env ''trace_id''))"

text \<open>\<open>int(created_at) / 1000.0\<close>: the division of two doubles is rounded once.\<close>

definition thousandth :: "pyfloat \<Rightarrow> pyfloat" where
  "thousandth f =
     (case f of
        FFin s m e \<Rightarrow> round_ratio s (m * 2 ^ nat e) (1000 * 2 ^ nat (- e))
      | _ \<Rightarrow> f)"

definition creation_seconds :: "pystr \<Rightarrow> pyfloat option res" where
  "creation_seconds body =
     bind_res (parse_envelope body) (\<lambda>env.
     bind_res (meta_or_empty env) (\<lambda>meta.
       let created_at = get_or_none meta (u ''created_at'')
       in if created_at = PNone then Inr None
          else case bind_res (py_int created_at) float_of_int of
                 Inr f \<Rightarrow> Inr (Some (thousandth f))
               | Inl e \<Rightarrow> if exc_class_of e = TypeError \<or> exc_class_of e = ValueError then Inr None else Inl e))"

record artemis_outgoing =
  ro_body :: pystr
  ro_properties :: "pystr dict"
  ro_correlation_id :: pystr
  ro_creation_time :: "pyfloat option"
  ro_jms_type :: pystr

text \<open>A blank property of the record is one that is not set on the message.\<close>

definition artemis_message_for :: "pystr \<Rightarrow> headers \<Rightarrow> artemis_outgoing res" where
  "artemis_message_for body headers =
     (let props = out_of_band_headers (RawItems (map (\<lambda>(k, v). RawPair (RawStr k) (RawStr v)) headers))
      in bind_res (artemis_projection body) (\<lambda>projected.
         bind_res (correlation_id body) (\<lambda>correlation.
         bind_res (creation_seconds body) (\<lambda>creation.
         bind_res (jms_type body) (\<lambda>jms.
           Inr \<lparr>ro_body = body, ro_properties = dupdate props projected, ro_correlation_id = correlation,
                ro_creation_time = creation, ro_jms_type = jms\<rparr>)))))"

definition artemis_reconcile :: "pystr \<Rightarrow> int \<Rightarrow> pystr res" where
  "artemis_reconcile body delivery_count =
     (if delivery_count \<le> 0 then Inr body
      else bind_res (fst (decode_lenient body)) (\<lambda>env.
             if env = [] then Inr body
             else bind_res (attempts_or_zero env) (\<lambda>attempts.
                    if delivery_count \<le> attempts then Inr body
                    else encode (dset (u ''attempts'') (PInt delivery_count) env))))"

text \<open>The properties are a dictionary under text names, or missing.\<close>

definition artemis_unsupported_version :: "properties \<Rightarrow> pystr option" where
  "artemis_unsupported_version props =
     (case map_of props (RawStr (u ''bq_schema_version'')) of None \<Rightarrow> None | Some v \<Rightarrow> gate_value v)"

section \<open>The transport\<close>

text \<open>A received message; the count is what \<open>int()\<close> of its attribute gives.\<close>

record artemis_message =
  rx_body :: raw_text
  rx_properties :: properties
  rx_count :: int

datatype received_event = ReceiveTimeout | Received artemis_message

record 'w artemis_setup =
  rc_sender :: "pystr \<Rightarrow> ('w, nat) op"
  rc_receiver :: "pystr \<Rightarrow> ('w, nat) op"
  rc_send :: "nat \<Rightarrow> artemis_outgoing \<Rightarrow> ('w, unit) op"
  rc_receive :: "nat \<Rightarrow> rat \<Rightarrow> ('w, received_event) op"
  rc_accept :: "nat \<Rightarrow> ('w, unit) op"
  rc_close :: "('w, unit) op"
  rc_timeout_millis :: int

text \<open>The handle is the receiver of a queue; \<open>accept\<close> settles what it delivered.\<close>

record 'w artemis =
  rt_world :: 'w
  rt_senders :: "nat dict"
  rt_receivers :: "nat dict"
  rt_handles :: "nat \<Rightarrow> nat option"
  rt_next :: nat

definition artemis_client :: "('w, 'a) op \<Rightarrow> ('w artemis, 'a) op" where
  "artemis_client f = (\<lambda>s. case f (rt_world s) of (r, w) \<Rightarrow> (r, s\<lparr>rt_world := w\<rparr>))"

definition artemis_sender :: "'w artemis_setup \<Rightarrow> pystr \<Rightarrow> ('w artemis, nat) op" where
  "artemis_sender K = cached rt_senders rt_senders_update (\<lambda>queue. artemis_client (rc_sender K queue))"

definition artemis_receiver :: "'w artemis_setup \<Rightarrow> pystr \<Rightarrow> ('w artemis, nat) op" where
  "artemis_receiver K = cached rt_receivers rt_receivers_update (\<lambda>queue. artemis_client (rc_receiver K queue))"

text \<open>Both caches keep the contract: one endpoint for each queue, opened once.\<close>

lemma artemis_client_keeps [simp]:
  "rt_senders (snd (artemis_client f s)) = rt_senders s" "rt_receivers (snd (artemis_client f s)) = rt_receivers s"
  "rt_handles (snd (artemis_client f s)) = rt_handles s" "rt_next (snd (artemis_client f s)) = rt_next s"
  by (simp_all add: artemis_client_def split: prod.split)

interpretation artemis_senders: endpoint_cache rt_senders "artemis_sender K" for K :: "'w artemis_setup"
proof unfold_locales
  fix s :: "'w artemis" and s' q h p
  show "dget (rt_senders s) q = Some h \<Longrightarrow> artemis_sender K q s = (Inr h, s)"
    and "artemis_sender K q s = (Inr h, s') \<Longrightarrow> dget (rt_senders s') q = Some h"
    and "dget (rt_senders s) p = Some h \<Longrightarrow> dget (rt_senders (snd (artemis_sender K q s))) p = Some h"
    unfolding artemis_sender_def by (rule cached_laws; simp)+
qed

interpretation artemis_receivers: endpoint_cache rt_receivers "artemis_receiver K" for K :: "'w artemis_setup"
proof unfold_locales
  fix s :: "'w artemis" and s' q h p
  show "dget (rt_receivers s) q = Some h \<Longrightarrow> artemis_receiver K q s = (Inr h, s)"
    and "artemis_receiver K q s = (Inr h, s') \<Longrightarrow> dget (rt_receivers s') q = Some h"
    and "dget (rt_receivers s) p = Some h \<Longrightarrow> dget (rt_receivers (snd (artemis_receiver K q s))) p = Some h"
    unfolding artemis_receiver_def by (rule cached_laws; simp)+
qed

definition artemis_payload :: "artemis_message \<Rightarrow> pystr" where
  "artemis_payload m =
     (case rx_body m of RawBytes b \<Rightarrow> utf8_decode_escape b | RawStr s \<Rightarrow> s | RawNone \<Rightarrow> [])"

definition artemis_publish :: "'w artemis_setup \<Rightarrow> pystr \<Rightarrow> pystr \<Rightarrow> headers \<Rightarrow> ('w artemis, unit) op" where
  "artemis_publish K queue body headers =
     bind_op (artemis_sender K queue) (\<lambda>sender.
     bind_op (lift_res (artemis_message_for body headers)) (\<lambda>m. artemis_client (rc_send K sender m)))"

definition artemis_received :: "pystr \<Rightarrow> nat \<Rightarrow> artemis_message \<Rightarrow> received_message res" where
  "artemis_received queue h m =
     (let received = \<lparr>rm_body = artemis_payload m, rm_queue = queue, rm_handle = h, rm_headers = [], rm_route = Route [],
                      rm_key = None, rm_native_attempts = 0\<rparr>
      in case truncate_declared_version (artemis_unsupported_version (rx_properties m)) of
           Some v \<Rightarrow> bind_res (quote v) (\<lambda>q. Inr (received\<lparr>rm_route := Route (UNSUPPORTED_SCHEMA_ROUTE_PREFIX @ q)\<rparr>))
         | None \<Rightarrow>
             bind_res (artemis_reconcile (artemis_payload m) (rx_count m)) (\<lambda>body.
               Inr (received\<lparr>rm_body := body, rm_headers := property_headers (rx_properties m)\<rparr>)))"

definition artemis_pop :: "'w artemis_setup \<Rightarrow> pystr \<Rightarrow> rat \<Rightarrow> ('w artemis, received_message option) op" where
  "artemis_pop K queue timeout =
     bind_op (artemis_receiver K queue) (\<lambda>receiver.
     bind_op (artemis_client (rc_receive K receiver
                (if 0 < timeout then timeout else of_int (rc_timeout_millis K) / 1000))) (\<lambda>r.
       case r of
         ReceiveTimeout \<Rightarrow> ret None
       | Received m \<Rightarrow>
           bind_op (\<lambda>s. (artemis_received queue (rt_next s) m, s)) (\<lambda>received.
             then_op (modify (\<lambda>s. s\<lparr>rt_handles := (rt_handles s)(rt_next s := Some receiver), rt_next := Suc (rt_next s)\<rparr>))
               (ret (Some received)))))"

definition artemis_ack :: "'w artemis_setup \<Rightarrow> received_message \<Rightarrow> ('w artemis, unit) op" where
  "artemis_ack K m =
     (\<lambda>s. case rt_handles s (rm_handle m) of None \<Rightarrow> ret () s | Some receiver \<Rightarrow> artemis_client (rc_accept K receiver) s)"

definition artemis_close :: "'w artemis_setup \<Rightarrow> ('w artemis, unit) op" where
  "artemis_close K = catch_exc (artemis_client (rc_close K)) (\<lambda>e. ret ())"

definition artemis_transport :: "'w artemis_setup \<Rightarrow> 'w artemis transport" where
  "artemis_transport K =
     \<lparr>t_publish = (\<lambda>q body. artemis_publish K q body []),
      t_pop = (\<lambda>q. artemis_pop K q 1),
      t_ack = artemis_ack K,
      t_close = artemis_close K,
      t_classifies_poison = False,
      t_publish_with_headers = Some (artemis_publish K),
      t_publish_routed = None, t_publish_settle = None, t_publish_redriven = None,
      t_redeliver = None, t_dead_letter = None, t_rewind = None, t_dead_letter_queue_name = None,
      t_abandon = None, t_settle_native = None, t_settle_native_dead_letter = None,
      t_pop_batch = None, t_retry_tiers_ms = None\<rparr>"

end
