(* ===== verification/Pulsar.thy ===== *)
theory Pulsar
  imports Artemis
begin

text \<open>
  \<open>pulsar_transport.py\<close>: the projection onto message properties, the version gate whose route carries
  the original \<open>bq-job\<close>, the reconciliation of route and attempts, and the transport.
\<close>

section \<open>Percent escapes\<close>

text \<open>
  \<open>urllib.parse.unquote\<close>: in each run of ASCII characters an escape is the byte it names, and the run is
  decoded as UTF-8 with replacement.
\<close>

definition escaped_byte :: "pystr \<Rightarrow> nat option" where
  "escaped_byte cs =
     (case cs of
        a # b # r \<Rightarrow> (case (hex_val a, hex_val b) of (Some h, Some l) \<Rightarrow> Some (16 * h + l) | _ \<Rightarrow> None)
      | _ \<Rightarrow> None)"

fun unquote_bytes :: "pystr \<Rightarrow> bytes" where
  "unquote_bytes [] = []"
| "unquote_bytes (c # cs) =
     (case (if c = 37 then escaped_byte cs else None) of
        None \<Rightarrow> c # unquote_bytes cs
      | Some x \<Rightarrow> x # unquote_bytes (drop 2 cs))"

function unquote :: "pystr \<Rightarrow> pystr" where
  "unquote s =
     (case s of
        [] \<Rightarrow> []
      | c # cs \<Rightarrow>
          if 128 \<le> c then c # unquote cs
          else utf8_decode_replace (unquote_bytes (takeWhile (\<lambda>c. c < 128) s)) @ unquote (dropWhile (\<lambda>c. c < 128) s))"
  by pat_completeness auto
termination
  by (relation "measure length") (auto simp: less_Suc_eq_le length_dropWhile_le)

declare unquote.simps [simp del]

section \<open>Routes of a gated delivery\<close>

definition GATE_JOB_PARAM :: pystr where
  "GATE_JOB_PARAM = u ''?bq-job=''"

definition gate_route :: "pystr \<Rightarrow> pystr dict \<Rightarrow> pystr res" where
  "gate_route version properties =
     bind_res (quote version) (\<lambda>v.
       case dget properties (u ''bq-job'') of
         None \<Rightarrow> Inr (UNSUPPORTED_SCHEMA_ROUTE_PREFIX @ v)
       | Some job \<Rightarrow> bind_res (quote job) (\<lambda>j. Inr (UNSUPPORTED_SCHEMA_ROUTE_PREFIX @ v @ GATE_JOB_PARAM @ j)))"

text \<open>\<open>str.partition\<close>: the text before the first separator and, when there is one, the text after it.\<close>

fun split_at :: "pystr \<Rightarrow> pystr \<Rightarrow> pystr \<times> pystr option" where
  "split_at sep [] = (if sep = [] then ([], Some []) else ([], None))"
| "split_at sep (c # cs) =
     (if starts_with sep (c # cs) then ([], Some (drop (length sep) (c # cs)))
      else (case split_at sep cs of (before, after) \<Rightarrow> (c # before, after)))"

definition parse_gate_route :: "pystr \<Rightarrow> (pystr \<times> pystr option) option" where
  "parse_gate_route r =
     (if \<not> starts_with UNSUPPORTED_SCHEMA_ROUTE_PREFIX r then None
      else case split_at GATE_JOB_PARAM (drop (length UNSUPPORTED_SCHEMA_ROUTE_PREFIX) r) of
             (v, job) \<Rightarrow> Some (unquote v, map_option unquote job))"

section \<open>Values\<close>

definition envelope_properties :: "pyval dict \<Rightarrow> pystr dict res" where
  "envelope_properties env =
     (if env = [] then Inr []
      else bind_res (meta_or_empty env) (\<lambda>meta.
           bind_res (attempts_or_zero env) (\<lambda>attempts.
             let job = truthy_text env ''job''; trace = truthy_text env ''trace_id''; id = truthy_text meta ''id'';
                 version = get_or_none meta (u ''schema_version''); lang = get_or_none meta (u ''lang'')
             in Inr (member_if (truthy (get_or_none env (u ''job''))) ''bq-job'' job
                     @ member_if (truthy (get_or_none env (u ''trace_id''))) ''bq-trace-id'' trace
                     @ member_if (truthy (get_or_none meta (u ''id''))) ''bq-message-id'' id
                     @ member_if (version \<noteq> PNone) ''bq-schema-version'' (py_str version)
                     @ member_if (truthy lang) ''bq-source-lang'' (py_str lang)
                     @ [(u ''bq-attempts'', int_str attempts)]))))"

definition pulsar_projection :: "pystr \<Rightarrow> pystr \<Rightarrow> pystr dict res" where
  "pulsar_projection body route_urn =
     bind_res (parse_envelope body) (\<lambda>env.
       case parse_gate_route route_urn of
         Some (version, job) \<Rightarrow>
           bind_res (envelope_properties env) (\<lambda>props.
             let gated = dset (u ''bq-schema-version'') version props
             in Inr (case job of None \<Rightarrow> gated | Some j \<Rightarrow> dset (u ''bq-job'') j gated))
       | None \<Rightarrow>
           if env = [] then Inr []
           else bind_res (envelope_properties env) (\<lambda>props.
                  Inr (if route_urn = [] then props else dset (u ''bq-job'') route_urn props)))"

definition pulsar_unsupported_version :: "pystr dict \<Rightarrow> pystr option" where
  "pulsar_unsupported_version properties =
     (case dget properties (u ''bq-schema-version'') of
        None \<Rightarrow> None
      | Some raw \<Rightarrow> if set raw \<subseteq> set ASCII_WHITESPACE \<or> raw = int_str SCHEMA_VERSION then None else Some raw)"

definition MAX_ATTEMPTS :: int where
  "MAX_ATTEMPTS = 2 ^ 31 - 1"

text \<open>A run of ASCII digits of at most 4300, the length \<open>int()\<close> refuses to convert beyond.\<close>

definition parse_attempts :: "pystr option \<Rightarrow> int option res" where
  "parse_attempts raw =
     (case raw of
        None \<Rightarrow> Inr None
      | Some s \<Rightarrow>
          if s = [] \<or> \<not> list_all is_digit s then Inr None
          else if int_max_str_digits < length s
          then Inl (Exc ValueError (u ''Exceeds the limit (4300 digits) for integer string conversion''))
          else if int (digits_val s) \<le> MAX_ATTEMPTS then Inr (Some (int (digits_val s))) else Inr None)"

definition pulsar_native_attempts :: "int \<Rightarrow> pystr dict \<Rightarrow> int res" where
  "pulsar_native_attempts redelivery_count properties =
     bind_res (parse_attempts (dget properties (u ''bq-attempts''))) (\<lambda>n.
       Inr (max (max (case n of None \<Rightarrow> 0 | Some i \<Rightarrow> i) redelivery_count) 0))"

definition pulsar_attempts :: "pyval dict \<Rightarrow> int \<Rightarrow> pystr dict \<Rightarrow> int res" where
  "pulsar_attempts env redelivery_count properties =
     bind_res (parse_attempts (dget properties (u ''bq-attempts''))) (\<lambda>n.
       let current = (case get_or_none env (u ''attempts'') of PInt i \<Rightarrow> i | _ \<Rightarrow> 0);
           attempts = (case n of None \<Rightarrow> current | Some i \<Rightarrow> i)
       in Inr (max attempts redelivery_count))"

text \<open>
  The body and the route of a delivery, and the arguments of the routing mismatch hook when it is called.
\<close>

definition pulsar_reconcile ::
  "pystr \<Rightarrow> int \<Rightarrow> pystr dict \<Rightarrow> (pystr \<times> pystr \<times> (pystr \<times> pystr \<times> pyval dict) option) res" where
  "pulsar_reconcile body redelivery_count properties =
     bind_res (parse_envelope body) (\<lambda>env.
       if env = [] then Inr (body, [], None)
       else
         let routed = strip ASCII_WHITESPACE (case dget properties (u ''bq-job'') of None \<Rightarrow> [] | Some j \<Rightarrow> j);
             body_urn = urn env;
             route_urn = (if routed \<noteq> [] \<and> body_urn \<noteq> [] then routed else [])
         in bind_res (pulsar_attempts env redelivery_count properties) (\<lambda>attempts.
              let changed = (case get_or_none env (u ''attempts'') of PInt i \<Rightarrow> i \<noteq> attempts | _ \<Rightarrow> False);
                  env' = (if changed then dset (u ''attempts'') (PInt attempts) env else env)
              in bind_res (if changed
                           then bind_res (fst (decode_lenient body)) (\<lambda>reencoded.
                                  encode (dset (u ''attempts'') (PInt attempts) reencoded))
                           else Inr body) (\<lambda>out.
                   Inr (out, route_urn,
                        if route_urn \<noteq> [] \<and> route_urn \<noteq> body_urn \<and> accepts env' then Some (route_urn, body_urn, env') else None))))"

section \<open>The transport\<close>

record pulsar_message =
  pm_data :: raw_text
  pm_properties :: "pystr dict"
  pm_redeliveries :: int

datatype pulsar_event = PulsarTimeout | PulsarMessage pulsar_message

text \<open>
  The client library hands out producer and consumer objects, named by numbers; \<open>pc_consumer\<close> subscribes a
  topic with a subscription name and options. \<open>pc_shared_type\<close> is the shared consumer type, where the library
  is installed. The hook is the caller's
  code: it may do anything to the world, and what it raises is dropped.
\<close>

record 'w pulsar_setup =
  pc_producer :: "pystr \<Rightarrow> ('w, nat) op"
  pc_consumer :: "pystr \<Rightarrow> pystr \<Rightarrow> pystr dict \<Rightarrow> ('w, nat) op"
  pc_send :: "nat \<Rightarrow> bytes \<Rightarrow> pystr dict \<Rightarrow> ('w, unit) op"
  pc_receive :: "nat \<Rightarrow> int \<Rightarrow> ('w, pulsar_event) op"
  pc_acknowledge :: "nat \<Rightarrow> pulsar_message \<Rightarrow> ('w, unit) op"
  pc_nack :: "nat \<Rightarrow> pulsar_message \<Rightarrow> ('w, unit) op"
  pc_close_link :: "nat \<Rightarrow> ('w, unit) op"
  pc_close :: "('w, unit) op"
  pc_topic_prefix :: pystr
  pc_subscription :: pystr
  pc_subscribe_options :: "pystr dict"
  pc_consumer_type :: "pystr option"
  pc_shared_type :: "pystr option"
  pc_timeout_millis :: int
  pc_hook :: "(pystr \<Rightarrow> pystr \<Rightarrow> pyval dict \<Rightarrow> ('w, unit) op) option"

record 'w pulsar =
  pu_world :: 'w
  pu_producers :: "nat dict"
  pu_consumers :: "nat dict"
  pu_handles :: "nat \<Rightarrow> pulsar_message option"
  pu_next :: nat

definition pulsar_client :: "('w, 'a) op \<Rightarrow> ('w pulsar, 'a) op" where
  "pulsar_client f = (\<lambda>s. case f (pu_world s) of (r, w) \<Rightarrow> (r, s\<lparr>pu_world := w\<rparr>))"

definition topic_of :: "'w pulsar_setup \<Rightarrow> pystr \<Rightarrow> pystr" where
  "topic_of K queue = pc_topic_prefix K @ queue"

definition pulsar_producer :: "'w pulsar_setup \<Rightarrow> pystr \<Rightarrow> ('w pulsar, nat) op" where
  "pulsar_producer K = cached pu_producers pu_producers_update (\<lambda>queue. pulsar_client (pc_producer K (topic_of K queue)))"

definition subscribe_kwargs :: "'w pulsar_setup \<Rightarrow> pystr dict" where
  "subscribe_kwargs K =
     (let options = pc_subscribe_options K
      in case (case pc_consumer_type K of None \<Rightarrow> pc_shared_type K | Some t \<Rightarrow> Some t) of
           None \<Rightarrow> options
         | Some t \<Rightarrow> if dhas (u ''consumer_type'') options then options else dset (u ''consumer_type'') t options)"

definition pulsar_consumer :: "'w pulsar_setup \<Rightarrow> pystr \<Rightarrow> ('w pulsar, nat) op" where
  "pulsar_consumer K = cached pu_consumers pu_consumers_update 
     (\<lambda>queue. pulsar_client (pc_consumer K (topic_of K queue) (pc_subscription K) (subscribe_kwargs K)))"

text \<open>Both caches keep the contract: one endpoint for each queue, opened once.\<close>

lemma pulsar_client_keeps [simp]:
  "pu_producers (snd (pulsar_client f s)) = pu_producers s" "pu_consumers (snd (pulsar_client f s)) = pu_consumers s"
  "pu_handles (snd (pulsar_client f s)) = pu_handles s" "pu_next (snd (pulsar_client f s)) = pu_next s"
  by (simp_all add: pulsar_client_def split: prod.split)

interpretation pulsar_producers: endpoint_cache pu_producers "pulsar_producer K" for K :: "'w pulsar_setup"
proof unfold_locales
  fix s :: "'w pulsar" and s' q h p
  show "dget (pu_producers s) q = Some h \<Longrightarrow> pulsar_producer K q s = (Inr h, s)"
    and "pulsar_producer K q s = (Inr h, s') \<Longrightarrow> dget (pu_producers s') q = Some h"
    and "dget (pu_producers s) p = Some h \<Longrightarrow> dget (pu_producers (snd (pulsar_producer K q s))) p = Some h"
    unfolding pulsar_producer_def by (rule cached_laws; simp)+
qed

interpretation pulsar_consumers: endpoint_cache pu_consumers "pulsar_consumer K" for K :: "'w pulsar_setup"
proof unfold_locales
  fix s :: "'w pulsar" and s' q h p
  show "dget (pu_consumers s) q = Some h \<Longrightarrow> pulsar_consumer K q s = (Inr h, s)"
    and "pulsar_consumer K q s = (Inr h, s') \<Longrightarrow> dget (pu_consumers s') q = Some h"
    and "dget (pu_consumers s) p = Some h \<Longrightarrow> dget (pu_consumers (snd (pulsar_consumer K q s))) p = Some h"
    unfolding pulsar_consumer_def by (rule cached_laws; simp)+
qed

definition pulsar_payload :: "pulsar_message \<Rightarrow> pystr" where
  "pulsar_payload m =
     (case pm_data m of RawBytes b \<Rightarrow> utf8_decode_escape b | RawStr s \<Rightarrow> s | RawNone \<Rightarrow> [])"

text \<open>The arguments of \<open>send\<close> are evaluated in order: the encoded body, then the properties.\<close>

definition pulsar_publish_routed :: "'w pulsar_setup \<Rightarrow> pystr \<Rightarrow> pystr \<Rightarrow> route \<Rightarrow> ('w pulsar, unit) op" where
  "pulsar_publish_routed K queue body r =
     bind_op (pulsar_producer K queue) (\<lambda>producer.
     bind_op (lift_res (utf8_bytes body)) (\<lambda>data.
     bind_op (lift_res (pulsar_projection body (route_str r))) (\<lambda>props.
       pulsar_client (pc_send K producer data props))))"

definition pulsar_publish_redriven ::
  "'w pulsar_setup \<Rightarrow> pystr \<Rightarrow> pystr \<Rightarrow> headers \<Rightarrow> route \<Rightarrow> ('w pulsar, unit) op" where
  "pulsar_publish_redriven K queue body headers r =
     bind_op (lift_res (pulsar_projection body (route_str r))) (\<lambda>props.
     bind_op (pulsar_producer K queue) (\<lambda>producer.
     bind_op (lift_res (utf8_bytes body)) (\<lambda>data.
       let extra = out_of_band_headers (RawItems (map (\<lambda>(k, v). RawPair (RawStr k) (RawStr v)) headers))
       in pulsar_client (pc_send K producer data (dupdate extra props)))))"

definition call_hook ::
  "'w pulsar_setup \<Rightarrow> (pystr \<times> pystr \<times> pyval dict) option \<Rightarrow> ('w pulsar, unit) op" where
  "call_hook K mismatch =
     (case (pc_hook K, mismatch) of
        (Some hook, Some (route_urn, body_urn, env)) \<Rightarrow>
          catch_exc (pulsar_client (hook route_urn body_urn env)) (\<lambda>e. ret ())
      | _ \<Rightarrow> ret ())"

definition pulsar_received ::
  "pystr \<Rightarrow> nat \<Rightarrow> pulsar_message \<Rightarrow> (received_message \<times> (pystr \<times> pystr \<times> pyval dict) option) res" where
  "pulsar_received queue h m =
     (let received = \<lparr>rm_body = pulsar_payload m, rm_queue = queue, rm_handle = h, rm_headers = [], rm_route = Route [],
                      rm_key = None, rm_native_attempts = 0\<rparr>;
          properties = pm_properties m
      in case pulsar_unsupported_version properties of
           Some rejected \<Rightarrow> bind_res (gate_route rejected properties) (\<lambda>r. Inr (received\<lparr>rm_route := Route r\<rparr>, None))
         | None \<Rightarrow>
             bind_res (pulsar_reconcile (pulsar_payload m) (pm_redeliveries m) properties) (\<lambda>(body, route_urn, mismatch).
             bind_res (pulsar_native_attempts (pm_redeliveries m) properties) (\<lambda>native.
               Inr (received\<lparr>rm_body := body, rm_route := Route route_urn, rm_native_attempts := native,
                             rm_headers := out_of_band_headers (RawItems (map (\<lambda>(k, v). RawPair (RawStr k) (RawStr v)) properties))\<rparr>,
                    mismatch))))"

definition pulsar_wait :: "'w pulsar_setup \<Rightarrow> rat \<Rightarrow> int" where
  "pulsar_wait K timeout = (if 0 < timeout then trunc_rat (timeout * 1000) else pc_timeout_millis K)"

definition pulsar_pop :: "'w pulsar_setup \<Rightarrow> pystr \<Rightarrow> rat \<Rightarrow> ('w pulsar, received_message option) op" where
  "pulsar_pop K queue timeout =
     bind_op (pulsar_consumer K queue) (\<lambda>consumer.
     bind_op (pulsar_client (pc_receive K consumer (pulsar_wait K timeout))) (\<lambda>r.
       case r of
         PulsarTimeout \<Rightarrow> ret None
       | PulsarMessage m \<Rightarrow>
           bind_op (\<lambda>s. (pulsar_received queue (pu_next s) m, s)) (\<lambda>(received, mismatch).
             then_op (call_hook K mismatch)
             (then_op (modify (\<lambda>s. s\<lparr>pu_handles := (pu_handles s)(pu_next s := Some m), pu_next := Suc (pu_next s)\<rparr>))
               (ret (Some received))))))"

definition pulsar_settle ::
  "('w pulsar_setup \<Rightarrow> nat \<Rightarrow> pulsar_message \<Rightarrow> ('w, unit) op) \<Rightarrow> 'w pulsar_setup \<Rightarrow> received_message \<Rightarrow> ('w pulsar, unit) op" where
  "pulsar_settle f K m =
     (\<lambda>s. case pu_handles s (rm_handle m) of
            None \<Rightarrow> ret () s
          | Some h \<Rightarrow> bind_op (pulsar_consumer K (rm_queue m)) (\<lambda>consumer. pulsar_client (f K consumer h)) s)"

text \<open>The producers, the consumers and then the client are closed.\<close>

definition pulsar_close :: "'w pulsar_setup \<Rightarrow> ('w pulsar, unit) op" where
  "pulsar_close K =
     (\<lambda>s. close_each (map (\<lambda>(queue, h). pulsar_client (pc_close_link K h)) (pu_producers s @ pu_consumers s)
                      @ [pulsar_client (pc_close K)]) s)"

definition pulsar_transport :: "'w pulsar_setup \<Rightarrow> 'w pulsar transport" where
  "pulsar_transport K =
     \<lparr>t_publish = (\<lambda>q body. pulsar_publish_routed K q body (Route [])),
      t_pop = (\<lambda>q. pulsar_pop K q 1),
      t_ack = pulsar_settle pc_acknowledge K,
      t_close = pulsar_close K,
      t_classifies_poison = False,
      t_publish_with_headers = Some (\<lambda>q body hs. pulsar_publish_redriven K q body hs (Route [])),
      t_publish_routed = Some (pulsar_publish_routed K),
      t_publish_settle = None,
      t_publish_redriven = Some (\<lambda>q body hs r key. pulsar_publish_redriven K q body hs r),
      t_redeliver = None, t_dead_letter = None,
      t_rewind = Some (pulsar_settle pc_nack K),
      t_dead_letter_queue_name = None, t_abandon = None, t_settle_native = None,
      t_settle_native_dead_letter = None, t_pop_batch = None, t_retry_tiers_ms = None\<rparr>"

end
