(* ===== verification/Pika.thy ===== *)
theory Pika
  imports Asb
begin

text \<open>
  \<open>pika_transport.py\<close>: the AMQP 0-9-1 properties of a body, the header table of a delivery, and the
  transport with its lazy connection, which is opened again after a drop.
\<close>

section \<open>Values\<close>

text \<open>The properties of a body that is no JSON are the content type and the delivery mode alone.\<close>

record pika_fields =
  pf_message_id :: pyval
  pf_correlation_id :: pyval
  pf_type :: pyval
  pf_headers :: "pyval dict"

definition pika_headers :: "headers \<Rightarrow> pyval dict \<Rightarrow> pyval dict \<Rightarrow> pyval dict" where
  "pika_headers extra meta envelope =
     (let own = dict_of_pairs (map (\<lambda>(k, v). (k, PStr v)) (filter (\<lambda>(k, v). k \<noteq> [] \<and> v \<noteq> []) extra));
          contract = [(u ''x-schema-version'', get_or_none meta (u ''schema_version'')),
                      (u ''x-source-lang'', get_or_none meta (u ''lang'')),
                      (u ''x-attempts'', case dget envelope (u ''attempts'') of None \<Rightarrow> PInt 0 | Some v \<Rightarrow> v)]
      in filter (\<lambda>(k, v). v \<noteq> PNone) (dupdate own contract))"

definition pika_properties :: "pystr \<Rightarrow> headers \<Rightarrow> pika_fields option res" where
  "pika_properties body extra =
     (case loads body of
        Inl e \<Rightarrow> if exc_class_of e = ValueError \<or> exc_class_of e = TypeError then Inr None else Inl e
      | Inr v \<Rightarrow>
          (case as_dict (Some v) of
             None \<Rightarrow> Inl (Exc AttributeError (quoted (py_type_name v) @ u '' object has no attribute '' @ quoted (u ''get'')))
           | Some envelope \<Rightarrow>
               bind_res (meta_or_empty envelope) (\<lambda>meta.
                 Inr (Some \<lparr>pf_message_id = get_or_none meta (u ''id''), pf_correlation_id = get_or_none envelope (u ''trace_id''),
                            pf_type = get_or_none envelope (u ''job''), pf_headers = pika_headers extra meta envelope\<rparr>))))"

text \<open>A bytes value is decoded strictly; keys are names.\<close>

fun delivery_headers :: "(pystr \<times> prop_value) list \<Rightarrow> headers \<Rightarrow> headers res" where
  "delivery_headers [] out = Inr out"
| "delivery_headers ((key, v) # table) out =
     (case v of
        PropNone \<Rightarrow> delivery_headers table out
      | PropBytes b \<Rightarrow>
          (case utf8_decode b of
             None \<Rightarrow> Inl (Exc UnicodeDecodeError (u ''invalid start byte''))
           | Some s \<Rightarrow> delivery_headers table (dset key s out))
      | _ \<Rightarrow> (case header_text (prop_text v) of
                None \<Rightarrow> delivery_headers table out
              | Some s \<Rightarrow> delivery_headers table (dset key s out)))"

section \<open>The transport\<close>

record pika_delivery =
  pd_tag :: int
  pd_body :: raw_text
  pd_headers :: "(pystr \<times> prop_value) list"

text \<open>\<open>is_closed\<close> of the connection and of the channel is read off the world.\<close>

record 'w pika_setup =
  pk_connect :: "('w, unit) op"
  pk_connection_closed :: "'w \<Rightarrow> bool"
  pk_open_channel :: "('w, unit) op"
  pk_channel_closed :: "'w \<Rightarrow> bool"
  pk_declare :: "pystr \<Rightarrow> ('w, unit) op"
  pk_publish :: "pystr \<Rightarrow> bytes \<Rightarrow> pika_fields option \<Rightarrow> ('w, unit) op"
  pk_get :: "pystr \<Rightarrow> ('w, pika_delivery option) op"
  pk_ack :: "int \<Rightarrow> ('w, unit) op"
  pk_sleep :: "rat \<Rightarrow> ('w, unit) op"
  pk_close :: "('w, unit) op"

record 'w pika =
  pi_world :: 'w
  pi_connection :: bool
  pi_channel :: bool
  pi_declared :: "pystr list"
  pi_handles :: "nat \<Rightarrow> int"
  pi_next :: nat

definition pika_client :: "('w, 'a) op \<Rightarrow> ('w pika, 'a) op" where
  "pika_client f = (\<lambda>s. case f (pi_world s) of (r, w) \<Rightarrow> (r, s\<lparr>pi_world := w\<rparr>))"

definition pika_chan :: "'w pika_setup \<Rightarrow> ('w pika, unit) op" where
  "pika_chan K =
     then_op
       (\<lambda>s. if \<not> pi_connection s \<or> pk_connection_closed K (pi_world s)
            then then_op (pika_client (pk_connect K))
                   (modify (\<lambda>s. s\<lparr>pi_connection := True, pi_channel := False, pi_declared := []\<rparr>)) s
            else ret () s)
       (\<lambda>s. if \<not> pi_channel s \<or> pk_channel_closed K (pi_world s)
            then then_op (pika_client (pk_open_channel K)) (modify (\<lambda>s. s\<lparr>pi_channel := True\<rparr>)) s
            else ret () s)"

definition declare_queue :: "'w pika_setup \<Rightarrow> pystr \<Rightarrow> ('w pika, unit) op" where
  "declare_queue K queue =
     (\<lambda>s. if queue \<in> set (pi_declared s) then ret () s
          else then_op (pika_chan K)
                 (then_op (pika_client (pk_declare K queue)) (modify (\<lambda>s. s\<lparr>pi_declared := queue # pi_declared s\<rparr>))) s)"

definition pika_publish :: "'w pika_setup \<Rightarrow> pystr \<Rightarrow> pystr \<Rightarrow> headers \<Rightarrow> ('w pika, unit) op" where
  "pika_publish K queue body headers =
     then_op (declare_queue K queue)
     (then_op (pika_chan K)
     (bind_op (lift_res (utf8_bytes body)) (\<lambda>data.
      bind_op (lift_res (pika_properties body headers)) (\<lambda>props.
        pika_client (pk_publish K queue data props)))))"

definition pika_received :: "pystr \<Rightarrow> nat \<Rightarrow> pika_delivery \<Rightarrow> received_message res" where
  "pika_received queue h d =
     bind_res (delivery_headers (pd_headers d) []) (\<lambda>headers.
       Inr \<lparr>rm_body = (case pd_body d of RawBytes b \<Rightarrow> utf8_decode_escape b | RawStr s \<Rightarrow> s | RawNone \<Rightarrow> u ''None''),
            rm_queue = queue, rm_handle = h, rm_headers = headers, rm_route = Route [], rm_key = None,
            rm_native_attempts = 0\<rparr>)"

definition pika_pop :: "'w pika_setup \<Rightarrow> pystr \<Rightarrow> rat \<Rightarrow> ('w pika, received_message option) op" where
  "pika_pop K queue timeout =
     then_op (declare_queue K queue)
     (then_op (pika_chan K)
     (bind_op (pika_client (pk_get K queue)) (\<lambda>r.
        case r of
          None \<Rightarrow> then_op (if 0 < timeout then pika_client (pk_sleep K timeout) else ret ()) (ret None)
        | Some d \<Rightarrow>
            bind_op (\<lambda>s. (pika_received queue (pi_next s) d, s)) (\<lambda>received.
              then_op (modify (\<lambda>s. s\<lparr>pi_handles := (pi_handles s)(pi_next s := pd_tag d), pi_next := Suc (pi_next s)\<rparr>))
                (ret (Some received))))))"

definition pika_ack :: "'w pika_setup \<Rightarrow> received_message \<Rightarrow> ('w pika, unit) op" where
  "pika_ack K m = then_op (pika_chan K) (\<lambda>s. pika_client (pk_ack K (pi_handles s (rm_handle m))) s)"

definition pika_transport :: "'w pika_setup \<Rightarrow> 'w pika transport" where
  "pika_transport K =
     \<lparr>t_publish = (\<lambda>q body. pika_publish K q body []),
      t_pop = (\<lambda>q. pika_pop K q 1),
      t_ack = pika_ack K,
      t_close = (\<lambda>s. if pi_connection s then catch_exc (pika_client (pk_close K)) (\<lambda>e. ret ()) s else ret () s),
      t_classifies_poison = False,
      t_publish_with_headers = Some (pika_publish K),
      t_publish_routed = None, t_publish_settle = None, t_publish_redriven = None,
      t_redeliver = None, t_dead_letter = None, t_rewind = None, t_dead_letter_queue_name = None,
      t_abandon = None, t_settle_native = None, t_settle_native_dead_letter = None,
      t_pop_batch = None, t_retry_tiers_ms = None\<rparr>"

end
