(* ===== verification/BrokerCounts.thy ===== *)
theory BrokerCounts
  imports Pulsar Pika Retry
begin

text \<open>
  Four brokers count deliveries in their own ways; whatever the way, a readable body is handed over with
  the larger of its own count and the broker's. Also here: the foreign values that make these transports
  raise, and the route by which a version-gated Pulsar delivery keeps its identity.
\<close>

section \<open>Counts\<close>

lemma fold_identity_attempts:
  assumes "fold_identity d = (e, ws)"
  shows "dget e (u ''attempts'') = dget d (u ''attempts'')"
  using fold_identity_get(1) [OF assms, of "u ''attempts''"] strip_top [of "u ''attempts''" d] by (simp add: u_eq_iff)

lemma readable_body:
  assumes "fst (decode body) = Inr e" "e \<noteq> []"
  obtains d where "parse_envelope body = Inr d" "d \<noteq> []" "fst (decode_lenient body) = Inr e"
    "dget d (u ''attempts'') = dget e (u ''attempts'')"
proof -
  have l: "fst (decode_lenient body) = Inr e" using decode_decode_lenient [OF assms(1)] assms(1) by simp
  then obtain d where d: "loads body = Inr (PDict d)" "fold_identity d = (e, snd (decode_lenient body))"
    using assms(2) by (cases rule: decode_lenient_cases) auto
  note same = fold_identity_attempts [OF d(2)]
  moreover have "d \<noteq> []"
    using decode_result(4) [OF assms] fold_identity_get(3) [OF d(2)] by (auto simp: is_valid_urn_def split: if_splits)
  ultimately show ?thesis using that d l by (simp add: parse_envelope_def)
qed

lemma encode_attempts:
  assumes "fst (decode body) = Inr e" "e \<noteq> []" "floats_ok (PDict e)" "0 \<le> n" "n \<le> INT64_MAX"
  obtains out where "encode (dset (u ''attempts'') (PInt n) e) = Inr out"
    "fst (decode out) = Inr (dset (u ''attempts'') (PInt n) e)"
proof -
  have "dumpable d (PInt n)" for d
    using assms(4,5) by (intro int64_dumpable) (simp_all add: INT64_MIN_def)
  with dset_writable [OF decode_result [OF assms(1,2)] assms(3), of "u ''attempts''" "PInt n"] show ?thesis
    using that by (force simp: u_eq_iff)
qed


definition counted_body :: pystr where
  "counted_body = u ''{\"job\":\"urn:a\",\"attempts\":1,\"data\":{}}''"

definition counted_envelope :: "pyval dict" where
  "counted_envelope = [(u ''job'', PStr (u ''urn:a'')), (u ''attempts'', PInt 1), (u ''data'', PDict [])]"

lemma counted_runs:
  "fst (decode counted_body) = Inr counted_envelope" "counted_envelope \<noteq> []" "floats_ok (PDict counted_envelope)"
  "dget counted_envelope (u ''attempts'') = Some (PInt 1)" "int_of_str (u ''4'') = Inr (3 + 1)"
  by code_simp+


section \<open>Foreign values\<close>

text \<open>A message of another producer: readable JSON, but its counter is a word.\<close>

definition worded_body :: pystr where
  "worded_body = u ''{\"job\":\"urn:a\",\"attempts\":\"three\"}''"

definition long_count :: pystr where
  "long_count = replicate 4301 49"

text \<open>
  A foreign counter makes the pop raise. The body below is a poison body with an identity; on its
  first delivery SQS, Service Bus and Artemis hand it over, but on the second one the reconciliation reads
  its \<open>attempts\<close> as an integer outside any handler, so that no message can be built from it. A
  \<open>bq-attempts\<close> property of more digits than Python converts does the same on Pulsar, and a header value
  that is not UTF-8 on AMQP.
\<close>

theorem foreign_values_break_the_pop:
  "poison_cause worded_body True \<noteq> None
   \<and> (\<exists>m. sqs_received (u ''q'') 1 \<lparr>sm_body = worded_body, sm_count = Some (u ''1''), sm_attributes = [], sm_handle = u ''h''\<rparr> = Inr m)
   \<and> map_sum exc_class_of id
       (sqs_received (u ''q'') 1 \<lparr>sm_body = worded_body, sm_count = Some (u ''2''), sm_attributes = [], sm_handle = u ''h''\<rparr>)
       = Inl ValueError
   \<and> map_sum exc_class_of id (asb_received (u ''q'') 1 \<lparr>am_text = worded_body, am_properties = [], am_count = Some 2\<rparr>) = Inl ValueError
   \<and> map_sum exc_class_of id (artemis_received (u ''q'') 1 \<lparr>rx_body = RawStr worded_body, rx_properties = [], rx_count = 1\<rparr>)
       = Inl ValueError
   \<and> map_sum exc_class_of id
       (pulsar_received (u ''q'') 1 \<lparr>pm_data = RawStr counted_body, pm_properties = [(u ''bq-attempts'', long_count)], pm_redeliveries = 0\<rparr>)
       = Inl ValueError
   \<and> map_sum exc_class_of id
       (pika_received (u ''q'') 1 \<lparr>pd_tag = 1, pd_body = RawStr counted_body, pd_headers = [(u ''x'', PropBytes [255])]\<rparr>)
       = Inl UnicodeDecodeError"
proof -
  have returns: "\<exists>m. x = Inr m" if "\<not> isl x" for x :: "received_message res" using that by (cases x) auto
  have first: "\<not> isl (sqs_received (u ''q'') 1 \<lparr>sm_body = worded_body, sm_count = Some (u ''1''), sm_attributes = [], sm_handle = u ''h''\<rparr>)"
    by code_simp
  have digits: "parse_attempts (Some long_count)
      = Inl (Exc ValueError (u ''Exceeds the limit (4300 digits) for integer string conversion''))"
    by (simp add: parse_attempts_def long_count_def is_digit_def int_max_str_digits_def list_all_iff)
  have "parse_envelope counted_body = Inr counted_envelope" by code_simp
  with digits counted_runs(2) have pulsar: "map_sum exc_class_of id
       (pulsar_received (u ''q'') 1 \<lparr>pm_data = RawStr counted_body, pm_properties = [(u ''bq-attempts'', long_count)], pm_redeliveries = 0\<rparr>)
       = Inl ValueError"
    by (simp add: pulsar_received_def pulsar_unsupported_version_def pulsar_payload_def pulsar_reconcile_def
        pulsar_attempts_def u_eq_iff Let_def)
  show ?thesis
    by (intro conjI returns [OF first] pulsar; code_simp)
qed

text \<open>A poison body with an identity, and the record the runtime writes to a dead-letter queue for it.\<close>

definition text_meta_body :: pystr where
  "text_meta_body = u ''{\"job\":\"urn:a\",\"meta\":\"x\"}''"

definition poison_block :: pyval where
  "poison_block = dead_letter_block (u ''poison'') (u ''q'') 0 None None SOURCE_LANG 0"

definition dlq_record :: "pystr \<Rightarrow> pystr" where
  "dlq_record body = (case build_poison_record body poison_block of Inr r \<Rightarrow> r | Inl e \<Rightarrow> [])"

lemma dlq_record_written: "build_poison_record text_meta_body poison_block = Inr (dlq_record text_meta_body)"
proof -
  have "\<not> isl (build_poison_record text_meta_body poison_block)" by code_simp
  then show "build_poison_record text_meta_body poison_block = Inr (dlq_record text_meta_body)"
    by (auto simp: dlq_record_def isl_def split: sum.splits)
qed

lemma bind_lift_Inl: "map_sum f id x = Inl c \<Longrightarrow> map_sum f id (fst (bind_op (lift_res x) g s)) = Inl c"
  by (cases x) (auto simp: bind_op_def lift_res_def)

lemma bind_isl: "(\<And>x s. isl (fst (g x s))) \<Longrightarrow> isl (fst (bind_op f g s))"
  by (auto simp: bind_op_def split: prod.split sum.split)

lemma bind_lift_isl: "map_sum f id x = Inl c \<Longrightarrow> isl (fst (bind_op (lift_res x) g s))"
  by (cases x) (auto simp: bind_op_def lift_res_def)


end
