(* ===== verification/PulsarRoute.thy ===== *)
theory PulsarRoute
  imports Pulsar
begin

text \<open>
  The reserved route of a version-gated Pulsar delivery carries the rejected version and the original
  \<open>bq-job\<close>, both escaped, and gives them back.
\<close>

lemma quote_byte_chars: "b < 256 \<Longrightarrow> c \<in> set (quote_byte b) \<Longrightarrow> c < 128 \<and> c \<noteq> 63"
  by (auto simp: quote_byte_def is_digit_def Let_def split: if_splits)

lemma hex_back: "n < 16 \<Longrightarrow> hex_val (if n < 10 then 48 + n else 55 + n) = Some n"
  by (auto simp: hex_val_def)

lemma unquote_quote_byte:
  assumes "b < 256"
  shows "unquote_bytes (quote_byte b @ r) = b # unquote_bytes r"
proof (cases "is_digit b \<or> 65 \<le> b \<and> b \<le> 90 \<or> 97 \<le> b \<and> b \<le> 122 \<or> b \<in> {45, 46, 95, 126}")
  case True
  then have "b \<noteq> 37" "quote_byte b = [b]" by (auto simp: quote_byte_def is_digit_def)
  then show ?thesis by simp
next
  case False
  define h where "h = (\<lambda>n::nat. if n < 10 then 48 + n else 55 + n)"
  have q: "quote_byte b = [37, h (b div 16), h (b mod 16)]"
    using False unfolding quote_byte_def h_def Let_def by (simp only: if_False)
  have "hex_val (h (b div 16)) = Some (b div 16)" "hex_val (h (b mod 16)) = Some (b mod 16)"
    using assms unfolding h_def by (intro hex_back; simp)+
  then show ?thesis unfolding q by (simp add: escaped_byte_def)
qed

lemma unquote_quote_bytes: "\<forall>b \<in> set bs. b < 256 \<Longrightarrow> unquote_bytes (concat (map quote_byte bs)) = bs"
  by (induction bs) (simp_all add: unquote_quote_byte)

lemma utf8_bytes_back:
  assumes "\<forall>c \<in> set s. c < 0x110000"
  shows "utf8_encode s = Some bs \<Longrightarrow> utf8_decode_replace bs = s \<and> (\<forall>b \<in> set bs. b < 256)"
  using assms
proof (induction s arbitrary: bs)
  case Nil
  then show ?case by (simp add: utf8_encode_def utf8_decode_replace.simps)
next
  case (Cons c s)
  from Cons.prems(1) obtain r where r: "\<not> is_surrogate c" "utf8_encode s = Some r" "bs = cp_bytes c @ r"
    by (auto simp: utf8_encode_def split: option.splits if_splits)
  from Cons.IH [OF r(2)] Cons.prems(2) have IH: "utf8_decode_replace r = s" "\<forall>b \<in> set r. b < 256" by simp_all
  have c: "c < 0x110000" using Cons.prems(2) by simp
  from decode_cp_bytes [OF c r(1)] have "decode_cp bs = Some (c, r)" by (simp add: r(3))
  then have "utf8_decode_replace bs = c # utf8_decode_replace r"
    by (subst utf8_decode_replace.simps) (auto simp: decode_cp_def split: list.split)
  with IH r(3) cp_bytes_bound [OF c] show ?case by auto
qed

lemma unquote_ascii:
  assumes "\<forall>c \<in> set s. c < 128"
  shows "unquote s = utf8_decode_replace (unquote_bytes s)"
proof (cases "s = []")
  case True
  then show ?thesis by (simp add: unquote.simps utf8_decode_replace.simps)
next
  case False
  have "unquote s = utf8_decode_replace (unquote_bytes (takeWhile (\<lambda>c. c < 128) s)) @ unquote (dropWhile (\<lambda>c. c < 128) s)"
    using False assms by (cases s) (simp_all add: unquote.simps [of "x # xs" for x xs])
  moreover have "takeWhile (\<lambda>c. c < 128) s = s" "dropWhile (\<lambda>c. c < 128) s = []"
    using assms by (simp_all add: takeWhile_eq_all_conv dropWhile_eq_Nil_conv)
  ultimately show ?thesis by (simp add: unquote.simps [of "[]"])
qed

lemma quote_back:
  assumes "quote s = Inr q" "\<forall>c \<in> set s. c < 0x110000"
  shows "unquote q = s" "63 \<notin> set q"
proof -
  from assms(1) obtain bs where bs: "utf8_encode s = Some bs" "q = concat (map quote_byte bs)"
    by (auto simp: quote_def utf8_bytes_def bind_res_def split: option.splits)
  note decoded = utf8_bytes_back [OF assms(2) bs(1)]
  then have "\<forall>c \<in> set q. c < 128 \<and> c \<noteq> 63" using quote_byte_chars bs(2) by auto
  then show "unquote q = s" "63 \<notin> set q"
    using decoded unquote_quote_bytes bs(2) by (auto simp: unquote_ascii)
qed

lemma split_at_param:
  assumes "63 \<notin> set v"
  shows "split_at GATE_JOB_PARAM v = (v, None)" "split_at GATE_JOB_PARAM (v @ GATE_JOB_PARAM @ j) = (v, Some j)"
proof -
  obtain p where p: "GATE_JOB_PARAM = 63 # p" by (simp add: GATE_JOB_PARAM_def u_def)
  show "split_at GATE_JOB_PARAM v = (v, None)"
    using assms by (induction v) (auto simp: p starts_with_iff)
  have "split_at GATE_JOB_PARAM (GATE_JOB_PARAM @ j) = ([], Some j)"
    by (simp add: p starts_with_iff)
  then show "split_at GATE_JOB_PARAM (v @ GATE_JOB_PARAM @ j) = (v, Some j)"
    using assms by (induction v) (auto simp: p starts_with_iff)
qed

text \<open>
  C21: a gated delivery keeps its identity. The reserved route under which Pulsar hands over a message of
  an unsupported version parses back to that version and the \<open>bq-job\<close> the delivery carried, and writing
  the body under that route sets exactly these two properties again, so a replayed record meets the
  same gate.
\<close>

theorem gate_route_keeps_identity:
  assumes "gate_route version properties = Inr r" "\<forall>c \<in> set version. c < 0x110000"
    and "\<forall>job. dget properties (u ''bq-job'') = Some job \<longrightarrow> (\<forall>c \<in> set job. c < 0x110000)"
    and "pulsar_projection body r = Inr props"
  shows "parse_gate_route r = Some (version, dget properties (u ''bq-job''))
    \<and> dget props (u ''bq-schema-version'') = Some version
    \<and> (dget properties (u ''bq-job'') \<noteq> None \<longrightarrow> dget props (u ''bq-job'') = dget properties (u ''bq-job''))"
proof -
  from assms(1) obtain v where v: "quote version = Inr v" by (auto simp: gate_route_def bind_res_def split: sum.splits)
  have parse: "parse_gate_route r = Some (version, dget properties (u ''bq-job''))"
  proof (cases "dget properties (u ''bq-job'')")
    case None
    with assms(1) v have "r = UNSUPPORTED_SCHEMA_ROUTE_PREFIX @ v" by (simp add: gate_route_def)
    with None quote_back [OF v assms(2)] show ?thesis
      by (simp add: parse_gate_route_def starts_with_append split_at_param)
  next
    case (Some job)
    with assms(1) v obtain j where j: "quote job = Inr j" "r = UNSUPPORTED_SCHEMA_ROUTE_PREFIX @ v @ GATE_JOB_PARAM @ j"
      by (auto simp: gate_route_def bind_res_def split: sum.splits)
    have "\<forall>c \<in> set job. c < 0x110000" using assms(3) Some by blast
    from quote_back(1) [OF j(1) this] quote_back [OF v assms(2)] Some j(2) show ?thesis
      by (simp add: parse_gate_route_def starts_with_append split_at_param)
  qed
  from assms(4) obtain base where "props = (case dget properties (u ''bq-job'') of
      None \<Rightarrow> dset (u ''bq-schema-version'') version base
    | Some j \<Rightarrow> dset (u ''bq-job'') j (dset (u ''bq-schema-version'') version base))"
    by (auto simp: pulsar_projection_def parse bind_res_def Let_def split: sum.splits)
  then show ?thesis using parse by (auto simp: u_eq_iff split: option.split)
qed

definition gated_properties :: "pystr dict" where
  "gated_properties = [(u ''bq-job'', u ''urn:a?b''), (u ''bq-schema-version'', u ''2'')]"

definition gated_route :: pystr where
  "gated_route = u ''babelqueue:unsupported-schema-version:2?bq-job=urn%3Aa%3Fb''"

lemma gated_runs:
  "gate_route (u ''2'') gated_properties = Inr gated_route" "dget gated_properties (u ''bq-job'') = Some (u ''urn:a?b'')"
  "pulsar_projection (u ''[]'') gated_route = Inr [(u ''bq-schema-version'', u ''2''), (u ''bq-job'', u ''urn:a?b'')]"
  "list_all (\<lambda>c. c < 0x110000) (u ''2'')" "list_all (\<lambda>c. c < 0x110000) (u ''urn:a?b'')"
  by code_simp+

theorem gate_route_keeps_identity_witness:
  "parse_gate_route gated_route = Some (u ''2'', Some (u ''urn:a?b''))"
  using gate_route_keeps_identity [OF gated_runs(1) _ _ gated_runs(3)] gated_runs(2,4,5)
  by (auto simp: list_all_iff)

end
