(* ===== verification/Trace.thy ===== *)
theory Trace
  imports Utf8 JsonPrint
begin

text \<open>
  The trace identifiers of \<open>otel.py\<close>: how the text of an envelope's \<open>trace_id\<close> becomes the 128 bits of an
  OpenTelemetry trace and back. SHA-256 is a parameter.
\<close>

section \<open>Identifiers\<close>

text \<open>\<open>format(n, "032x")\<close>, digit by digit, and \<open>int.from_bytes(b, "big")\<close>.\<close>

primrec hex_pad :: "nat \<Rightarrow> nat \<Rightarrow> pystr" where
  "hex_pad 0 n = []"
| "hex_pad (Suc k) n = hex_pad k (n div 16) @ [hex_digit (n mod 16)]"

definition int_from_bytes :: "bytes \<Rightarrow> nat" where
  "int_from_bytes b = foldl (\<lambda>n x. 256 * n + x) 0 b"

definition uuid_of :: "nat \<Rightarrow> pystr" where
  "uuid_of trace_id_int =
     (let h = hex_pad 32 (trace_id_int mod 2 ^ 128)
      in take 8 h @ [45] @ take 4 (drop 8 h) @ [45] @ take 4 (drop 12 h) @ [45] @ take 4 (drop 16 h) @ [45] @ drop 20 h)"

text \<open>\<open>bytes.fromhex\<close>, which skips white space before a pair of digits.\<close>

fun bytes_fromhex :: "pystr \<Rightarrow> bytes option" where
  "bytes_fromhex [] = Some []"
| "bytes_fromhex (c # cs) =
     (if c \<in> {9, 10, 11, 12, 13, 32} then bytes_fromhex cs
      else case cs of
             [] \<Rightarrow> None
           | d # rest \<Rightarrow>
               (case (hex_val c, hex_val d) of
                  (Some h, Some l) \<Rightarrow> map_option ((#) (16 * h + l)) (bytes_fromhex rest)
                | _ \<Rightarrow> None))"

definition uuid_bytes :: "pystr \<Rightarrow> bytes option" where
  "uuid_bytes s = (let h = removeAll 45 s in if length h \<noteq> 32 then None else bytes_fromhex h)"

definition direct_trace_id :: "pystr \<Rightarrow> nat option" where
  "direct_trace_id trace_id =
     (case uuid_bytes trace_id of
        None \<Rightarrow> None
      | Some raw \<Rightarrow> let n = int_from_bytes raw in if n = 0 then None else Some n)"

definition hashed :: "(bytes \<Rightarrow> bytes) \<Rightarrow> nat \<Rightarrow> pystr \<Rightarrow> nat res" where
  "hashed sha256 width text =
     bind_res (utf8_bytes text) (\<lambda>b. let n = int_from_bytes (take width (sha256 b)) in Inr (if n = 0 then 1 else n))"

definition trace_id_of :: "(bytes \<Rightarrow> bytes) \<Rightarrow> pystr \<Rightarrow> nat res" where
  "trace_id_of sha256 trace_id =
     (case direct_trace_id trace_id of Some n \<Rightarrow> Inr n | None \<Rightarrow> hashed sha256 16 trace_id)"

definition span_id_of :: "(bytes \<Rightarrow> bytes) \<Rightarrow> pystr \<Rightarrow> nat res" where
  "span_id_of sha256 trace_id = hashed sha256 8 (u ''babelqueue-span:'' @ trace_id)"

section \<open>There and back\<close>

lemma length_hex_pad: "length (hex_pad k n) = k"
  by (induction k arbitrary: n) simp_all

lemma hex_pad_digit: "c \<in> set (hex_pad k n) \<Longrightarrow> c \<noteq> 45"
  by (induction k arbitrary: n) (auto simp: hex_digit_def split: if_splits)

lemma bytes_fromhex_append:
  "bytes_fromhex xs = Some b \<Longrightarrow> bytes_fromhex (xs @ ys) = map_option ((@) b) (bytes_fromhex ys)"
proof (induction xs arbitrary: b rule: bytes_fromhex.induct)
  case 1
  then show ?case by (cases "bytes_fromhex ys") auto
next
  case (2 c cs)
  show ?case
  proof (cases "c \<in> {9, 10, 11, 12, 13, 32}")
    case True
    with 2 show ?thesis by simp
  next
    case False
    with 2(3) obtain d rest h l z where c: "cs = d # rest" "hex_val c = Some h" "hex_val d = Some l"
        "bytes_fromhex rest = Some z" "b = (16 * h + l) # z"
      by (auto split: list.splits option.splits)
    from 2(2) [OF False c(1) refl c(2,3,4)] False c show ?thesis
      by (cases "bytes_fromhex ys") simp_all
  qed
qed

lemma int_from_bytes_snoc: "int_from_bytes (b @ [x]) = 256 * int_from_bytes b + x"
  by (simp add: int_from_bytes_def)

lemma hex_pad_back:
  "\<exists>b. bytes_fromhex (hex_pad (2 * k) n) = Some b \<and> int_from_bytes b = n mod 256 ^ k"
proof (induction k arbitrary: n)
  case 0
  then show ?case by (simp add: int_from_bytes_def)
next
  case (Suc k)
  from Suc [of "n div 256"] obtain b where b: "bytes_fromhex (hex_pad (2 * k) (n div 256)) = Some b"
      "int_from_bytes b = n div 256 mod 256 ^ k" by blast
  have ws: "hex_digit d \<notin> {9, 10, 11, 12, 13, 32}" for d by (auto simp: hex_digit_def)
  have "hex_pad (2 * Suc k) n = hex_pad (2 * k) (n div 256) @ [hex_digit (n div 16 mod 16), hex_digit (n mod 16)]"
    by (simp add: div_mult2_eq [symmetric])
  moreover have "bytes_fromhex [hex_digit (n div 16 mod 16), hex_digit (n mod 16)] = Some [n mod 256]"
  proof -
    have "16 * (n div 16 mod 16) + n mod 16 = n mod 256"
      using mod_mult2_eq [of n 16 16] by simp
    then show ?thesis
      using ws [of "n div 16 mod 16"] 
      by simp
  qed
  ultimately have "bytes_fromhex (hex_pad (2 * Suc k) n) = Some (b @ [n mod 256])"
    by (simp add: bytes_fromhex_append [OF b(1)])
  moreover have "int_from_bytes (b @ [n mod 256]) = n mod 256 ^ Suc k"
    by (simp add: int_from_bytes_snoc b(2) mod_mult2_eq [of n 256 "256 ^ k"])
  ultimately show ?case by blast
qed

lemma uuid_of_digits:
  assumes "n < 2 ^ 128"
  shows "removeAll 45 (uuid_of n) = hex_pad 32 n"
proof -
  define h where "h = hex_pad 32 n"
  have plain: "removeAll 45 xs = xs" if "set xs \<subseteq> set h" for xs
    using that hex_pad_digit [of _ 32 n] by (force simp: h_def intro: removeAll_id)
  have "h = take 8 h @ take 4 (drop 8 h) @ take 4 (drop (4 + 8) h) @ take 4 (drop (4 + (4 + 8)) h) @ drop (4 + (4 + (4 + 8))) h"
    by (simp only: drop_drop [symmetric] append_take_drop_id)
  then have "take 8 h @ take 4 (drop 8 h) @ take 4 (drop 12 h) @ take 4 (drop 16 h) @ drop 20 h = h" by simp
  then show ?thesis
    using assms
    by (simp add: uuid_of_def Let_def h_def [symmetric] plain set_take_subset set_drop_subset
        order_trans [OF set_take_subset set_drop_subset])
qed

text \<open>The identifier a producer writes for a trace gives a consumer that trace, without the hash.\<close>

lemma direct_uuid_of:
  assumes "0 < n" "n < 2 ^ 128"
  shows "direct_trace_id (uuid_of n) = Some n"
proof -
  from hex_pad_back [of 16 n] obtain b where "bytes_fromhex (hex_pad 32 n) = Some b" "int_from_bytes b = n mod 256 ^ 16"
    by auto
  with assms show ?thesis
    by (simp add: direct_trace_id_def uuid_bytes_def uuid_of_digits length_hex_pad Let_def)
qed

lemma trace_id_of_uuid: "0 < n \<Longrightarrow> n < 2 ^ 128 \<Longrightarrow> trace_id_of sha256 (uuid_of n) = Inr n"
  by (simp add: trace_id_of_def direct_uuid_of)

end
