(* ===== verification/Otel.thy ===== *)
theory Otel
  imports Trace Dispatch Headers
begin

text \<open>
  \<open>otel.py\<close>: the consumer span around a handler, the producer span around a publish, the metrics and the
  dead-letter counter. The OpenTelemetry API is a record of operations on its own state \<open>'t\<close>; a
  handler and a publisher act on their own world \<open>'w\<close>.
\<close>

section \<open>State\<close>

datatype otel_warning = DefaultSystem pystr | HashedTraceId pystr

text \<open>The world of the application beside the telemetry, and the variables of the module.\<close>

record ('w, 't, 'i) traced =
  tr_world :: 'w
  tr_telemetry :: 't
  tr_warned :: "pystr list"
  tr_default_warned :: bool
  tr_instruments :: "((nat \<times> pystr) \<times> 'i) list"
  tr_warnings :: "otel_warning list"

datatype span_kind = ConsumerSpan | ProducerSpan

text \<open>
  \<open>ot_extract\<close> is the context of the headers' \<open>traceparent\<close> when it holds a valid span context, \<open>ot_remote\<close>
  the context of a non-recording span with the two identifiers, \<open>ot_inject\<close> the carrier written for a span.
  \<open>ot_module\<close> names the module of an exception class that is not this program's.
\<close>

record ('t, 'sp, 'cx, 'i) otel =
  ot_start :: "pystr \<Rightarrow> 'cx option \<Rightarrow> span_kind \<Rightarrow> pyval dict \<Rightarrow> ('t, 'sp) op"
  ot_end :: "'sp \<Rightarrow> ('t, unit) op"
  ot_attribute :: "'sp \<Rightarrow> pystr \<Rightarrow> pyval \<Rightarrow> ('t, unit) op"
  ot_rename :: "'sp \<Rightarrow> pystr \<Rightarrow> ('t, unit) op"
  ot_exception :: "'sp \<Rightarrow> exc \<Rightarrow> ('t, unit) op"
  ot_error :: "'sp \<Rightarrow> pystr option \<Rightarrow> ('t, unit) op"
  ot_counter :: "nat \<Rightarrow> pystr \<Rightarrow> ('t, 'i) op"
  ot_histogram :: "nat \<Rightarrow> pystr \<Rightarrow> rat list option \<Rightarrow> ('t, 'i) op"
  ot_add :: "'i \<Rightarrow> int \<Rightarrow> pystr dict \<Rightarrow> ('t, unit) op"
  ot_record :: "'i \<Rightarrow> rat \<Rightarrow> pystr dict \<Rightarrow> ('t, unit) op"
  ot_clock :: "'t \<Rightarrow> rat"
  ot_trace_id :: "'sp \<Rightarrow> nat"
  ot_inject :: "'sp \<Rightarrow> pystr dict"
  ot_extract :: "headers \<Rightarrow> 'cx option"
  ot_remote :: "nat \<Rightarrow> nat \<Rightarrow> 'cx"
  ot_sha256 :: "bytes \<Rightarrow> bytes"
  ot_module :: "pystr \<Rightarrow> pystr"

definition untraced :: "('w, 't, 'i) traced shared \<Rightarrow> 'w shared" where
  "untraced s =
     \<lparr>sh_stop = sh_stop s, sh_signalled = sh_signalled s, sh_deadline_hit = sh_deadline_hit s,
      sh_deadline_timer = sh_deadline_timer s, sh_env = tr_world (sh_env s)\<rparr>"

definition retraced :: "'w shared \<Rightarrow> ('w, 't, 'i) traced \<Rightarrow> ('w, 't, 'i) traced shared" where
  "retraced w t =
     \<lparr>sh_stop = sh_stop w, sh_signalled = sh_signalled w, sh_deadline_hit = sh_deadline_hit w,
      sh_deadline_timer = sh_deadline_timer w, sh_env = t\<lparr>tr_world := sh_env w\<rparr>\<rparr>"

definition in_world :: "('w shared, 'a) op \<Rightarrow> (('w, 't, 'i) traced shared, 'a) op" where
  "in_world f = (\<lambda>s. case f (untraced s) of (r, w) \<Rightarrow> (r, retraced w (sh_env s)))"

definition telemetry :: "('t, 'a) op \<Rightarrow> (('w, 't, 'i) traced shared, 'a) op" where
  "telemetry f =
     (\<lambda>s. case f (tr_telemetry (sh_env s)) of (r, t) \<Rightarrow> (r, s\<lparr>sh_env := (sh_env s)\<lparr>tr_telemetry := t\<rparr>\<rparr>))"

definition in_module :: "(('w, 't, 'i) traced \<Rightarrow> ('w, 't, 'i) traced) \<Rightarrow> (('w, 't, 'i) traced shared, unit) op" where
  "in_module f = modify (\<lambda>s. s\<lparr>sh_env := f (sh_env s)\<rparr>)"

definition otel_warn :: "otel_warning \<Rightarrow> (('w, 't, 'i) traced shared, unit) op" where
  "otel_warn w = in_module (\<lambda>t. t\<lparr>tr_warnings := tr_warnings t @ [w]\<rparr>)"

section \<open>Attributes\<close>

definition DEFAULT_SYSTEM :: pystr where
  "DEFAULT_SYSTEM = u ''babelqueue''"

definition resolve_system :: "pystr option \<Rightarrow> pystr" where
  "resolve_system system = (case system of Some s \<Rightarrow> if s = [] then DEFAULT_SYSTEM else s | None \<Rightarrow> DEFAULT_SYSTEM)"

definition warn_default_system :: "pystr option \<Rightarrow> pystr \<Rightarrow> (('w, 't, 'i) traced shared, unit) op" where
  "warn_default_system system where_from =
     (if system \<noteq> None \<and> system \<noteq> Some [] then ret () else otel_warn (DefaultSystem where_from))"

definition warn_default_system_once :: "(('w, 't, 'i) traced shared, unit) op" where
  "warn_default_system_once =
     (\<lambda>s. if tr_default_warned (sh_env s) then ret () s
          else then_op (in_module (\<lambda>t. t\<lparr>tr_default_warned := True\<rparr>)) (warn_default_system None (u ''publish'')) s)"

definition destination :: "pyval \<Rightarrow> pystr option" where
  "destination queue =
     (if queue = PNone then None
      else let txt = py_str queue in if strip ASCII_WHITESPACE txt = [] then None else Some txt)"

definition span_name :: "string \<Rightarrow> pystr option \<Rightarrow> pystr" where
  "span_name operation dest = (case dest of Some d \<Rightarrow> if d = [] then u operation else u operation @ u '' '' @ d | None \<Rightarrow> u operation)"

text \<open>\<open>_as_int\<close>: an \<open>OverflowError\<close> is not caught.\<close>

definition as_int_or :: "pyval \<Rightarrow> int \<Rightarrow> int res" where
  "as_int_or v fallback =
     (case v of
        PBool b \<Rightarrow> Inr fallback
      | _ \<Rightarrow> (case py_int v of
                Inr i \<Rightarrow> Inr i
              | Inl e \<Rightarrow> if exc_class_of e = TypeError \<or> exc_class_of e = ValueError then Inr fallback else Inl e))"

definition error_type :: "('t, 'sp, 'cx, 'i) otel \<Rightarrow> exc \<Rightarrow> pystr" where
  "error_type K e =
     (let name = exc_name (exc_class_of e);
          module = (case exc_class_of e of
                      UserError n \<Rightarrow> ot_module K n
                    | BabelQueueError \<Rightarrow> u ''babelqueue.exceptions'' | EnvelopeKeyError p \<Rightarrow> u ''babelqueue.exceptions''
                    | UnknownUrnError \<Rightarrow> u ''babelqueue.exceptions'' | InvalidPayloadError x y \<Rightarrow> u ''babelqueue.exceptions''
                    | DecryptError \<Rightarrow> u ''babelqueue.exceptions'' | KafkaDeliveryError \<Rightarrow> u ''babelqueue.kafka_transport''
                    | ShutdownDeadline \<Rightarrow> u ''babelqueue.app''
                    | _ \<Rightarrow> u ''builtins'')
      in if name = [] then u ''_OTHER''
         else if module = u ''builtins'' \<or> module = [] then name else module @ u ''.'' @ name)"

definition fail_span :: "('t, 'sp, 'cx, 'i) otel \<Rightarrow> 'sp \<Rightarrow> exc \<Rightarrow> ('t, pystr) op" where
  "fail_span K sp e =
     then_op (ot_exception K sp e)
     (then_op (ot_error K sp (if exc_str e = [] then None else Some (exc_str e)))
     (then_op (ot_attribute K sp (u ''error.type'') (PStr (error_type K e))) (ret (error_type K e))))"

definition metric_attributes :: "pystr \<Rightarrow> string \<Rightarrow> pystr option \<Rightarrow> pystr option \<Rightarrow> pystr dict" where
  "metric_attributes system operation dest err =
     [(u ''messaging.system'', system), (u ''messaging.operation.name'', u operation)]
     @ (case dest of Some d \<Rightarrow> if d = [] then [] else [(u ''messaging.destination.name'', d)] | None \<Rightarrow> [])
     @ (case err of Some t \<Rightarrow> if t = [] then [] else [(u ''error.type'', t)] | None \<Rightarrow> [])"

section \<open>Instruments\<close>

text \<open>A meter by its identity, and whether it can be the key of a weak dictionary.\<close>

record meter =
  mt_id :: nat
  mt_weak :: bool

definition instrument ::
  "meter \<Rightarrow> pystr \<Rightarrow> ('t, 'i) op \<Rightarrow> (('w, 't, 'i) traced shared, 'i) op" where
  "instrument m name create =
     (if \<not> mt_weak m then telemetry create
      else (\<lambda>s. case map_of (tr_instruments (sh_env s)) (mt_id m, name) of
                  Some cached \<Rightarrow> ret cached s
                | None \<Rightarrow>
                    bind_op (telemetry create) (\<lambda>i.
                      then_op (in_module (\<lambda>t. t\<lparr>tr_instruments := ((mt_id m, name), i) # tr_instruments t\<rparr>)) (ret i)) s))"

definition counter_of ::
  "('t, 'sp, 'cx, 'i) otel \<Rightarrow> meter \<Rightarrow> string \<Rightarrow> (('w, 't, 'i) traced shared, 'i) op" where
  "counter_of K m name = instrument m (u name) (ot_counter K (mt_id m) (u name))"

definition DURATION_BUCKETS :: "rat list" where
  "DURATION_BUCKETS =
     [1 / 200, 1 / 100, 1 / 40, 1 / 20, 3 / 40, 1 / 10, 1 / 4, 1 / 2, 3 / 4, 1, 5 / 2, 5, 15 / 2, 10]"

definition duration_histogram ::
  "('t, 'sp, 'cx, 'i) otel \<Rightarrow> meter \<Rightarrow> (('w, 't, 'i) traced shared, 'i) op" where
  "duration_histogram K m =
     (let name = u ''messaging.process.duration''
      in instrument m name
           (\<lambda>t. case ot_histogram K (mt_id m) name (Some DURATION_BUCKETS) t of
                  (Inl e, t') \<Rightarrow>
                    if exc_class_of e = TypeError then ot_histogram K (mt_id m) name None t' else (Inl e, t')
                | r \<Rightarrow> r))"

record 'i instruments =
  in_duration :: 'i
  in_consumed :: 'i
  in_retries :: 'i

definition handler_instruments ::
  "('t, 'sp, 'cx, 'i) otel \<Rightarrow> meter option \<Rightarrow> (('w, 't, 'i) traced shared, 'i instruments option) op" where
  "handler_instruments K meter =
     (case meter of
        None \<Rightarrow> ret None
      | Some m \<Rightarrow>
          bind_op (duration_histogram K m) (\<lambda>d.
          bind_op (counter_of K m ''messaging.client.consumed.messages'') (\<lambda>c.
          bind_op (counter_of K m ''babelqueue.retries'') (\<lambda>r.
            ret (Some \<lparr>in_duration = d, in_consumed = c, in_retries = r\<rparr>)))))"

section \<open>Parents\<close>

text \<open>The carrier of a span, without blank entries.\<close>

definition inject_traceparent :: "('t, 'sp, 'cx, 'i) otel \<Rightarrow> 'sp \<Rightarrow> headers" where
  "inject_traceparent K sp = merge_headers [Some (map (\<lambda>(k, v). (k, Some v)) (ot_inject K sp))]"

definition HEADER_TRACEPARENT :: pystr where
  "HEADER_TRACEPARENT = u ''traceparent''"

definition remote_parent_from_headers :: "('t, 'sp, 'cx, 'i) otel \<Rightarrow> headers \<Rightarrow> 'cx option" where
  "remote_parent_from_headers K hs =
     (case dget hs HEADER_TRACEPARENT of
        Some p \<Rightarrow> if p = [] then None else ot_extract K hs
      | None \<Rightarrow> None)"

definition WARNED_TRACE_IDS_MAX :: nat where
  "WARNED_TRACE_IDS_MAX = 1024"

definition warn_if_hashed :: "pystr \<Rightarrow> (('w, 't, 'i) traced shared, unit) op" where
  "warn_if_hashed trace_id =
     (\<lambda>s. if direct_trace_id trace_id \<noteq> None \<or> trace_id \<in> set (tr_warned (sh_env s)) then ret () s
          else then_op
                 (in_module (\<lambda>t. t\<lparr>tr_warned := trace_id # (if WARNED_TRACE_IDS_MAX \<le> length (tr_warned t) then [] else tr_warned t)\<rparr>))
                 (otel_warn (HashedTraceId (if length trace_id \<le> 64 then trace_id else take 64 trace_id @ u ''...''))) s)"

definition parent_context ::
  "('t, 'sp, 'cx, 'i) otel \<Rightarrow> pystr \<Rightarrow> (('w, 't, 'i) traced shared, 'cx) op" where
  "parent_context K trace_id =
     then_op (warn_if_hashed trace_id)
     (bind_op (lift_res (trace_id_of (ot_sha256 K) trace_id)) (\<lambda>trace.
      bind_op (lift_res (span_id_of (ot_sha256 K) trace_id)) (\<lambda>span. ret (ot_remote K trace span))))"

text \<open>The statement of a \<open>with\<close> block ends the span whatever its body does.\<close>

definition with_span ::
  "('t, 'sp, 'cx, 'i) otel \<Rightarrow> pystr \<Rightarrow> 'cx option \<Rightarrow> span_kind \<Rightarrow> pyval dict
     \<Rightarrow> ('sp \<Rightarrow> (('w, 't, 'i) traced shared, 'a) op) \<Rightarrow> (('w, 't, 'i) traced shared, 'a) op" where
  "with_span K name cx kind attributes body =
     bind_op (telemetry (ot_start K name cx kind attributes)) (\<lambda>sp s.
       case body sp s of
         (r, s1) \<Rightarrow> (case telemetry (ot_end K sp) s1 of (Inl e, s2) \<Rightarrow> (Inl e, s2) | (Inr x, s2) \<Rightarrow> (r, s2)))"

section \<open>The consumer\<close>

definition process_attributes ::
  "pystr \<Rightarrow> pystr \<Rightarrow> pystr \<Rightarrow> int \<Rightarrow> int \<Rightarrow> pystr option \<Rightarrow> pyval \<Rightarrow> pystr option \<Rightarrow> pyval dict" where
  "process_attributes system trace_id name version attempts dest message_id consumer_group =
     [(u ''messaging.system'', PStr system), (u ''messaging.operation.type'', PStr (u ''process'')),
      (u ''messaging.operation.name'', PStr (u ''process'')), (u ''messaging.message.conversation_id'', PStr trace_id),
      (u ''babelqueue.urn'', PStr name), (u ''babelqueue.schema_version'', PInt version),
      (u ''babelqueue.attempts'', PInt attempts), (u ''messaging.operation'', PStr (u ''process'')),
      (u ''messaging.babelqueue.attempts'', PInt attempts)]
     @ (case dest of Some d \<Rightarrow> [(u ''messaging.destination.name'', PStr d)] | None \<Rightarrow> [])
     @ (if message_id \<noteq> PNone \<and> py_str message_id \<noteq> [] then [(u ''messaging.message.id'', PStr (py_str message_id))] else [])
     @ (case consumer_group of Some g \<Rightarrow> if g = [] then [] else [(u ''messaging.consumer.consumer_group.name'', PStr g)] | None \<Rightarrow> [])"

definition count :: "('t, 'sp, 'cx, 'i) otel \<Rightarrow> 'i option \<Rightarrow> pystr dict \<Rightarrow> (('w, 't, 'i) traced shared, unit) op" where
  "count K i attributes = (case i of None \<Rightarrow> ret () | Some c \<Rightarrow> telemetry (ot_add K c 1 attributes))"

text \<open>
  The body of the consumer span: the handler, \<open>except Exception\<close>, and \<open>finally\<close> the duration. An
  exception of the telemetry replaces the handler's.
\<close>

definition timed_call ::
  "('t, 'sp, 'cx, 'i) otel \<Rightarrow> 'i option \<Rightarrow> (pystr option \<Rightarrow> pystr dict) \<Rightarrow> (('w, 't, 'i) traced shared, unit) op
     \<Rightarrow> 'sp \<Rightarrow> (('w, 't, 'i) traced shared, unit) op" where
  "timed_call K histogram labels call sp =
     (\<lambda>s. let started = ot_clock K (tr_telemetry (sh_env s));
              (r, err, s2) =
                (case call s of
                   (Inr x, s1) \<Rightarrow> (Inr x, None, s1)
                 | (Inl e, s1) \<Rightarrow>
                     if is_Exception e
                     then (case telemetry (fail_span K sp e) s1 of
                             (Inr t, s2) \<Rightarrow> (Inl e, Some t, s2)
                           | (Inl e', s2) \<Rightarrow> (Inl e', None, s2))
                     else (Inl e, None, s1))
          in case histogram of
               None \<Rightarrow> (r, s2)
             | Some h \<Rightarrow>
                 (case telemetry (ot_record K h (max 0 (ot_clock K (tr_telemetry (sh_env s2)) - started)) (labels err)) s2 of
                    (Inl e, s3) \<Rightarrow> (Inl e, s3)
                  | (Inr x, s3) \<Rightarrow> (r, s3)))"

definition find_parent :: "('t, 'sp, 'cx, 'i) otel \<Rightarrow> headers \<Rightarrow> pystr \<Rightarrow> (('w, 't, 'i) traced shared, 'cx option) op" where
  "find_parent K hs trace_id =
     (case remote_parent_from_headers K hs of
        Some cx \<Rightarrow> ret (Some cx)
      | None \<Rightarrow> if trace_id = [] then ret None else bind_op (parent_context K trace_id) (\<lambda>cx. ret (Some cx)))"

definition count_delivery ::
  "('t, 'sp, 'cx, 'i) otel \<Rightarrow> 'i instruments option \<Rightarrow> pystr dict \<Rightarrow> int \<Rightarrow> (('w, 't, 'i) traced shared, unit) op" where
  "count_delivery K ins labels attempts =
     then_op (count K (map_option in_consumed ins) labels)
       (if 0 < attempts then count K (map_option in_retries ins) labels else ret ())"

definition traced_run ::
  "('t, 'sp, 'cx, 'i) otel \<Rightarrow> 'w handler \<Rightarrow> pystr \<Rightarrow> pystr option \<Rightarrow> 'i instruments option
     \<Rightarrow> headers \<Rightarrow> bool \<Rightarrow> pyval dict \<Rightarrow> pyval dict \<Rightarrow> pyval dict option \<Rightarrow> (('w, 't, 'i) traced shared, unit) op" where
  "traced_run K h system consumer_group ins hs replay data meta passed =
     (let envelope = (case passed of Some e \<Rightarrow> e | None \<Rightarrow> []);
          trace_id = truthy_text envelope ''trace_id'';
          name = (if truthy (get_or_none envelope (u ''job'')) then truthy_text envelope ''job'' else truthy_text envelope ''urn'');
          dest = destination (get_or_none meta (u ''queue''))
      in bind_op (lift_res (as_int_or (get_or_none envelope (u ''attempts'')) 0)) (\<lambda>attempts.
         bind_op (lift_res (as_int_or (get_or_none meta (u ''schema_version'')) SCHEMA_VERSION)) (\<lambda>version.
         then_op (count_delivery K ins (metric_attributes system ''process'' dest None) attempts)
         (bind_op (find_parent K hs trace_id) (\<lambda>cx.
          with_span K (span_name ''process'' dest) cx ConsumerSpan
            (process_attributes system trace_id name version attempts dest (get_or_none meta (u ''id'')) consumer_group)
            (timed_call K (map_option in_duration ins) (metric_attributes system ''process'' dest)
               (in_world (run_handler h hs replay data meta (if wants_envelope h then passed else None)))))))))"

definition wrap_handler ::
  "('t, 'sp, 'cx, 'i) otel \<Rightarrow> 'w handler \<Rightarrow> pystr option \<Rightarrow> pystr option \<Rightarrow> meter option
     \<Rightarrow> (('w, 't, 'i) traced shared, ('w, 't, 'i) traced handler) op" where
  "wrap_handler K h system consumer_group meter =
     then_op (warn_default_system system (u ''wrap_handler''))
     (bind_op (handler_instruments K meter) (\<lambda>ins.
        ret \<lparr>wants_envelope = True, run_handler = traced_run K h (resolve_system system) consumer_group ins\<rparr>))"

section \<open>The producer\<close>

text \<open>What \<open>publish\<close> is given as its app: two of its methods may be missing.\<close>

record 's publisher =
  pb_queue :: "pystr option"
  pb_envelope :: "(pystr \<Rightarrow> pyval dict \<Rightarrow> pystr option \<Rightarrow> pystr \<Rightarrow> headers \<Rightarrow> ('s, publish_result) op) option"
  pb_with_headers :: "(pystr \<Rightarrow> pyval dict \<Rightarrow> headers \<Rightarrow> pystr option \<Rightarrow> pystr \<Rightarrow> ('s, pyval) op) option"
  pb_publish :: "pystr \<Rightarrow> pyval dict \<Rightarrow> pystr option \<Rightarrow> pystr \<Rightarrow> ('s, pyval) op"

definition app_publisher :: "'w app \<Rightarrow> pystr \<Rightarrow> pystr \<Rightarrow> int \<Rightarrow> 'w shared publisher" where
  "app_publisher a fresh_trace fresh_id now_ms =
     \<lparr>pb_queue = Some (a_queue a),
      pb_envelope = Some (\<lambda>urn0 data queue trace_id hs.
        publish_envelope a urn0 data queue (Some trace_id) hs fresh_trace fresh_id now_ms),
      pb_with_headers = Some (\<lambda>urn0 data hs queue trace_id.
        publish a urn0 data queue (Some trace_id) hs fresh_trace fresh_id now_ms),
      pb_publish = (\<lambda>urn0 data queue trace_id.
        publish a urn0 data queue (Some trace_id) [] fresh_trace fresh_id now_ms)\<rparr>"

definition send ::
  "'w shared publisher \<Rightarrow> pystr \<Rightarrow> pyval dict \<Rightarrow> pystr option \<Rightarrow> pystr \<Rightarrow> headers
     \<Rightarrow> ('w shared, pyval dict option \<times> pyval option \<times> exc option) op" where
  "send p urn0 data queue trace_id hs =
     (case pb_envelope p of
        Some f \<Rightarrow>
          bind_op (f urn0 data queue trace_id hs) (\<lambda>r.
            (case (pr_envelope r, pr_error r) of
               (Some e, None) \<Rightarrow>
                 bind_op (lift_res (published_id r)) (\<lambda>i. ret (Some e, Some i, None))
             | _ \<Rightarrow> ret (pr_envelope r, None, pr_error r)))
      | None \<Rightarrow>
          catch_exc
            (bind_op (case pb_with_headers p of
                        Some with_headers \<Rightarrow>
                          if hs \<noteq> [] then with_headers urn0 data hs queue trace_id else pb_publish p urn0 data queue trace_id
                      | None \<Rightarrow> pb_publish p urn0 data queue trace_id)
               (\<lambda>i. ret (None, Some i, None)))
            (\<lambda>e. ret (None, None, Some e)))"

definition send_attributes :: "pystr \<Rightarrow> pystr \<Rightarrow> pystr option \<Rightarrow> pyval dict" where
  "send_attributes system urn0 dest =
     [(u ''messaging.system'', PStr system), (u ''messaging.operation.type'', PStr (u ''send'')),
      (u ''messaging.operation.name'', PStr (u ''send'')), (u ''babelqueue.urn'', PStr urn0),
      (u ''babelqueue.schema_version'', PInt SCHEMA_VERSION), (u ''messaging.operation'', PStr (u ''publish''))]
     @ (case dest of Some d \<Rightarrow> [(u ''messaging.destination.name'', PStr d)] | None \<Rightarrow> [])"

text \<open>What the produced envelope, or the returned id, adds to the span; the result is the destination.\<close>

definition describe_sent ::
  "('t, 'sp, 'cx, 'i) otel \<Rightarrow> 'sp \<Rightarrow> pystr \<Rightarrow> pystr option \<Rightarrow> pyval dict option \<Rightarrow> pyval option
     \<Rightarrow> ('t, pystr option) op" where
  "describe_sent K sp trace_id dest envelope message_id =
     (case envelope of
        Some e \<Rightarrow>
          bind_op (lift_res (meta_or_empty e)) (\<lambda>produced.
            let d = destination (get_or_none produced (u ''queue''));
                id = get_or_none produced (u ''id'')
            in then_op (if d \<noteq> None \<and> d \<noteq> dest
                        then then_op (ot_rename K sp (span_name ''send'' d))
                               (ot_attribute K sp (u ''messaging.destination.name'') (PStr (the d)))
                        else ret ())
               (then_op (if truthy id then ot_attribute K sp (u ''messaging.message.id'') (PStr (py_str id)) else ret ())
               (then_op (ot_attribute K sp (u ''messaging.message.conversation_id'') (PStr (truthy_text e ''trace_id'')))
                  (ret (if d \<noteq> None then d else dest)))))
      | None \<Rightarrow>
          (case message_id of
             Some i \<Rightarrow>
               then_op (ot_attribute K sp (u ''messaging.message.id'') (PStr (py_str i)))
               (then_op (ot_attribute K sp (u ''messaging.message.conversation_id'') (PStr trace_id)) (ret dest))
           | None \<Rightarrow> ret dest))"

definition send_in_span ::
  "('t, 'sp, 'cx, 'i) otel \<Rightarrow> 'w shared publisher \<Rightarrow> pystr \<Rightarrow> pyval dict \<Rightarrow> pystr option \<Rightarrow> 'i option \<Rightarrow> pystr
     \<Rightarrow> pystr option \<Rightarrow> 'sp \<Rightarrow> (('w, 't, 'i) traced shared, pyval option \<times> exc option) op" where
  "send_in_span K p urn0 data queue sent system dest sp =
     bind_op (in_world (send p urn0 data queue (uuid_of (ot_trace_id K sp)) (inject_traceparent K sp)))
       (\<lambda>(envelope, message_id, error).
     bind_op (telemetry (describe_sent K sp (uuid_of (ot_trace_id K sp)) dest envelope message_id)) (\<lambda>d.
     bind_op (case error of None \<Rightarrow> ret None | Some e \<Rightarrow> bind_op (telemetry (fail_span K sp e)) (\<lambda>t. ret (Some t))) (\<lambda>err.
     then_op (count K sent (metric_attributes system ''send'' d err)) (ret (message_id, error)))))"

text \<open>The result of a publish, as its caller sees it.\<close>

definition sent_result :: "pyval option \<times> exc option \<Rightarrow> pyval res" where
  "sent_result = (\<lambda>(message_id, error).
     case error of
       Some e \<Rightarrow> Inl e
     | None \<Rightarrow> (case message_id of Some i \<Rightarrow> Inr i | None \<Rightarrow> Inl (Exc (UserError (u ''AssertionError'')) [])))"

definition sent_counter_of ::
  "('t, 'sp, 'cx, 'i) otel \<Rightarrow> meter option \<Rightarrow> (('w, 't, 'i) traced shared, 'i option) op" where
  "sent_counter_of K meter =
     (case meter of
        None \<Rightarrow> ret None
      | Some m \<Rightarrow> bind_op (counter_of K m ''messaging.client.sent.messages'') (\<lambda>i. ret (Some i)))"

definition otel_publish ::
  "('t, 'sp, 'cx, 'i) otel \<Rightarrow> 'w shared publisher \<Rightarrow> pystr \<Rightarrow> pyval dict \<Rightarrow> pystr option \<Rightarrow> pystr option \<Rightarrow> meter option
     \<Rightarrow> (('w, 't, 'i) traced shared, pyval) op" where
  "otel_publish K p urn0 data queue system meter =
     (let dest = destination (case queue of Some q \<Rightarrow> if q \<noteq> [] then PStr q else (case pb_queue p of Some d \<Rightarrow> PStr d | None \<Rightarrow> PNone)
                              | None \<Rightarrow> (case pb_queue p of Some d \<Rightarrow> PStr d | None \<Rightarrow> PNone))
      in then_op (if system = None \<or> system = Some [] then warn_default_system_once else ret ())
         (bind_op (sent_counter_of K meter) (\<lambda>sent.
          bind_op (with_span K (span_name ''send'' dest) None ProducerSpan (send_attributes (resolve_system system) urn0 dest)
             (send_in_span K p urn0 data queue sent (resolve_system system) dest))
           (\<lambda>x. lift_res (sent_result x)))))"

section \<open>The dead-letter counter\<close>

definition observe_dead_letter ::
  "('t, 'sp, 'cx, 'i) otel \<Rightarrow> 'i option \<Rightarrow> pystr \<Rightarrow> dead_letter_event \<Rightarrow> (('w, 't, 'i) traced shared, unit) op" where
  "observe_dead_letter K counter system event =
     count K counter (metric_attributes system ''process'' (destination (PStr (ev_queue event))) None)"

definition dead_letter_observer ::
  "('t, 'sp, 'cx, 'i) otel \<Rightarrow> meter option \<Rightarrow> pystr option
     \<Rightarrow> (('w, 't, 'i) traced shared, dead_letter_event \<Rightarrow> (('w, 't, 'i) traced shared, unit) op) op" where
  "dead_letter_observer K meter system =
     (case meter of
        None \<Rightarrow> ret (observe_dead_letter K None (resolve_system system))
      | Some m \<Rightarrow>
          bind_op (counter_of K m ''babelqueue.dlq.messages'') (\<lambda>c.
            then_op (warn_default_system system (u ''dead_letter_observer''))
              (ret (observe_dead_letter K (Some c) (resolve_system system)))))"

end
