(* ===== verification/OtelSpans.thy ===== *)
theory OtelSpans
  imports Otel Lifecycle
begin

text \<open>
  What the instrumentation does to a delivery and to a publish: nothing. The API is assumed to do what its
  specification says: it does not raise, a started span is a new one, and the other calls change that
  span alone.
\<close>

section \<open>The API\<close>

record span =
  sp_name :: pystr
  sp_kind :: span_kind
  sp_attributes :: "pyval dict"
  sp_exceptions :: "exc list"
  sp_error :: "pystr option option"
  sp_ended :: bool

definition on_span :: "'sp \<Rightarrow> (span \<Rightarrow> span) \<Rightarrow> ('sp \<times> span) list \<Rightarrow> ('sp \<times> span) list" where
  "on_span sp f vs = map (\<lambda>(x, v). (x, if x = sp then f v else v)) vs"

definition changes_span ::
  "('t \<Rightarrow> ('sp \<times> span) list) \<Rightarrow> 'sp \<Rightarrow> (span \<Rightarrow> span) \<Rightarrow> ('t, unit) op \<Rightarrow> bool" where
  "changes_span view sp f m \<longleftrightarrow> (\<forall>t. \<exists>t'. m t = (Inr (), t') \<and> view t' = on_span sp f (view t))"

definition leaves_spans :: "('t \<Rightarrow> ('sp \<times> span) list) \<Rightarrow> ('t, 'a) op \<Rightarrow> bool" where
  "leaves_spans view m \<longleftrightarrow> (\<forall>t. \<exists>x t'. m t = (Inr x, t') \<and> view t' = view t)"

definition otel_laws :: "('t, 'sp, 'cx, 'i) otel \<Rightarrow> ('t \<Rightarrow> ('sp \<times> span) list) \<Rightarrow> bool" where
  "otel_laws K view \<longleftrightarrow>
     (\<forall>n c k d t. \<exists>sp t'. ot_start K n c k d t = (Inr sp, t') \<and> sp \<notin> fst ` set (view t)
        \<and> view t' = view t @ [(sp, \<lparr>sp_name = n, sp_kind = k, sp_attributes = d, sp_exceptions = [], sp_error = None, sp_ended = False\<rparr>)])
   \<and> (\<forall>sp. changes_span view sp (\<lambda>v. v\<lparr>sp_ended := True\<rparr>) (ot_end K sp))
   \<and> (\<forall>sp k x. changes_span view sp (\<lambda>v. v\<lparr>sp_attributes := dset k x (sp_attributes v)\<rparr>) (ot_attribute K sp k x))
   \<and> (\<forall>sp n. changes_span view sp (\<lambda>v. v\<lparr>sp_name := n\<rparr>) (ot_rename K sp n))
   \<and> (\<forall>sp e. changes_span view sp (\<lambda>v. v\<lparr>sp_exceptions := sp_exceptions v @ [e]\<rparr>) (ot_exception K sp e))
   \<and> (\<forall>sp d. changes_span view sp (\<lambda>v. v\<lparr>sp_error := Some d\<rparr>) (ot_error K sp d))
   \<and> (\<forall>m n. leaves_spans view (ot_counter K m n)) \<and> (\<forall>m n b. leaves_spans view (ot_histogram K m n b))
   \<and> (\<forall>i n l. leaves_spans view (ot_add K i n l)) \<and> (\<forall>i x l. leaves_spans view (ot_record K i x l))"

lemma otel_lawsD:
  assumes "otel_laws K view"
  shows "\<exists>sp t'. ot_start K n c k d t = (Inr sp, t') \<and> sp \<notin> fst ` set (view t)
        \<and> view t' = view t @ [(sp, \<lparr>sp_name = n, sp_kind = k, sp_attributes = d, sp_exceptions = [], sp_error = None, sp_ended = False\<rparr>)]"
    and "changes_span view sp (\<lambda>v. v\<lparr>sp_ended := True\<rparr>) (ot_end K sp)"
    and "changes_span view sp (\<lambda>v. v\<lparr>sp_attributes := dset key x (sp_attributes v)\<rparr>) (ot_attribute K sp key x)"
    and "changes_span view sp (\<lambda>v. v\<lparr>sp_name := n\<rparr>) (ot_rename K sp n)"
    and "changes_span view sp (\<lambda>v. v\<lparr>sp_exceptions := sp_exceptions v @ [e]\<rparr>) (ot_exception K sp e)"
    and "changes_span view sp (\<lambda>v. v\<lparr>sp_error := Some desc\<rparr>) (ot_error K sp desc)"
    and "leaves_spans view (ot_counter K m n)" and "leaves_spans view (ot_histogram K m n b)"
    and "leaves_spans view (ot_add K i z l)" and "leaves_spans view (ot_record K i q l)"
  using assms by (simp_all add: otel_laws_def)

section \<open>Frames\<close>

definition spans :: "('t \<Rightarrow> ('sp \<times> span) list) \<Rightarrow> ('w, 't, 'i) traced shared \<Rightarrow> ('sp \<times> span) list" where
  "spans view s = view (tr_telemetry (sh_env s))"

named_theorems frame_simps "what a step of the instrumentation leaves as it was"

lemma untraced_simps [frame_simps, simp]:
  "untraced (retraced w t) = w"
  "untraced (s\<lparr>sh_env := (sh_env s)\<lparr>tr_telemetry := x\<rparr>\<rparr>) = untraced s"
  "spans view (retraced w (sh_env s)) = spans view s"
  "spans view (s\<lparr>sh_env := (sh_env s)\<lparr>tr_telemetry := x\<rparr>\<rparr>) = view x"
  by (simp_all add: untraced_def retraced_def spans_def)

text \<open>A step that returns, and changes neither the application nor the spans.\<close>

definition quiet ::
  "('t \<Rightarrow> ('sp \<times> span) list) \<Rightarrow> (('w, 't, 'i) traced shared, 'a) op \<Rightarrow> bool" where
  "quiet view m \<longleftrightarrow> (\<forall>s. \<exists>x s'. m s = (Inr x, s') \<and> untraced s' = untraced s \<and> spans view s' = spans view s)"

lemma quietE:
  assumes "quiet view m"
  obtains x s' where "m s = (Inr x, s')" "untraced s' = untraced s" "spans view s' = spans view s"
  using assms unfolding quiet_def by blast

lemma quiet_ret [intro]: "quiet view (ret x)"
  by (simp add: quiet_def ret_def)

lemma quiet_bind [intro]: "quiet view m \<Longrightarrow> (\<And>x. quiet view (f x)) \<Longrightarrow> quiet view (bind_op m f)"
  unfolding quiet_def
proof
  fix s
  assume q: "\<forall>s. \<exists>x s'. m s = (Inr x, s') \<and> untraced s' = untraced s \<and> spans view s' = spans view s"
    "\<And>x. \<forall>s. \<exists>y s'. f x s = (Inr y, s') \<and> untraced s' = untraced s \<and> spans view s' = spans view s"
  from q(1) obtain x s1 where m: "m s = (Inr x, s1)" "untraced s1 = untraced s" "spans view s1 = spans view s" by blast
  from q(2) obtain y s2 where "f x s1 = (Inr y, s2)" "untraced s2 = untraced s1" "spans view s2 = spans view s1" by blast
  with m show "\<exists>y s'. bind_op m f s = (Inr y, s') \<and> untraced s' = untraced s \<and> spans view s' = spans view s"
    by (simp add: bind_op_def)
qed

lemma quiet_then [intro]: "quiet view m \<Longrightarrow> quiet view k \<Longrightarrow> quiet view (then_op m k)"
  unfolding then_op_def by (rule quiet_bind)

lemma quiet_if [intro]: "(c \<Longrightarrow> quiet view m) \<Longrightarrow> (\<not> c \<Longrightarrow> quiet view k) \<Longrightarrow> quiet view (if c then m else k)"
  by simp

lemma quiet_lift: "quiet view (lift_res (Inr x))"
  by (simp add: quiet_def lift_res_def)

lemma quiet_telemetry:
  fixes m :: "('t, 'a) op"
  assumes "leaves_spans view m"
  shows "quiet view (telemetry m :: (('w, 't, 'i) traced shared, 'a) op)"
  unfolding quiet_def
proof
  fix s :: "('w, 't, 'i) traced shared"
  from assms obtain x t where "m (tr_telemetry (sh_env s)) = (Inr x, t)" "view t = view (tr_telemetry (sh_env s))"
    unfolding leaves_spans_def by blast
  then show "\<exists>x s'. telemetry m s = (Inr x, s') \<and> untraced s' = untraced s \<and> spans view s' = spans view s"
    by (simp add: telemetry_def) (simp add: spans_def)
qed

lemma quiet_warn: "quiet view (otel_warn w)"
  by (simp add: quiet_def otel_warn_def in_module_def modify_def untraced_def spans_def)

lemma quiet_count: "otel_laws K view \<Longrightarrow> quiet view (count K i l)"
  by (auto simp: count_def intro: quiet_telemetry otel_lawsD split: option.split)

lemma quiet_instrument:
  assumes "leaves_spans view create"
  shows "quiet view (instrument m name create)"
proof -
  have store: "quiet view (in_module (\<lambda>t. t\<lparr>tr_instruments := x # tr_instruments t\<rparr>))" for x
    by (simp add: quiet_def in_module_def modify_def untraced_def spans_def)
  have "quiet view (bind_op (telemetry create) (\<lambda>i.
      then_op (in_module (\<lambda>t. t\<lparr>tr_instruments := ((mt_id m, name), i) # tr_instruments t\<rparr>)) (ret i)))"
    using quiet_telemetry [OF assms] store by blast
  then show ?thesis
    using quiet_telemetry [OF assms] by (auto simp: instrument_def quiet_def ret_def split: option.split)
qed

lemma quiet_warn_if_hashed: "quiet view (warn_if_hashed trace_id)"
  unfolding quiet_def warn_if_hashed_def
  by (auto simp: ret_def then_op_def bind_op_def otel_warn_def in_module_def modify_def untraced_def spans_def)

lemma quiet_warn_default: "quiet view (warn_default_system system x)" "quiet view warn_default_system_once"
proof -
  show "quiet view (warn_default_system system x)" for system x
    unfolding warn_default_system_def using quiet_warn by blast
  have "quiet view (then_op (in_module (\<lambda>t. t\<lparr>tr_default_warned := True\<rparr>)) (warn_default_system None y))" for y
    by (rule quiet_then) (simp_all add: warn_default_system_def quiet_warn,
      simp add: quiet_def in_module_def modify_def untraced_def spans_def)
  then show "quiet view warn_default_system_once"
    unfolding quiet_def warn_default_system_once_def by (auto simp: ret_def)
qed

section \<open>One span\<close>

text \<open>The span of a call that reported an exception, or none.\<close>

definition reported :: "'a res \<Rightarrow> exc option" where
  "reported r = (case r of Inl e \<Rightarrow> if is_Exception e then Some e else None | Inr x \<Rightarrow> None)"

definition failed_span :: "('t, 'sp, 'cx, 'i) otel \<Rightarrow> exc \<Rightarrow> span \<Rightarrow> span" where
  "failed_span K e v =
     v\<lparr>sp_exceptions := sp_exceptions v @ [e], sp_error := Some (if exc_str e = [] then None else Some (exc_str e)),
       sp_attributes := dset (u ''error.type'') (PStr (error_type K e)) (sp_attributes v)\<rparr>"

definition finished_span ::
  "('t, 'sp, 'cx, 'i) otel \<Rightarrow> pystr \<Rightarrow> span_kind \<Rightarrow> pyval dict \<Rightarrow> exc option \<Rightarrow> span" where
  "finished_span K name kind attributes err =
     \<lparr>sp_name = name, sp_kind = kind,
      sp_attributes = (case err of Some e \<Rightarrow> dset (u ''error.type'') (PStr (error_type K e)) attributes | None \<Rightarrow> attributes),
      sp_exceptions = (case err of Some e \<Rightarrow> [e] | None \<Rightarrow> []),
      sp_error = (case err of Some e \<Rightarrow> Some (if exc_str e = [] then None else Some (exc_str e)) | None \<Rightarrow> None),
      sp_ended = True\<rparr>"

lemma on_span_last: "sp \<notin> fst ` set vs \<Longrightarrow> on_span sp f (vs @ [(sp, v)]) = vs @ [(sp, f v)]"
  by (induction vs) (auto simp: on_span_def)

lemma on_span_twice: "on_span sp f (on_span sp g vs) = on_span sp (\<lambda>v. f (g v)) vs"
  by (auto simp: on_span_def)

lemma telemetry_returns:
  fixes s :: "('w, 't, 'i) traced shared"
  assumes "m (tr_telemetry (sh_env s)) = (x, t)"
  obtains s' where "telemetry m s = (x, s')" "untraced s' = untraced s" "spans view s' = view t"
  using assms by (intro that [of "s\<lparr>sh_env := (sh_env s)\<lparr>tr_telemetry := t\<rparr>\<rparr>"]) (simp_all add: telemetry_def)

lemma on_span_id [simp]: "on_span sp id vs = vs"
  by (auto simp: on_span_def intro!: map_idI)

lemma changes_telemetry:
  fixes m :: "('t, unit) op" and s :: "('w, 't, 'i) traced shared"
  assumes "changes_span view sp f m"
  obtains s' where "telemetry m s = (Inr (), s')" "untraced s' = untraced s" "spans view s' = on_span sp f (spans view s)"
proof -
  from assms obtain t where "m (tr_telemetry (sh_env s)) = (Inr (), t)" "view t = on_span sp f (view (tr_telemetry (sh_env s)))"
    unfolding changes_span_def by blast
  with telemetry_returns [of m s "Inr ()" t view] that show thesis by (auto simp: spans_def)
qed

lemma fail_span_changes:
  assumes "otel_laws K view"
  shows "\<exists>t'. fail_span K sp e t = (Inr (error_type K e), t') \<and> view t' = on_span sp (failed_span K e) (view t)"
proof -
  obtain t1 where t1: "ot_exception K sp e t = (Inr (), t1)"
      "view t1 = on_span sp (\<lambda>v. v\<lparr>sp_exceptions := sp_exceptions v @ [e]\<rparr>) (view t)"
    using otel_lawsD(5) [OF assms] unfolding changes_span_def by blast
  define d where "d = (if exc_str e = [] then None else Some (exc_str e))"
  obtain t2 where t2: "ot_error K sp d t1 = (Inr (), t2)" "view t2 = on_span sp (\<lambda>v. v\<lparr>sp_error := Some d\<rparr>) (view t1)"
    using otel_lawsD(6) [OF assms] unfolding changes_span_def by blast
  obtain t3 where t3: "ot_attribute K sp (u ''error.type'') (PStr (error_type K e)) t2 = (Inr (), t3)"
      "view t3 = on_span sp (\<lambda>v. v\<lparr>sp_attributes := dset (u ''error.type'') (PStr (error_type K e)) (sp_attributes v)\<rparr>) (view t2)"
    using otel_lawsD(3) [OF assms] unfolding changes_span_def by blast
  have "fail_span K sp e t = (Inr (error_type K e), t3)"
    using t1(1) t2(1) t3(1) by (simp add: fail_span_def then_op_def bind_op_def ret_def d_def)
  moreover have "view t3 = on_span sp (failed_span K e) (view t)"
    by (simp add: t1(2) t2(2) t3(2) on_span_twice failed_span_def [abs_def] d_def)
  ultimately show ?thesis by blast
qed

text \<open>The call in a span: its result and its effect are those of the call alone.\<close>

lemma timed_call_spans:
  fixes s :: "('w, 't, 'i) traced shared"
  assumes "otel_laws K view" and call: "f (untraced s) = (r, w)"
  shows "\<exists>s'. timed_call K histogram labels (in_world f) sp s = (r, s') \<and> untraced s' = w
    \<and> spans view s' = on_span sp (case reported r of Some e \<Rightarrow> failed_span K e | None \<Rightarrow> id) (spans view s)"
proof -
  have in_world: "in_world f s = (r, retraced w (sh_env s))" by (simp add: in_world_def call)
  obtain err s2 where body: "(case in_world f s of
        (Inr x, s1) \<Rightarrow> (Inr x, None, s1)
      | (Inl e, s1) \<Rightarrow>
          if is_Exception e
          then (case telemetry (fail_span K sp e) s1 of
                  (Inr t, s2) \<Rightarrow> (Inl e, Some t, s2) | (Inl e', s2) \<Rightarrow> (Inl e', None, s2))
          else (Inl e, None, s1)) = (r, err, s2)" "untraced s2 = w"
      "spans view s2 = on_span sp (case reported r of Some e \<Rightarrow> failed_span K e | None \<Rightarrow> id) (spans view s)"
  proof (cases "reported r")
    case None
    then show thesis
      using in_world by (intro that [of None "retraced w (sh_env s)"]) (auto simp: reported_def split: sum.splits if_splits)
  next
    case (Some e)
    then have r: "r = Inl e" "is_Exception e" by (auto simp: reported_def split: sum.splits if_splits)
    obtain t where t: "fail_span K sp e (tr_telemetry (sh_env (retraced w (sh_env s)))) = (Inr (error_type K e), t)"
        "view t = on_span sp (failed_span K e) (spans view s)"
      using fail_span_changes [OF assms(1), of sp e "tr_telemetry (sh_env (retraced w (sh_env s)))"]
      by (auto simp: spans_def retraced_def)
    obtain s3 where "telemetry (fail_span K sp e) (retraced w (sh_env s)) = (Inr (error_type K e), s3)"
        "untraced s3 = untraced (retraced w (sh_env s))" "spans view s3 = view t"
      by (rule telemetry_returns [where m = "fail_span K sp e" and s = "retraced w (sh_env s)" and view = view, OF t(1)])
    with in_world r t(2) Some show thesis by (intro that [of "Some (error_type K e)" s3]) simp_all
  qed
  show ?thesis
  proof (cases histogram)
    case None
    with body show ?thesis by (simp add: timed_call_def Let_def)
  next
    case (Some h)
    from quiet_telemetry [OF otel_lawsD(10) [OF assms(1), of h]] obtain s3 where
        "telemetry (ot_record K h (max 0 (ot_clock K (tr_telemetry (sh_env s2)) - ot_clock K (tr_telemetry (sh_env s)))) (labels err)) s2
           = (Inr (), s3)" "untraced s3 = untraced s2" "spans view s3 = spans view s2"
      by (metis (full_types) old.unit.exhaust quietE)
    with body Some show ?thesis by (simp add: timed_call_def Let_def)
  qed
qed

lemma with_spanE:
  fixes s :: "('w, 't, 'i) traced shared"
  assumes "otel_laws K view"
  obtains sp s1 where "sp \<notin> fst ` set (spans view s)" "untraced s1 = untraced s"
    "spans view s1 = spans view s @ [(sp, \<lparr>sp_name = n, sp_kind = k, sp_attributes = d, sp_exceptions = [], sp_error = None, sp_ended = False\<rparr>)]"
    "\<And>r s2. body sp s1 = (r, s2) \<Longrightarrow> \<exists>s'. with_span K n cx k d body s = (r, s') \<and> untraced s' = untraced s2
        \<and> spans view s' = on_span sp (\<lambda>v. v\<lparr>sp_ended := True\<rparr>) (spans view s2)"
proof -
  obtain sp t where start: "ot_start K n cx k d (tr_telemetry (sh_env s)) = (Inr sp, t)" "sp \<notin> fst ` set (spans view s)"
      "view t = spans view s @ [(sp, \<lparr>sp_name = n, sp_kind = k, sp_attributes = d, sp_exceptions = [], sp_error = None, sp_ended = False\<rparr>)]"
    using otel_lawsD(1) [OF assms, of n cx k d "tr_telemetry (sh_env s)"] unfolding spans_def by blast
  obtain s1 where s1: "telemetry (ot_start K n cx k d) s = (Inr sp, s1)" "untraced s1 = untraced s" "spans view s1 = view t"
    by (rule telemetry_returns [where m = "ot_start K n cx k d" and s = s and view = view, OF start(1)])
  have "\<exists>s'. with_span K n cx k d body s = (r, s') \<and> untraced s' = untraced s2
        \<and> spans view s' = on_span sp (\<lambda>v. v\<lparr>sp_ended := True\<rparr>) (spans view s2)" if "body sp s1 = (r, s2)" for r s2
  proof -
    obtain s3 where "telemetry (ot_end K sp) s2 = (Inr (), s3)" "untraced s3 = untraced s2"
        "spans view s3 = on_span sp (\<lambda>v. v\<lparr>sp_ended := True\<rparr>) (spans view s2)"
      by (rule changes_telemetry [OF otel_lawsD(2) [OF assms]])
    then show ?thesis using s1(1) that by (simp add: with_span_def bind_op_def)
  qed
  with start s1 show thesis by (intro that [of sp s1]) simp_all
qed

lemma lift_bind: "bind_op (lift_res (Inr x)) f = f x"
  by (simp add: bind_op_def lift_res_def)

lemma encode_with_append: "encode_with f xs \<noteq> None \<Longrightarrow> encode_with f ys \<noteq> None \<Longrightarrow> encode_with f (xs @ ys) \<noteq> None"
  by (induction xs) (auto split: option.splits)

lemma quiet_parent:
  assumes "utf8_encode trace_id \<noteq> None"
  shows "quiet view (parent_context K trace_id)"
proof -
  have total: "\<exists>n. hashed sha256 k str = Inr n" if "utf8_encode str \<noteq> None" for sha256 k str
    using that by (auto simp: hashed_def utf8_bytes_def Let_def)
  have "utf8_encode (u ''babelqueue-span:'') \<noteq> None" by code_simp
  with assms have "utf8_encode (u ''babelqueue-span:'' @ trace_id) \<noteq> None"
    unfolding utf8_encode_def by (rule encode_with_append [rotated])
  with total obtain n where "span_id_of (ot_sha256 K) trace_id = Inr n" unfolding span_id_of_def by blast
  moreover obtain m where "trace_id_of (ot_sha256 K) trace_id = Inr m"
    using total [OF assms] unfolding trace_id_of_def by (metis option.case_eq_if)
  ultimately show ?thesis
    by (auto simp: parent_context_def intro: quiet_warn_if_hashed quiet_lift)
qed

lemma quiet_find_parent: "utf8_encode trace_id \<noteq> None \<Longrightarrow> quiet view (find_parent K hs trace_id)"
  using quiet_parent [of trace_id view K] by (auto simp: find_parent_def split: option.split)

lemma quiet_count_delivery: "otel_laws K view \<Longrightarrow> quiet view (count_delivery K ins labels a)"
  unfolding count_delivery_def using quiet_count by blast

section \<open>The producer's span\<close>

text \<open>A step that returns and may name the span or give it attributes, but no exception.\<close>

definition dresses :: "('t \<Rightarrow> ('sp \<times> span) list) \<Rightarrow> 'sp \<Rightarrow> ('t, 'a) op \<Rightarrow> bool" where
  "dresses view sp m \<longleftrightarrow>
     (\<forall>t. \<exists>x t' g. m t = (Inr x, t') \<and> view t' = on_span sp g (view t)
        \<and> (\<forall>v. sp_kind (g v) = sp_kind v \<and> sp_exceptions (g v) = sp_exceptions v \<and> sp_error (g v) = sp_error v \<and> sp_ended (g v) = sp_ended v))"

lemma dresses_ret: "dresses view sp (ret x)"
  unfolding dresses_def by (intro allI exI [of _ id] exI) (auto simp: ret_def)

lemma dresses_bind:
  assumes "dresses view sp m" "\<And>x. dresses view sp (f x)"
  shows "dresses view sp (bind_op m f)"
  unfolding dresses_def
proof
  fix t
  from assms(1) obtain x t1 g where m: "m t = (Inr x, t1)" "view t1 = on_span sp g (view t)"
      "\<forall>v. sp_kind (g v) = sp_kind v \<and> sp_exceptions (g v) = sp_exceptions v \<and> sp_error (g v) = sp_error v \<and> sp_ended (g v) = sp_ended v"
    unfolding dresses_def by blast
  from assms(2) obtain y t2 h where f: "f x t1 = (Inr y, t2)" "view t2 = on_span sp h (view t1)"
      "\<forall>v. sp_kind (h v) = sp_kind v \<and> sp_exceptions (h v) = sp_exceptions v \<and> sp_error (h v) = sp_error v \<and> sp_ended (h v) = sp_ended v"
    unfolding dresses_def by blast
  show "\<exists>x t' g. bind_op m f t = (Inr x, t') \<and> view t' = on_span sp g (view t)
      \<and> (\<forall>v. sp_kind (g v) = sp_kind v \<and> sp_exceptions (g v) = sp_exceptions v \<and> sp_error (g v) = sp_error v \<and> sp_ended (g v) = sp_ended v)"
    using m f by (intro exI [of _ y] exI [of _ t2] exI [of _ "\<lambda>v. h (g v)"]) (simp add: bind_op_def on_span_twice)
qed

lemma dresses_then: "dresses view sp m \<Longrightarrow> dresses view sp k \<Longrightarrow> dresses view sp (then_op m k)"
  unfolding then_op_def by (rule dresses_bind)

lemma dresses_calls:
  assumes "otel_laws K view"
  shows "dresses view sp (ot_rename K sp n)" "dresses view sp (ot_attribute K sp k x)"
  using otel_lawsD(3,4) [OF assms] unfolding dresses_def changes_span_def by fastforce+

lemma dresses_describe_sent:
  assumes "otel_laws K view" "envelope = None \<or> (\<exists>e m. envelope = Some e \<and> meta_or_empty e = Inr m)"
  shows "dresses view sp (describe_sent K sp trace_id dest envelope message_id)"
  using assms(2) dresses_calls [OF assms(1)]
  by (auto simp: describe_sent_def lift_bind Let_def intro!: dresses_then dresses_ret split: option.split)

lemma publish_envelope_made:
  assumes "publish_envelope a urn0 data queue trace_id hs ft fi now w = (Inr p, w')"
  shows "pr_envelope p = None \<and> pr_error p \<noteq> None
    \<or> (\<exists>e. pr_envelope p = Some e \<and> make_envelope urn0 data (publish_target a queue) trace_id PNone ft fi now = Inr e)"
  using assms by (auto simp: publish_envelope_eq bind_res_def split: sum.splits prod.splits if_splits)

lemma made_meta:
  assumes "make_envelope urn0 data queue trace_id PNone ft fi now = Inr e"
  shows "\<exists>m. meta_or_empty e = Inr m" "published_id \<lparr>pr_envelope = Some e, pr_error = None\<rparr> = Inr (PStr fi)"
proof -
  show "published_id \<lparr>pr_envelope = Some e, pr_error = None\<rparr> = Inr (PStr fi)" by (rule make_envelope_plain(5) [OF assms])
  then obtain m where "dget e (u ''meta'') = Some (PDict m)" by (auto simp: published_id_def split: option.splits)
  then show "\<exists>m. meta_or_empty e = Inr m" by (simp add: meta_or_empty_def get_or_none_def)
qed

lemma send_app:
  assumes "publish_envelope a urn0 data queue (Some trace_id) hs ft fi now w = (Inr p, w')"
  obtains message_id where
    "send (app_publisher a ft fi now) urn0 data queue trace_id hs w = (Inr (pr_envelope p, message_id, pr_error p), w')"
    "sent_result (message_id, pr_error p) = published_id p"
    "pr_envelope p = None \<or> (\<exists>e m. pr_envelope p = Some e \<and> meta_or_empty e = Inr m)"
proof (cases "pr_error p")
  case (Some e)
  with assms that [of None] publish_envelope_made [OF assms] made_meta(1) show thesis
    by (fastforce simp: send_def app_publisher_def bind_op_def ret_def sent_result_def published_id_def split: option.split)
next
  case None
  with publish_envelope_made [OF assms] obtain e where e: "pr_envelope p = Some e"
      "make_envelope urn0 data (publish_target a queue) (Some trace_id) PNone ft fi now = Inr e" by auto
  have "published_id p = Inr (PStr fi)" using made_meta(2) [OF e(2)] e(1) None by (cases p) simp
  with assms that [of "Some (PStr fi)"] None e made_meta(1) [OF e(2)] show thesis
    by (simp add: send_def app_publisher_def bind_op_def ret_def sent_result_def lift_res_def)
qed

lemma send_in_span_runs:
  fixes s :: "('w, 't, 'i) traced shared"
  assumes "otel_laws K view"
    and "publish_envelope a urn0 data queue (Some (uuid_of (ot_trace_id K sp))) (inject_traceparent K sp) ft fi now (untraced s) = (pr, w)"
  shows "\<exists>r s' g. send_in_span K (app_publisher a ft fi now) urn0 data queue sent system dest sp s = (r, s') \<and> untraced s' = w
    \<and> spans view s' = on_span sp g (spans view s) \<and> bind_res r sent_result = bind_res pr published_id
    \<and> (\<forall>v. sp_kind (g v) = sp_kind v
         \<and> sp_exceptions (g v) = sp_exceptions v @ (case bind_res pr (\<lambda>p. Inr (pr_error p)) of Inr (Some e) \<Rightarrow> [e] | _ \<Rightarrow> []))"
proof (cases pr)
  case (Inl e)
  then have "send_in_span K (app_publisher a ft fi now) urn0 data queue sent system dest sp s = (Inl e, retraced w (sh_env s))"
    using assms(2) by (simp add: send_in_span_def in_world_def send_def app_publisher_def bind_op_def)
  with Inl show ?thesis by (intro exI [of _ "Inl e"] exI [of _ "retraced w (sh_env s)"] exI [of _ id]) simp
next
  case (Inr p)
  obtain i where i: "send (app_publisher a ft fi now) urn0 data queue (uuid_of (ot_trace_id K sp)) (inject_traceparent K sp) (untraced s)
        = (Inr (pr_envelope p, i, pr_error p), w)" "sent_result (i, pr_error p) = published_id p"
      "pr_envelope p = None \<or> (\<exists>e m. pr_envelope p = Some e \<and> meta_or_empty e = Inr m)"
    using send_app [OF assms(2) [unfolded Inr]] by blast
  define s1 where "s1 = retraced w (sh_env s)"
  obtain d t1 g where d: "describe_sent K sp (uuid_of (ot_trace_id K sp)) dest (pr_envelope p) i (tr_telemetry (sh_env s1)) = (Inr d, t1)"
      "view t1 = on_span sp g (spans view s1)" "\<forall>v. sp_kind (g v) = sp_kind v \<and> sp_exceptions (g v) = sp_exceptions v"
    using dresses_describe_sent [OF assms(1) i(3), of sp] unfolding dresses_def spans_def by metis
  obtain s2 where s2: "telemetry (describe_sent K sp (uuid_of (ot_trace_id K sp)) dest (pr_envelope p) i) s1 = (Inr d, s2)"
      "untraced s2 = untraced s1" "spans view s2 = view t1"
    by (rule telemetry_returns [where m = "describe_sent K sp (uuid_of (ot_trace_id K sp)) dest (pr_envelope p) i" and s = s1
        and view = view, OF d(1)])
  obtain err s3 h where s3: "(case pr_error p of None \<Rightarrow> ret None | Some e \<Rightarrow> bind_op (telemetry (fail_span K sp e)) (\<lambda>t. ret (Some t))) s2 = (Inr err, s3)"
      "untraced s3 = untraced s2" "spans view s3 = on_span sp h (spans view s2)"
      "\<forall>v. sp_kind (h v) = sp_kind v \<and> sp_exceptions (h v) = sp_exceptions v @ (case pr_error p of Some e \<Rightarrow> [e] | None \<Rightarrow> [])"
  proof (cases "pr_error p")
    case None
    then show thesis by (intro that [of None s2 id]) (simp_all add: ret_def)
  next
    case (Some e)
    obtain t where t: "fail_span K sp e (tr_telemetry (sh_env s2)) = (Inr (error_type K e), t)"
        "view t = on_span sp (failed_span K e) (spans view s2)"
      using fail_span_changes [OF assms(1), of sp e "tr_telemetry (sh_env s2)"] by (auto simp: spans_def)
    obtain s3 where "telemetry (fail_span K sp e) s2 = (Inr (error_type K e), s3)" "untraced s3 = untraced s2" "spans view s3 = view t"
      by (rule telemetry_returns [where m = "fail_span K sp e" and s = s2 and view = view, OF t(1)])
    with Some t(2) show thesis
      by (intro that [of "Some (error_type K e)" s3 "failed_span K e"]) (simp_all add: bind_op_def ret_def failed_span_def)
  qed
  obtain x s4 where s4: "count K sent (metric_attributes system ''send'' d err) s3 = (Inr x, s4)" "untraced s4 = untraced s3"
      "spans view s4 = spans view s3"
    by (rule quietE [OF quiet_count [OF assms(1)]])
  have "send_in_span K (app_publisher a ft fi now) urn0 data queue sent system dest sp s = (Inr (i, pr_error p), s4)"
    using i(1) s2(1) s3(1) s4(1)
    by (simp add: send_in_span_def in_world_def s1_def bind_op_def then_op_def ret_def)
  then show ?thesis
    using s4 s3 s2 d(2,3) i(2) Inr
    by (intro exI [of _ "Inr (i, pr_error p)"] exI [of _ s4] exI [of _ "\<lambda>v. h (g v)"])
      (simp add: s1_def on_span_twice split: option.split)
qed

lemma pb_app: "pb_queue (app_publisher a ft fi now) = Some (a_queue a)"
  by (simp add: app_publisher_def)

lemma quiet_sent_counter:
  assumes "otel_laws K view"
  shows "quiet view (sent_counter_of K meter)"
proof (cases meter)
  case None
  then show ?thesis by (simp add: sent_counter_of_def quiet_ret)
next
  case (Some m)
  have "quiet view (counter_of K m n)" for n
    unfolding counter_of_def by (rule quiet_instrument [OF otel_lawsD(7) [OF assms]])
  then show ?thesis unfolding Some sent_counter_of_def option.simps by (rule quiet_bind [OF _ quiet_ret])
qed

lemma strip_clean_text: "set s \<inter> set cs = {} \<Longrightarrow> strip cs s = s"
proof -
  have "dropWhile (\<lambda>c. c \<in> set cs) t = t" if "set t \<inter> set cs = {}" for t using that by (cases t) auto
  then show "strip cs s = s" if "set s \<inter> set cs = {}" using that by (simp add: strip_def lstrip_def)
qed

lemma uuid_of_plain: "strip ASCII_WHITESPACE (uuid_of n) = uuid_of n" "uuid_of n \<noteq> []"
proof -
  have digit: "48 \<le> c" if "c \<in> set (hex_pad k m)" for c k m
    using that by (induction k arbitrary: m) (auto simp: hex_digit_def split: if_splits)
  define h where "h = hex_pad 32 (n mod 2 ^ 128)"
  have "set (uuid_of n) \<subseteq> insert 45 (set h)"
    unfolding uuid_of_def Let_def h_def [symmetric]
    by (simp add: le_supI2 set_take_subset set_drop_subset order_trans [OF set_take_subset set_drop_subset] subset_insertI2)
  with digit have "\<forall>c \<in> set (uuid_of n). c = 45 \<or> 48 \<le> c" unfolding h_def by blast
  moreover have "\<forall>c \<in> set ASCII_WHITESPACE. c < 45" by code_simp
  ultimately have "set (uuid_of n) \<inter> set ASCII_WHITESPACE = {}" by fastforce
  then show "strip ASCII_WHITESPACE (uuid_of n) = uuid_of n" by (rule strip_clean_text)
  show "uuid_of n \<noteq> []" by (simp add: uuid_of_def Let_def)
qed

lemma made_trace:
  assumes "make_envelope urn0 data queue (Some (uuid_of n)) PNone ft fi now = Inr e"
  shows "truthy_text e ''trace_id'' = uuid_of n"
  using assms uuid_of_plain [of n]
  by (auto simp: make_envelope_def Let_def producer_meta_def truthy_text_def get_or_none_def py_str_def u_eq_iff split: if_splits)

section \<open>Properties\<close>


text \<open>
  C23: a traced publish is a publish, and its message joins the trace. It returns or raises what a publish
  with the trace of its span and the span's headers does, and leaves the application as that publish
  does; it makes one span, of the producer kind, which is ended and carries the exception of a failed
  publish; and whoever consumes the message derives the trace of the producer's span from it.
\<close>

theorem traced_publish_joins_trace:
  fixes s :: "('w, 't, 'i) traced shared" and K :: "('t, 'sp, 'cx, 'i) otel"
  assumes "otel_laws K view"
  shows "\<exists>s' sp pr v. publish_envelope a urn0 data queue (Some (uuid_of (ot_trace_id K sp))) (inject_traceparent K sp) ft fi now
        (untraced s) = (pr, untraced s')
    \<and> otel_publish K (app_publisher a ft fi now) urn0 data queue system meter s = (bind_res pr published_id, s')
    \<and> spans view s' = spans view s @ [(sp, v)] \<and> sp_kind v = ProducerSpan \<and> sp_ended v
    \<and> sp_exceptions v = (case bind_res pr (\<lambda>p. Inr (pr_error p)) of Inr (Some e) \<Rightarrow> [e] | _ \<Rightarrow> [])
    \<and> (\<forall>p e. pr = Inr p \<and> pr_envelope p = Some e \<and> 0 < ot_trace_id K sp \<and> ot_trace_id K sp < 2 ^ 128
         \<longrightarrow> trace_id_of (ot_sha256 K) (truthy_text e ''trace_id'') = Inr (ot_trace_id K sp))"
proof -
  define dest where "dest = destination (case queue of Some q \<Rightarrow> if q \<noteq> [] then PStr q else PStr (a_queue a) | None \<Rightarrow> PStr (a_queue a))"
  define name where "name = span_name ''send'' dest"
  define attributes where "attributes = send_attributes (resolve_system system) urn0 dest"
  obtain x s1 where s1: "(if system = None \<or> system = Some [] then warn_default_system_once else ret ()) s = (Inr x, s1)"
      "untraced s1 = untraced s" "spans view s1 = spans view s"
    by (rule quietE [of view "if system = None \<or> system = Some [] then warn_default_system_once else ret ()"])
      (simp_all add: quiet_warn_default(2) quiet_ret)
  obtain sent s2 where s2: "sent_counter_of K meter s1 = (Inr sent, s2)" "untraced s2 = untraced s1"
      "spans view s2 = spans view s1"
    by (rule quietE [OF quiet_sent_counter [OF assms]])
  have run: "otel_publish K (app_publisher a ft fi now) urn0 data queue system meter
      = then_op (if system = None \<or> system = Some [] then warn_default_system_once else ret ())
          (bind_op (sent_counter_of K meter) (\<lambda>sent.
           bind_op (with_span K name None ProducerSpan attributes
                      (send_in_span K (app_publisher a ft fi now) urn0 data queue sent (resolve_system system) dest))
             (\<lambda>x. lift_res (sent_result x))))"
    unfolding otel_publish_def Let_def pb_app option.simps dest_def name_def attributes_def ..
  define body where "body = send_in_span K (app_publisher a ft fi now) urn0 data queue sent (resolve_system system) dest"
  obtain sp s3 where s3: "sp \<notin> fst ` set (spans view s2)" "untraced s3 = untraced s2"
    "spans view s3 = spans view s2 @ [(sp, \<lparr>sp_name = name, sp_kind = ProducerSpan, sp_attributes = attributes, sp_exceptions = [], sp_error = None, sp_ended = False\<rparr>)]"
    "\<And>r s4. body sp s3 = (r, s4) \<Longrightarrow> \<exists>s'. with_span K name None ProducerSpan attributes body s2 = (r, s') \<and> untraced s' = untraced s4
        \<and> spans view s' = on_span sp (\<lambda>v. v\<lparr>sp_ended := True\<rparr>) (spans view s4)"
    by (rule with_spanE [OF assms, of s2 name ProducerSpan attributes body None], rule that)
  obtain pr w where pr: "publish_envelope a urn0 data queue (Some (uuid_of (ot_trace_id K sp))) (inject_traceparent K sp) ft fi now
        (untraced s3) = (pr, w)" by force
  from send_in_span_runs [OF assms pr, of sent "resolve_system system" dest]
  obtain r s4 g where s4: "body sp s3 = (r, s4)" "untraced s4 = w" "spans view s4 = on_span sp g (spans view s3)"
      "bind_res r sent_result = bind_res pr published_id" "\<forall>v. sp_kind (g v) = sp_kind v
         \<and> sp_exceptions (g v) = sp_exceptions v @ (case bind_res pr (\<lambda>p. Inr (pr_error p)) of Inr (Some e) \<Rightarrow> [e] | _ \<Rightarrow> [])"
    unfolding body_def by blast
  from s3(4) [OF s4(1)] obtain s' where s': "with_span K name None ProducerSpan attributes body s2 = (r, s')" "untraced s' = w"
      "spans view s' = on_span sp (\<lambda>v. v\<lparr>sp_ended := True\<rparr>) (spans view s4)" using s4(2) by blast
  have "otel_publish K (app_publisher a ft fi now) urn0 data queue system meter s = (bind_res r sent_result, s')"
    using s1(1) s2(1) s'(1)
    by (cases r) (simp_all add: run then_op_def bind_op_def lift_res_def body_def)
  moreover have "trace_id_of (ot_sha256 K) (truthy_text e ''trace_id'') = Inr (ot_trace_id K sp)"
    if "pr = Inr p" "pr_envelope p = Some e" "0 < ot_trace_id K sp" "ot_trace_id K sp < 2 ^ 128" for p e
    using publish_envelope_made [OF pr [unfolded that(1)]] that(2-4) by (auto simp: made_trace trace_id_of_uuid)
  ultimately show ?thesis
    using pr s'(2,3) s4(3-5) s3(1-3) s2(2,3) s1(2,3)
    by (intro exI [of _ s'] exI [of _ sp] exI [of _ pr]) (auto simp: on_span_twice on_span_last)
qed

end
