(* ===== verification/OtelDemo.thy ===== *)
theory OtelDemo
  imports OtelSpans Witnesses
begin

text \<open>
  A tracer that keeps its spans in a list, for which the laws hold, a delivery and a publish on it; the
  API without an SDK behind it; and what the instrumentation adds to a message and takes from one.
\<close>

section \<open>A tracer\<close>

type_synonym demo_spans = "(nat \<times> span) list"

definition demo_start :: "pystr \<Rightarrow> nat option \<Rightarrow> span_kind \<Rightarrow> pyval dict \<Rightarrow> (demo_spans, nat) op" where
  "demo_start n cx k d =
     (\<lambda>vs. let sp = Suc (sum_list (map fst vs))
           in (Inr sp, vs @ [(sp, \<lparr>sp_name = n, sp_kind = k, sp_attributes = d, sp_exceptions = [], sp_error = None, sp_ended = False\<rparr>)]))"

definition demo_change :: "nat \<Rightarrow> (span \<Rightarrow> span) \<Rightarrow> (demo_spans, unit) op" where
  "demo_change sp f = modify (on_span sp f)"

text \<open>Every span is of one trace; the stand-in for SHA-256 is the identity.\<close>

definition demo_otel :: "(demo_spans, nat, nat, pystr) otel" where
  "demo_otel =
     \<lparr>ot_start = demo_start, ot_end = (\<lambda>sp. demo_change sp (\<lambda>v. v\<lparr>sp_ended := True\<rparr>)),
      ot_attribute = (\<lambda>sp k x. demo_change sp (\<lambda>v. v\<lparr>sp_attributes := dset k x (sp_attributes v)\<rparr>)),
      ot_rename = (\<lambda>sp n. demo_change sp (\<lambda>v. v\<lparr>sp_name := n\<rparr>)),
      ot_exception = (\<lambda>sp e. demo_change sp (\<lambda>v. v\<lparr>sp_exceptions := sp_exceptions v @ [e]\<rparr>)),
      ot_error = (\<lambda>sp d. demo_change sp (\<lambda>v. v\<lparr>sp_error := Some d\<rparr>)),
      ot_counter = (\<lambda>m n. ret n), ot_histogram = (\<lambda>m n b. ret n), ot_add = (\<lambda>i n l. ret ()), ot_record = (\<lambda>i x l. ret ()),
      ot_clock = (\<lambda>t. 0), ot_trace_id = (\<lambda>sp. 7), ot_inject = (\<lambda>sp. [(u ''traceparent'', u ''00-07-01-01'')]),
      ot_extract = (\<lambda>hs. None), ot_remote = (\<lambda>trace span. trace), ot_sha256 = id, ot_module = (\<lambda>n. u ''app'')\<rparr>"

lemma fresh_span: "Suc (sum_list (map fst vs)) \<notin> fst ` set (vs :: demo_spans)"
proof
  assume "Suc (sum_list (map fst vs)) \<in> fst ` set vs"
  then have "Suc (sum_list (map fst vs)) \<in> set (map fst vs)" by simp
  from member_le_sum_list [OF this] show False by simp
qed

lemma demo_otel_laws: "otel_laws demo_otel id"
  using fresh_span
  by (auto simp: otel_laws_def demo_otel_def demo_start_def demo_change_def changes_span_def leaves_spans_def modify_def ret_def Let_def)

section \<open>A delivery and a publish\<close>

definition start_traced :: "'w \<Rightarrow> ('w, demo_spans, pystr) traced shared" where
  "start_traced w =
     \<lparr>sh_stop = False, sh_signalled = False, sh_deadline_hit = False, sh_deadline_timer = False,
      sh_env = \<lparr>tr_world = w, tr_telemetry = [], tr_warned = [], tr_default_warned = False, tr_instruments = [], tr_warnings = []\<rparr>\<rparr>"

definition boom :: exc where
  "boom = Exc (UserError (u ''Boom'')) (u ''no'')"

definition failing_handler :: "nat handler" where
  "failing_handler = \<lparr>wants_envelope = False, run_handler = (\<lambda>hs replay data meta e s. (Inl boom, s\<lparr>sh_env := Suc (sh_env s)\<rparr>))\<rparr>"

definition traced_envelope :: "pyval dict" where
  "traced_envelope = [(u ''job'', PStr (u ''urn:a'')), (u ''trace_id'', PStr (u ''t-1'')), (u ''attempts'', PInt 2)]"

lemma traced_runs:
  "as_int_or (get_or_none traced_envelope (u ''attempts'')) 0 = Inr 2"
  "as_int_or (get_or_none [] (u ''schema_version'')) SCHEMA_VERSION = Inr 1"
  "utf8_encode (truthy_text traced_envelope ''trace_id'') \<noteq> None"
  by code_simp+


theorem traced_publish_joins_trace_witness:
  "\<exists>s' sp v e. otel_publish demo_otel (app_publisher (demo_app (ret ()) FAIL 3) (u ''t'') (u ''1'') 0) (u ''urn:x'') []
        None None None (start_traced (sh_env (rt_shared demo_state))) = (Inr (PStr (u ''1'')), s')
     \<and> spans id s' = [(sp, v)] \<and> sp_ended v \<and> sp_exceptions v = []
     \<and> truthy_text e ''trace_id'' = uuid_of 7 \<and> trace_id_of id (truthy_text e ''trace_id'') = Inr 7"
proof -
  let ?a = "demo_app (ret ()) FAIL 3" and ?s = "start_traced (sh_env (rt_shared demo_state)) :: (memory, demo_spans, pystr) traced shared"
  have k: "ot_trace_id demo_otel sp = 7" "ot_sha256 demo_otel = id"
      "inject_traceparent demo_otel sp = [(u ''traceparent'', u ''00-07-01-01'')]" for sp
    by (simp_all add: demo_otel_def inject_traceparent_def) code_simp
  have start: "spans id ?s = []" "untraced ?s = rt_shared demo_state"
    by (simp_all add: start_traced_def spans_def untraced_def demo_state_def)
  have "case publish_envelope ?a (u ''urn:x'') [] None (Some (uuid_of 7)) [(u ''traceparent'', u ''00-07-01-01'')] (u ''t'') (u ''1'') 0
      (rt_shared demo_state) of (Inr p, w) \<Rightarrow> published_id p = Inr (PStr (u ''1'')) \<and> pr_error p = None
        \<and> map_option (\<lambda>e. truthy_text e ''trace_id'') (pr_envelope p) = Some (uuid_of 7) | _ \<Rightarrow> False"
    by code_simp
  then obtain p w e where p: "publish_envelope ?a (u ''urn:x'') [] None (Some (uuid_of 7)) [(u ''traceparent'', u ''00-07-01-01'')]
        (u ''t'') (u ''1'') 0 (rt_shared demo_state) = (Inr p, w)" "published_id p = Inr (PStr (u ''1''))" "pr_error p = None"
      "pr_envelope p = Some e" "truthy_text e ''trace_id'' = uuid_of 7"
    by (auto split: prod.splits sum.splits)
  from traced_publish_joins_trace [OF demo_otel_laws, of ?a "u ''urn:x''" "[]" None "u ''t''" "u ''1''" 0 ?s None None, unfolded k start]
  obtain s' sp v where w: "otel_publish demo_otel (app_publisher ?a (u ''t'') (u ''1'') 0) (u ''urn:x'') [] None None None ?s
        = (bind_res (Inr p) published_id, s')" "spans id s' = [] @ [(sp, v)]" "sp_ended v"
      "sp_exceptions v = (case bind_res (Inr p) (\<lambda>p. Inr (pr_error p)) of Inr (Some e) \<Rightarrow> [e] | _ \<Rightarrow> [])"
      "trace_id_of id (truthy_text e ''trace_id'') = Inr 7"
    using p(1,4) by auto
  with p(2,3,5) show ?thesis by (intro exI [of _ s'] exI [of _ sp] exI [of _ v] exI [of _ e]) simp
qed

section \<open>What goes wrong\<close>

text \<open>A readable message whose trace is a lone surrogate, as an escape of JSON can write it.\<close>

definition surrogate_body :: pystr where
  "surrogate_body = u ''{\"job\":\"urn:a\",\"trace_id\":\"'' @ [92] @ u ''ud800\",\"data\":{},\"meta\":{},\"attempts\":0}''"

definition surrogate_envelope :: "pyval dict" where
  "surrogate_envelope =
     [(u ''job'', PStr (u ''urn:a'')), (u ''trace_id'', PStr [0xD800]), (u ''data'', PDict []), (u ''meta'', PDict []),
      (u ''attempts'', PInt 0)]"


text \<open>
  The API without an SDK: the documented no-op tracer, whose spans have the invalid context of trace 0.
\<close>

definition no_sdk :: "(unit, unit, unit, unit) otel" where
  "no_sdk =
     \<lparr>ot_start = (\<lambda>n cx k d. ret ()), ot_end = (\<lambda>sp. ret ()), ot_attribute = (\<lambda>sp k x. ret ()), ot_rename = (\<lambda>sp n. ret ()),
      ot_exception = (\<lambda>sp e. ret ()), ot_error = (\<lambda>sp d. ret ()), ot_counter = (\<lambda>m n. ret ()), ot_histogram = (\<lambda>m n b. ret ()),
      ot_add = (\<lambda>i n l. ret ()), ot_record = (\<lambda>i x l. ret ()), ot_clock = (\<lambda>t. 0), ot_trace_id = (\<lambda>sp. 0),
      ot_inject = (\<lambda>sp. []), ot_extract = (\<lambda>hs. None), ot_remote = (\<lambda>trace span. ()), ot_sha256 = id, ot_module = (\<lambda>n. [])\<rparr>"

lemma bind_ret: "bind_op (ret x) f = f x" "then_op (ret x) k = k"
  by (simp_all add: then_op_def bind_op_def ret_def)

lemma bind_run: "m s = (Inr x, s1) \<Longrightarrow> bind_op m f s = f x s1"
  by (simp add: bind_op_def)

lemma no_sdk_returns: "telemetry (ret x) = ret x"
  by (simp add: telemetry_def ret_def fun_eq_iff)

lemma no_sdk_describes:
  assumes "envelope = None \<or> (\<exists>e m. envelope = Some e \<and> meta_or_empty e = Inr m)"
  shows "\<exists>d. describe_sent no_sdk sp trace_id dest envelope i = ret d"
  using assms by (auto simp: describe_sent_def lift_bind Let_def no_sdk_def bind_ret split: option.split)

lemma no_sdk_sends:
  fixes s :: "('w, unit, unit) traced shared"
  assumes "publish_envelope a urn0 data queue (Some (uuid_of 0)) [] ft fi now (untraced s) = (pr, w)"
  shows "\<exists>r s'. send_in_span no_sdk (app_publisher a ft fi now) urn0 data queue None system dest sp s = (r, s')
    \<and> untraced s' = w \<and> bind_res r sent_result = bind_res pr published_id"
proof -
  have k: "ot_trace_id no_sdk x = 0" "inject_traceparent no_sdk x = []" "fail_span no_sdk x e = ret (error_type no_sdk e)" for x e
    by (simp_all add: no_sdk_def inject_traceparent_def merge_headers_def fail_span_def then_op_def bind_op_def ret_def)
  show ?thesis
  proof (cases pr)
    case (Inl e)
    with assms show ?thesis
      by (simp add: send_in_span_def k in_world_def send_def app_publisher_def bind_op_def)
  next
    case (Inr p)
    obtain i where i: "send (app_publisher a ft fi now) urn0 data queue (uuid_of 0) [] (untraced s) = (Inr (pr_envelope p, i, pr_error p), w)"
        "sent_result (i, pr_error p) = published_id p"
        "pr_envelope p = None \<or> (\<exists>e m. pr_envelope p = Some e \<and> meta_or_empty e = Inr m)"
      using send_app [OF assms [unfolded Inr]] by blast
    from no_sdk_describes [OF i(3), of "()"] obtain d where d: "describe_sent no_sdk () (uuid_of 0) dest (pr_envelope p) i = ret d" by blast
    have w: "in_world (send (app_publisher a ft fi now) urn0 data queue (uuid_of 0) []) s
        = (Inr (pr_envelope p, i, pr_error p), retraced w (sh_env s))"
      by (simp add: in_world_def i(1))
    have "send_in_span no_sdk (app_publisher a ft fi now) urn0 data queue None system dest sp s
        = (Inr (i, pr_error p), retraced w (sh_env s))"
      unfolding send_in_span_def k
      by (simp add: bind_run [where m = "in_world (send (app_publisher a ft fi now) urn0 data queue (uuid_of 0) [])"
          and s = s, OF w] d no_sdk_returns bind_ret count_def split: option.split) (simp add: ret_def)
    with i(2) Inr show ?thesis by simp
  qed
qed

text \<open>
  Without an SDK every message is of one trace. With the no-op tracer a traced publish is a publish
  with the all-zero identifier as the trace: no message gets a trace of its own, as it does from a plain
  publish, and the identifier is not one a consumer can map.
\<close>

theorem no_sdk_publishes_zero_trace:
  fixes s :: "('w, unit, unit) traced shared"
  shows "map_prod id untraced (otel_publish no_sdk (app_publisher a ft fi now) urn0 data queue (Some (u ''redis'')) None s)
      = publish a urn0 data queue (Some (u ''00000000-0000-0000-0000-000000000000'')) [] ft fi now (untraced s)
    \<and> direct_trace_id (u ''00000000-0000-0000-0000-000000000000'') = None"
proof -
  have zero: "uuid_of 0 = u ''00000000-0000-0000-0000-000000000000''" by code_simp
  obtain pr w where pr: "publish_envelope a urn0 data queue (Some (uuid_of 0)) [] ft fi now (untraced s) = (pr, w)" by force
  define dest where "dest = destination (case queue of Some q \<Rightarrow> if q \<noteq> [] then PStr q else PStr (a_queue a) | None \<Rightarrow> PStr (a_queue a))"
  from no_sdk_sends [OF pr, of "resolve_system (Some (u ''redis''))" dest "()"]
  obtain r s' where r: "send_in_span no_sdk (app_publisher a ft fi now) urn0 data queue None (resolve_system (Some (u ''redis''))) dest () s = (r, s')"
      "untraced s' = w" "bind_res r sent_result = bind_res pr published_id" by blast
  have calls: "telemetry (ot_start no_sdk n cx k d) = ret ()" "telemetry (ot_end no_sdk x) = ret ()" for n cx k d x
    by (simp_all add: no_sdk_def no_sdk_returns)
  have "with_span no_sdk n None k d (send_in_span no_sdk (app_publisher a ft fi now) urn0 data queue None
      (resolve_system (Some (u ''redis''))) dest) s = (r, s')" for n k d
    unfolding with_span_def calls bind_ret by (simp add: r(1)) (simp add: ret_def)
  then have "otel_publish no_sdk (app_publisher a ft fi now) urn0 data queue (Some (u ''redis'')) None s = (bind_res r sent_result, s')"
    unfolding otel_publish_def Let_def pb_app option.simps dest_def [symmetric] sent_counter_of_def
    by (simp add: u_eq_iff bind_ret) (simp add: bind_op_def lift_res_def bind_res_def split: sum.split)
  then have "map_prod id untraced (otel_publish no_sdk (app_publisher a ft fi now) urn0 data queue (Some (u ''redis'')) None s)
      = (bind_res pr published_id, w)"
    by (simp add: r(2,3))
  moreover have "publish a urn0 data queue (Some (uuid_of 0)) [] ft fi now (untraced s) = (bind_res pr published_id, w)"
    using pr by (auto simp: publish_def bind_op_def lift_res_def bind_res_def split: sum.split)
  moreover have "direct_trace_id (u ''00000000-0000-0000-0000-000000000000'') = None" by code_simp
  ultimately show ?thesis by (simp add: zero)
qed

end
