(* ===== verification/Links.thy ===== *)
theory Links
  imports Pulsar
begin

text \<open>
  Where a delivery is settled. A Service Bus lock and a Pulsar message belong to the receiver or consumer
  that delivered them; the transports look that object up again by the queue of the message. Between
  the delivery and its settlement the runtime may call the transport in any way.
\<close>

section \<open>Azure Service Bus\<close>

definition asb_holds :: "pystr \<Rightarrow> nat \<Rightarrow> nat \<Rightarrow> asb_message \<Rightarrow> 'w asb \<Rightarrow> bool" where
  "asb_holds q r n d s \<longleftrightarrow> dget (as_receivers s) q = Some r \<and> as_handles s n = Some d \<and> n < as_next s"

lemma asb_holds_client [preserve_rules]: "preserves (asb_holds q r n d) (asb_client f)"
  by (simp add: preserves_def asb_holds_def)

lemma asb_holds_sender [preserve_rules]: "preserves (asb_holds q r n d) (asb_sender K p)"
  unfolding asb_sender_def
  by (rule preserves_cached) (auto simp: preserve_rules asb_holds_def)

lemma asb_holds_receiver [preserve_rules]: "preserves (asb_holds q r n d) (asb_receiver K p)"
  unfolding asb_receiver_def
  by (rule preserves_cached) (auto simp: preserve_rules asb_holds_def)

lemma asb_holds_send: "preserves (asb_holds q r n d) (asb_send K p body hs)"
  unfolding asb_send_def Let_def by (intro preserve_rules)

lemma asb_holds_pop: "preserves (asb_holds q r n d) (asb_pop K p t)"
  unfolding asb_pop_def by (intro preserve_rules) (auto simp: asb_holds_def)

lemma asb_holds_with [preserve_rules]: "preserves (asb_holds q r n d) (asb_with_handle K m x f)"
  unfolding asb_with_handle_def by (intro preserve_rules)

lemma asb_holds_ack: "preserves (asb_holds q r n d) (asb_ack K m)"
  unfolding asb_ack_def by (intro preserve_rules)

lemma asb_holds_abandon [preserve_rules]: "preserves (asb_holds q r n d) (asb_abandon K m)"
  unfolding asb_abandon_def by (intro preserve_rules)

lemma asb_holds_native [preserve_rules]: "preserves (asb_holds q r n d) (asb_settle_native_dead_letter K m c x)"
  unfolding asb_settle_native_dead_letter_def
  by (rule preserves_test, intro preserve_rules) (cases "ac_dead_letter K", simp_all add: preserve_rules)

lemma asb_holds_close: "preserves (asb_holds q r n d) (asb_close K)"
  unfolding asb_close_def by (rule preserves_close_all) (auto simp: asb_holds_client)

lemma asb_holds_step:
  assumes "transport_step (asb_transport K) s s'" and "asb_holds q r n d s"
  shows "asb_holds q r n d s'"
proof -
  have native: "preserves (asb_holds q r n d) (asb_settle_native K m c x)" for m c x
    unfolding asb_settle_native_def by (intro preserve_rules)
  note all = asb_holds_send asb_holds_pop asb_holds_ack asb_holds_abandon asb_holds_native native asb_holds_close
  from assms show ?thesis
    by (cases rule: transport_step.cases)
      (auto simp: asb_transport_def intro: all [unfolded preserves_def, rule_format])
qed

lemma asb_pop_holds:
  assumes "asb_pop K q t s = (Inr (Some m), s1)"
  obtains r d w where "fst (asb_receiver K q s) = Inr r" "rm_queue m = q" "asb_holds q r (rm_handle m) d s1"
    and "asb_received q (rm_handle m) d = Inr m"
    and "ac_receive K r (asb_wait K t)
           (as_world (snd (asb_receiver K q s))) = (Inr (Some d), w)"
proof -
  obtain r s0 where r: "asb_receiver K q s = (Inr r, s0)"
    using assms by (auto simp: asb_pop_def bind_op_def split: prod.splits sum.splits)
  let ?f = "asb_client (ac_receive K r (asb_wait K t))"
  obtain d s2 where d: "?f s0 = (Inr (Some d), s2)"
    using assms r by (auto simp: asb_pop_def bind_op_def ret_def split: prod.splits sum.splits option.splits)
  have m: "asb_received q (as_next s2) d = Inr m"
    and s1: "s1 = s2\<lparr>as_handles := (as_handles s2)(as_next s2 := Some d), as_next := Suc (as_next s2)\<rparr>"
    using assms r d by (auto simp: asb_pop_def bind_op_def then_op_def modify_def ret_def split: prod.splits sum.splits option.splits)
  have h: "rm_handle m = as_next s2" "rm_queue m = q"
    using m by (auto simp: asb_received_def Let_def bind_res_def split: option.splits sum.splits)
  have "dget (as_receivers s2) q = Some r"
    using asb_receivers.stored [OF r] d asb_client_keeps(2) [of "ac_receive K r _" s0] by (metis snd_conv)
  with h s1 have "asb_holds q r (rm_handle m) d s1" by (simp add: asb_holds_def)
  moreover have "\<exists>w. ac_receive K r (asb_wait K t)
           (as_world s0) = (Inr (Some d), w)"
    using d by (auto simp: asb_client_def split: prod.splits)
  ultimately show thesis using that r m h by auto
qed

text \<open>
  C16: a Service Bus delivery is settled where it was delivered. It is completed, abandoned and dead-lettered on the receiver that delivered it and with the
  message that receiver handed over, whatever the runtime called in between.
\<close>

theorem asb_settles_where_delivered:
  assumes "asb_pop K q t s = (Inr (Some m), s1)" and "(transport_step (asb_transport K))\<^sup>*\<^sup>* s1 s2"
  shows "\<exists>r d w. ac_receive K r (asb_wait K t)
             (as_world (snd (asb_receiver K q s))) = (Inr (Some d), w)
         \<and> fst (asb_receiver K q s) = Inr r \<and> asb_received q (rm_handle m) d = Inr m
         \<and> asb_ack K m s2 = asb_client (ac_complete K r d) s2
         \<and> (\<forall>f. ac_abandon K = Some f \<longrightarrow> asb_abandon K m s2 = asb_client (f r d) s2)
         \<and> (\<forall>f reason x. ac_dead_letter K = Some f \<longrightarrow> asb_settle_native K m reason x s2 = asb_client (f r d reason x) s2)"
proof -
  obtain r d w where r: "fst (asb_receiver K q s) = Inr r" "rm_queue m = q" "asb_holds q r (rm_handle m) d s1"
      "asb_received q (rm_handle m) d = Inr m"
      "ac_receive K r (asb_wait K t) (as_world (snd (asb_receiver K q s))) = (Inr (Some d), w)"
    using asb_pop_holds [OF assms(1)] by metis
  from asb_holds_step assms(2) r(3) have held: "asb_holds q r (rm_handle m) d s2" by (rule steps_preserve)
  then have found: "asb_receiver K q s2 = (Inr r, s2)" "as_handles s2 (rm_handle m) = Some d"
    by (auto simp: asb_holds_def intro: asb_receivers.found)
  then have unit: "asb_with_handle K m () f s2 = asb_client (f r d) s2" for f
    using r(2) by (simp add: asb_with_handle_def bind_op_def)
  have "asb_settle_native K m reason x s2 = asb_client (f r d reason x) s2" if "ac_dead_letter K = Some f" for f reason x
    using that found(2) unit by (simp add: asb_settle_native_def asb_settle_native_dead_letter_def then_op_def bind_op_def
        ret_def split: prod.split sum.split)
  with unit r(1, 4, 5) show ?thesis by (auto simp: asb_ack_def asb_abandon_def)
qed

section \<open>Pulsar\<close>

definition pulsar_holds :: "pystr \<Rightarrow> nat \<Rightarrow> nat \<Rightarrow> pulsar_message \<Rightarrow> 'w pulsar \<Rightarrow> bool" where
  "pulsar_holds q c n d s \<longleftrightarrow> dget (pu_consumers s) q = Some c \<and> pu_handles s n = Some d \<and> n < pu_next s"

lemma pulsar_holds_client [preserve_rules]: "preserves (pulsar_holds q c n d) (pulsar_client f)"
  by (simp add: preserves_def pulsar_holds_def)

lemma pulsar_holds_producer [preserve_rules]: "preserves (pulsar_holds q c n d) (pulsar_producer K p)"
  unfolding pulsar_producer_def
  by (rule preserves_cached) (auto simp: preserve_rules pulsar_holds_def)

lemma pulsar_holds_consumer [preserve_rules]: "preserves (pulsar_holds q c n d) (pulsar_consumer K p)"
  unfolding pulsar_consumer_def
  by (rule preserves_cached) (auto simp: preserve_rules pulsar_holds_def)

lemma pulsar_holds_hook [preserve_rules]: "preserves (pulsar_holds q c n d) (call_hook K x)"
  by (auto simp: call_hook_def preserve_rules split: option.split)

lemma pulsar_holds_routed: "preserves (pulsar_holds q c n d) (pulsar_publish_routed K p body r)"
  unfolding pulsar_publish_routed_def by (intro preserve_rules)

lemma pulsar_holds_redriven: "preserves (pulsar_holds q c n d) (pulsar_publish_redriven K p body hs r)"
  unfolding pulsar_publish_redriven_def Let_def by (intro preserve_rules)

lemma preserves_event [preserve_rules]:
  "preserves I a \<Longrightarrow> (\<And>m. preserves I (f m)) \<Longrightarrow>
     preserves I (case x of PulsarTimeout \<Rightarrow> a | PulsarMessage m \<Rightarrow> f m)"
  by (simp split: pulsar_event.split)

lemma pulsar_holds_pop: "preserves (pulsar_holds q c n d) (pulsar_pop K p t)"
  unfolding pulsar_pop_def by (intro preserve_rules) (auto simp: pulsar_holds_def)

lemma pulsar_holds_settle: "preserves (pulsar_holds q c n d) (pulsar_settle f K m)"
  unfolding pulsar_settle_def by (intro preserve_rules)

lemma pulsar_holds_close: "preserves (pulsar_holds q c n d) (pulsar_close K)"
  unfolding pulsar_close_def by (rule preserves_close_all) (auto simp: pulsar_holds_client)

lemma pulsar_holds_step:
  assumes "transport_step (pulsar_transport K) s s'" and "pulsar_holds q c n d s"
  shows "pulsar_holds q c n d s'"
proof -
  note all = pulsar_holds_routed pulsar_holds_redriven pulsar_holds_pop pulsar_holds_settle pulsar_holds_close
  from assms show ?thesis
    by (cases rule: transport_step.cases)
      (auto simp: pulsar_transport_def intro: all [unfolded preserves_def, rule_format])
qed

lemma hook_keeps:
  "pu_consumers (snd (call_hook K x s)) = pu_consumers s" "pu_next (snd (call_hook K x s)) = pu_next s"
  by (auto simp: call_hook_def catch_exc_def pulsar_client_def ret_def split: option.split prod.split sum.split)

lemma pulsar_pop_holds:
  assumes "pulsar_pop K q t s = (Inr (Some m), s1)"
  obtains c d w x where "fst (pulsar_consumer K q s) = Inr c" "rm_queue m = q" "pulsar_holds q c (rm_handle m) d s1"
    and "pulsar_received q (rm_handle m) d = Inr (m, x)"
    and "pc_receive K c (pulsar_wait K t) (pu_world (snd (pulsar_consumer K q s))) = (Inr (PulsarMessage d), w)"
proof -
  obtain c s0 where c: "pulsar_consumer K q s = (Inr c, s0)"
    using assms by (auto simp: pulsar_pop_def bind_op_def split: prod.splits sum.splits)
  let ?f = "pulsar_client (pc_receive K c (pulsar_wait K t))"
  obtain d s2 where d: "?f s0 = (Inr (PulsarMessage d), s2)"
    using assms c by (auto simp: pulsar_pop_def bind_op_def ret_def split: prod.splits sum.splits pulsar_event.splits)
  obtain x s3 where m: "pulsar_received q (pu_next s2) d = Inr (m, x)" and s3: "s3 = snd (call_hook K x s2)"
    and s1: "s1 = s3\<lparr>pu_handles := (pu_handles s3)(pu_next s3 := Some d), pu_next := Suc (pu_next s3)\<rparr>"
    using assms c d
    by (auto simp: pulsar_pop_def bind_op_def then_op_def modify_def ret_def split: prod.splits sum.splits pulsar_event.splits)
  have h: "rm_handle m = pu_next s2" "rm_queue m = q"
    using m by (auto simp: pulsar_received_def Let_def bind_res_def split: option.splits sum.splits prod.splits)
  have "dget (pu_consumers s2) q = Some c"
    using pulsar_consumers.stored [OF c] d pulsar_client_keeps(2) [of "pc_receive K c _" s0] by (metis snd_conv)
  with h s1 s3 have "pulsar_holds q c (rm_handle m) d s1" by (simp add: pulsar_holds_def hook_keeps)
  moreover have "\<exists>w. pc_receive K c (pulsar_wait K t) (pu_world s0) = (Inr (PulsarMessage d), w)"
    using d by (auto simp: pulsar_client_def split: prod.splits)
  ultimately show thesis using that c m h by auto
qed

text \<open>A delivery is acknowledged and given back on the consumer that delivered it.\<close>

theorem pulsar_settles_where_delivered:
  assumes "pulsar_pop K q t s = (Inr (Some m), s1)" and "(transport_step (pulsar_transport K))\<^sup>*\<^sup>* s1 s2"
  shows "\<exists>c d w x. pc_receive K c (pulsar_wait K t) (pu_world (snd (pulsar_consumer K q s))) = (Inr (PulsarMessage d), w)
         \<and> fst (pulsar_consumer K q s) = Inr c \<and> pulsar_received q (rm_handle m) d = Inr (m, x)
         \<and> t_ack (pulsar_transport K) m s2 = pulsar_client (pc_acknowledge K c d) s2
         \<and> (\<forall>f. t_rewind (pulsar_transport K) = Some f \<longrightarrow> f m s2 = pulsar_client (pc_nack K c d) s2)"
proof -
  obtain c d w x where c: "fst (pulsar_consumer K q s) = Inr c" "rm_queue m = q" "pulsar_holds q c (rm_handle m) d s1"
      "pulsar_received q (rm_handle m) d = Inr (m, x)"
      "pc_receive K c (pulsar_wait K t) (pu_world (snd (pulsar_consumer K q s))) = (Inr (PulsarMessage d), w)"
    using pulsar_pop_holds [OF assms(1)] by metis
  from pulsar_holds_step assms(2) c(3) have "pulsar_holds q c (rm_handle m) d s2" by (rule steps_preserve)
  then have "pulsar_consumer K q s2 = (Inr c, s2)" "pu_handles s2 (rm_handle m) = Some d"
    by (auto simp: pulsar_holds_def intro: pulsar_consumers.found)
  then have "pulsar_settle f K m s2 = pulsar_client (f K c d) s2" for f
    using c(2) by (simp add: pulsar_settle_def bind_op_def)
  with c(1, 4, 5) show ?thesis by (auto simp: pulsar_transport_def)
qed

section \<open>Artemis\<close>

text \<open>The handle of a delivery is the receiver of its queue, and the receiver's \<open>accept\<close> names no message.\<close>

definition artemis_holds :: "pystr \<Rightarrow> nat \<Rightarrow> nat \<Rightarrow> 'w artemis \<Rightarrow> bool" where
  "artemis_holds q r n s \<longleftrightarrow> dget (rt_receivers s) q = Some r \<and> rt_handles s n = Some r \<and> n < rt_next s"

lemma artemis_holds_client [preserve_rules]: "preserves (artemis_holds q r n) (artemis_client f)"
  by (simp add: preserves_def artemis_holds_def)

lemma artemis_holds_sender [preserve_rules]: "preserves (artemis_holds q r n) (artemis_sender K p)"
  unfolding artemis_sender_def
  by (rule preserves_cached) (auto simp: preserve_rules artemis_holds_def)

lemma artemis_holds_receiver [preserve_rules]: "preserves (artemis_holds q r n) (artemis_receiver K p)"
  unfolding artemis_receiver_def
  by (rule preserves_cached) (auto simp: preserve_rules artemis_holds_def)

lemma artemis_holds_publish: "preserves (artemis_holds q r n) (artemis_publish K p body hs)"
  unfolding artemis_publish_def by (intro preserve_rules)

lemma preserves_received [preserve_rules]:
  "preserves I a \<Longrightarrow> (\<And>m. preserves I (f m)) \<Longrightarrow> preserves I (case x of ReceiveTimeout \<Rightarrow> a | Received m \<Rightarrow> f m)"
  by (simp split: received_event.split)

lemma artemis_holds_pop: "preserves (artemis_holds q r n) (artemis_pop K p t)"
  unfolding artemis_pop_def by (intro preserve_rules) (auto simp: artemis_holds_def)

lemma artemis_holds_ack: "preserves (artemis_holds q r n) (artemis_ack K m)"
  unfolding artemis_ack_def by (intro preserve_rules)

lemma artemis_holds_close: "preserves (artemis_holds q r n) (artemis_close K)"
  unfolding artemis_close_def by (intro preserve_rules)

lemma artemis_holds_step:
  assumes "transport_step (artemis_transport K) s s'" and "artemis_holds q r n s"
  shows "artemis_holds q r n s'"
proof -
  note all = artemis_holds_publish artemis_holds_pop artemis_holds_ack artemis_holds_close
  from assms show ?thesis
    by (cases rule: transport_step.cases)
      (auto simp: artemis_transport_def intro: all [unfolded preserves_def, rule_format])
qed

lemma artemis_pop_holds:
  assumes "artemis_pop K q t s = (Inr (Some m), s1)"
  obtains r s0 where "artemis_receiver K q s = (Inr r, s0)" "artemis_holds q r (rm_handle m) s1" "rm_handle m = rt_next s"
proof -
  obtain r s0 where r: "artemis_receiver K q s = (Inr r, s0)"
    using assms by (auto simp: artemis_pop_def bind_op_def split: prod.splits sum.splits)
  obtain d s2 where d: "artemis_client (rc_receive K r (if 0 < t then t else of_int (rc_timeout_millis K) / 1000)) s0
      = (Inr (Received d), s2)"
    using assms r by (auto simp: artemis_pop_def bind_op_def ret_def split: prod.splits sum.splits received_event.splits)
  have m: "artemis_received q (rt_next s2) d = Inr m"
    and s1: "s1 = s2\<lparr>rt_handles := (rt_handles s2)(rt_next s2 := Some r), rt_next := Suc (rt_next s2)\<rparr>"
    using assms r d
    by (auto simp: artemis_pop_def bind_op_def then_op_def modify_def ret_def split: prod.splits sum.splits received_event.splits)
  have h: "rm_handle m = rt_next s2"
    using m by (auto simp: artemis_received_def Let_def bind_res_def split: option.splits sum.splits)
  have "rt_receivers s2 = rt_receivers s0" "rt_next s2 = rt_next s0"
    using d by (auto simp: artemis_client_def split: prod.splits)
  moreover have "rt_next s0 = rt_next s"
    using r by (auto simp: artemis_receiver_def cached_def ret_def bind_op_def then_op_def modify_def artemis_client_def
        split: option.splits prod.splits sum.splits)
  ultimately show thesis
    using that r h s1 artemis_receivers.stored [OF r] by (simp add: artemis_holds_def)
qed

text \<open>
  C17: an Artemis acknowledgement cannot say what it settles. Two deliveries of one queue, however far apart, have
  handles of their own, but acknowledging the one is the same call as acknowledging the other, at any
  later time; which of them is settled is left to the receiver.
\<close>

theorem artemis_ack_cannot_choose:
  assumes "artemis_pop K q t s = (Inr (Some m1), s1)" and "(transport_step (artemis_transport K))\<^sup>*\<^sup>* s1 s2"
    and "artemis_pop K q t' s2 = (Inr (Some m2), s3)" and "(transport_step (artemis_transport K))\<^sup>*\<^sup>* s3 s4"
  shows "rm_handle m1 \<noteq> rm_handle m2 \<and> artemis_ack K m1 s4 = artemis_ack K m2 s4"
proof -
  obtain r where r: "artemis_holds q r (rm_handle m1) s1" using artemis_pop_holds [OF assms(1)] by metis
  from artemis_holds_step assms(2) this have two: "artemis_holds q r (rm_handle m1) s2" by (rule steps_preserve)
  obtain r' s0 where r': "artemis_receiver K q s2 = (Inr r', s0)" "artemis_holds q r' (rm_handle m2) s3" "rm_handle m2 = rt_next s2"
    using artemis_pop_holds [OF assms(3)] by metis
  have "artemis_receiver K q s2 = (Inr r, s2)" using two by (auto simp: artemis_holds_def intro: artemis_receivers.found)
  with r' have same: "r' = r" by simp
  have "artemis_holds q r (rm_handle m1) s3"
    using two artemis_holds_pop [of q r "rm_handle m1" K q t'] assms(3) unfolding preserves_def by (metis snd_conv)
  with artemis_holds_step assms(4) have "artemis_holds q r (rm_handle m1) s4" by (rule steps_preserve)
  moreover from artemis_holds_step assms(4) r'(2) have "artemis_holds q r' (rm_handle m2) s4" by (rule steps_preserve)
  ultimately show ?thesis using same two r'(3) by (auto simp: artemis_ack_def artemis_holds_def)
qed

end
