(* ===== verification/LinksDemo.thy ===== *)
theory LinksDemo
  imports Links Dispatch
begin

text \<open>
  Small clients to run the Service Bus, Pulsar and Artemis transports on, the witnesses of the theorems of
  \<open>Links\<close>, and the runtime over the Artemis transport: a message that could not be settled is lost to the
  next acknowledgement.
\<close>

section \<open>A transport inside the runtime\<close>

text \<open>The state of a broker transport is the environment of the runtime's shared state.\<close>

definition on_env :: "('s, 'a) op \<Rightarrow> ('s shared, 'a) op" where
  "on_env f = (\<lambda>w. case f (sh_env w) of (r, s) \<Rightarrow> (r, w\<lparr>sh_env := s\<rparr>))"

definition artemis_runtime :: "'w artemis_setup \<Rightarrow> 'w artemis shared transport" where
  "artemis_runtime K =
     \<lparr>t_publish = (\<lambda>q body. on_env (t_publish (artemis_transport K) q body)),
      t_pop = (\<lambda>q. on_env (t_pop (artemis_transport K) q)),
      t_ack = (\<lambda>m. on_env (t_ack (artemis_transport K) m)),
      t_close = on_env (t_close (artemis_transport K)),
      t_classifies_poison = t_classifies_poison (artemis_transport K),
      t_publish_with_headers =
        map_option (\<lambda>f q body hs. on_env (f q body hs)) (t_publish_with_headers (artemis_transport K)),
      t_publish_routed = None, t_publish_settle = None, t_publish_redriven = None,
      t_redeliver = None, t_dead_letter = None, t_rewind = None, t_dead_letter_queue_name = None,
      t_abandon = None, t_settle_native = None, t_settle_native_dead_letter = None,
      t_pop_batch = None, t_retry_tiers_ms = None\<rparr>"

section \<open>Artemis\<close>

text \<open>
  A receiver hands over what is in stock and keeps it unsettled; \<open>accept\<close> settles the oldest delivery that is
  unsettled, as the blocking receiver of the client library does. The broker takes no message.
\<close>

record proton =
  px_stock :: "artemis_message list"
  px_unsettled :: "artemis_message list"
  px_accepted :: "artemis_message list"

definition proton_setup :: "proton artemis_setup" where
  "proton_setup =
     \<lparr>rc_sender = (\<lambda>q. ret 1), rc_receiver = (\<lambda>q. ret 2),
      rc_send = (\<lambda>h m. raise_op (Exc (UserError (u ''LinkDetached'')) [])),
      rc_receive = (\<lambda>h t w. case px_stock w of
          [] \<Rightarrow> (Inr ReceiveTimeout, w)
        | m # ms \<Rightarrow> (Inr (Received m), w\<lparr>px_stock := ms, px_unsettled := px_unsettled w @ [m]\<rparr>)),
      rc_accept = (\<lambda>h w. case px_unsettled w of
          [] \<Rightarrow> (Inl (Exc (UserError (u ''IndexError'')) []), w)
        | m # ms \<Rightarrow> (Inr (), w\<lparr>px_unsettled := ms, px_accepted := px_accepted w @ [m]\<rparr>)),
      rc_close = ret (), rc_timeout_millis = 1000\<rparr>"

definition proton_message :: "string \<Rightarrow> artemis_message" where
  "proton_message body = \<lparr>rx_body = RawStr (u body), rx_properties = [], rx_count = 0\<rparr>"

definition failing_message :: artemis_message where
  "failing_message = proton_message ''{\"job\":\"urn:a\"}''"

definition working_message :: artemis_message where
  "working_message = proton_message ''{\"job\":\"urn:b\"}''"

definition proton_app :: "proton artemis app" where
  "proton_app =
     \<lparr>a_transport = artemis_runtime proton_setup,
      a_handlers =
        [(u ''urn:a'', \<lparr>wants_envelope = False,
            run_handler = (\<lambda>hs replay data meta e. raise_op (Exc (UserError (u ''Down'')) []))\<rparr>),
         (u ''urn:b'', \<lparr>wants_envelope = False, run_handler = (\<lambda>hs replay data meta e. ret ())\<rparr>)],
      a_queue = u ''q'', a_on_unknown_urn = FAIL, a_max_attempts = 3, a_dead_letter = True,
      a_dead_letter_queue = None, a_dead_letter_suffix = None, a_retry_backoff = 0, a_retry_multiplier = 1,
      a_retry_max = 0, a_retry_jitter = u ''none'', a_uniform = (\<lambda>x y. x), a_unknown_delay = 0,
      a_shutdown_timeout = 30, a_observer = None, a_now_ms = (\<lambda>w. 1000)\<rparr>"

definition proton_start :: "proton artemis" where
  "proton_start =
     \<lparr>rt_world = \<lparr>px_stock = [failing_message, working_message], px_unsettled = [], px_accepted = []\<rparr>,
      rt_senders = [], rt_receivers = [], rt_handles = (\<lambda>n. None), rt_next = 1\<rparr>"



definition proton_end :: "nat res option \<times> (call \<times> bool) list \<times> proton" where
  "proton_end =
     (case consume 9 proton_app None (Some 2) (init_rt proton_start) of
        None \<Rightarrow> (None, [], rt_world proton_start)
      | Some (r, s) \<Rightarrow> (Some r, rt_calls s, rt_world (sh_env (rt_shared s))))"

text \<open>
  A message that could not be settled is lost to the next acknowledgement. The handler of the first message
  fails and its retry cannot be written, so the runtime leaves it unsettled, to be redelivered; the second
  message is handled and acknowledged. The acknowledgement settles the first one: it is accepted,
  although nothing handled it and nothing holds a copy, and the second stays unsettled.
\<close>

theorem artemis_loses_unsettled_message:
  "fst proton_end = Some (Inr 2)
   \<and> fst (snd proton_end) =
       [(Handler (u ''urn:a''), False), (Write (u ''q'') (u ''{\"job\":\"urn:a\",\"attempts\":1}''), False),
        (Handler (u ''urn:b''), True), (Ack, True)]
   \<and> map rx_body (px_accepted (snd (snd proton_end))) = [rx_body failing_message]
   \<and> map rx_body (px_unsettled (snd (snd proton_end))) = [rx_body working_message]"
  by (intro conjI; code_simp)

definition handed_over :: "received_message option res \<Rightarrow> bool" where
  "handed_over r = (case r of Inr (Some m) \<Rightarrow> True | _ \<Rightarrow> False)"

lemma handed_overE:
  assumes "handed_over (fst x)" obtains m s where "x = (Inr (Some m), s)"
  using assms by (cases x) (auto simp: handed_over_def split: sum.splits option.splits)

definition proton_first :: "proton artemis" where
  "proton_first = snd (artemis_pop proton_setup (u ''q'') 1 proton_start)"

lemma proton_pops:
  "handed_over (fst (artemis_pop proton_setup (u ''q'') 1 proton_start))"
  "handed_over (fst (artemis_pop proton_setup (u ''q'') 1 proton_first))"
  by code_simp+

theorem artemis_ack_cannot_choose_witness:
  "\<exists>m1 m2 s. fst (artemis_pop proton_setup (u ''q'') 1 proton_start) = Inr (Some m1)
     \<and> artemis_pop proton_setup (u ''q'') 1 proton_first = (Inr (Some m2), s)
     \<and> rm_handle m1 \<noteq> rm_handle m2 \<and> artemis_ack proton_setup m1 s = artemis_ack proton_setup m2 s"
proof -
  obtain m1 s1 where one: "artemis_pop proton_setup (u ''q'') 1 proton_start = (Inr (Some m1), s1)"
    using proton_pops(1) by (rule handed_overE)
  obtain m2 s2 where two: "artemis_pop proton_setup (u ''q'') 1 proton_first = (Inr (Some m2), s2)"
    using proton_pops(2) by (rule handed_overE)
  have "s1 = proton_first" using one by (simp add: proton_first_def)
  with artemis_ack_cannot_choose [OF one rtranclp.rtrancl_refl _ rtranclp.rtrancl_refl] one two show ?thesis
    by (metis fst_conv)
qed

section \<open>Azure Service Bus and Pulsar\<close>

definition bus_setup :: "nat asb_setup" where
  "bus_setup =
     \<lparr>ac_sender = (\<lambda>q n. (Inr n, n + 1)), ac_receiver = (\<lambda>q n. (Inr n, n + 1)), ac_send = (\<lambda>h m. ret ()),
      ac_receive = (\<lambda>h t. ret (Some \<lparr>am_text = u ''{}'', am_properties = [], am_count = None\<rparr>)),
      ac_complete = (\<lambda>h m n. (Inr (), n + 10)), ac_abandon = None, ac_dead_letter = None,
      ac_close_link = (\<lambda>h. ret ()), ac_close = ret (), ac_max_wait_time = None\<rparr>"

definition bus_start :: "nat asb" where
  "bus_start = \<lparr>as_world = 7, as_senders = [], as_receivers = [], as_handles = (\<lambda>n. None), as_next = 1\<rparr>"

definition bus_taken :: "nat asb" where
  "bus_taken = snd (asb_pop bus_setup (u ''q'') 1 bus_start)"

definition bus_later :: "nat asb" where
  "bus_later = snd (asb_pop bus_setup (u ''r'') 1 bus_taken)"

lemma bus_runs:
  "handed_over (fst (asb_pop bus_setup (u ''q'') 1 bus_start))"
  "fst (asb_receiver bus_setup (u ''q'') bus_start) = Inr 7" "fst (asb_receiver bus_setup (u ''r'') bus_later) = Inr 8"
  by code_simp+

theorem asb_settles_where_delivered_witness:
  "\<exists>m d. fst (asb_pop bus_setup (u ''q'') 1 bus_start) = Inr (Some m)
     \<and> asb_ack bus_setup m bus_later = asb_client (ac_complete bus_setup 7 d) bus_later"
proof -
  obtain m s where m: "asb_pop bus_setup (u ''q'') 1 bus_start = (Inr (Some m), s)"
    using bus_runs(1) by (rule handed_overE)
  have step: "(transport_step (asb_transport bus_setup))\<^sup>*\<^sup>* s bus_later"
    using transport_step.pop [of "asb_transport bus_setup" s "u ''r''"] m
    by (simp add: asb_transport_def bus_later_def bus_taken_def)
  from asb_settles_where_delivered [OF m step] bus_runs(2) m show ?thesis by auto
qed

definition pulsar_demo :: "nat pulsar_setup" where
  "pulsar_demo =
     \<lparr>pc_producer = (\<lambda>q n. (Inr n, n + 1)), pc_consumer = (\<lambda>q name ps n. (Inr n, n + 1)), pc_send = (\<lambda>h b ps. ret ()),
      pc_receive = (\<lambda>h t. ret (PulsarMessage \<lparr>pm_data = RawStr (u ''{}''), pm_properties = [], pm_redeliveries = 0\<rparr>)),
      pc_acknowledge = (\<lambda>h m n. (Inr (), n + 10)), pc_nack = (\<lambda>h m n. (Inr (), n + 20)),
      pc_close_link = (\<lambda>h. ret ()), pc_close = ret (), pc_topic_prefix = u ''p-'',
      pc_subscription = u ''babelqueue'', pc_subscribe_options = [], pc_consumer_type = None, pc_shared_type = None, pc_timeout_millis = 1000,
      pc_hook = None\<rparr>"

definition pulsar_start :: "nat pulsar" where
  "pulsar_start = \<lparr>pu_world = 7, pu_producers = [], pu_consumers = [], pu_handles = (\<lambda>n. None), pu_next = 1\<rparr>"

definition pulsar_later :: "nat pulsar" where
  "pulsar_later = snd (pulsar_pop pulsar_demo (u ''r'') 1 (snd (pulsar_pop pulsar_demo (u ''q'') 1 pulsar_start)))"

lemma pulsar_runs:
  "handed_over (fst (pulsar_pop pulsar_demo (u ''q'') 1 pulsar_start))"
  "fst (pulsar_consumer pulsar_demo (u ''q'') pulsar_start) = Inr 7"
  "fst (pulsar_consumer pulsar_demo (u ''r'') pulsar_later) = Inr 8"
  by code_simp+

theorem pulsar_settles_where_delivered_witness:
  "\<exists>m d. fst (pulsar_pop pulsar_demo (u ''q'') 1 pulsar_start) = Inr (Some m)
     \<and> t_ack (pulsar_transport pulsar_demo) m pulsar_later = pulsar_client (pc_acknowledge pulsar_demo 7 d) pulsar_later"
proof -
  obtain m s where m: "pulsar_pop pulsar_demo (u ''q'') 1 pulsar_start = (Inr (Some m), s)"
    using pulsar_runs(1) by (rule handed_overE)
  have step: "(transport_step (pulsar_transport pulsar_demo))\<^sup>*\<^sup>* s pulsar_later"
    using transport_step.pop [of "pulsar_transport pulsar_demo" s "u ''r''"] m
    by (simp add: pulsar_transport_def pulsar_later_def)
  from pulsar_settles_where_delivered [OF m step] pulsar_runs(2) m show ?thesis by auto
qed

end
