(* ===== verification/Signals.thy ===== *)
theory Signals
  imports Lifecycle
begin

text \<open>
  The process signal handlers of \<open>app.py\<close>: \<open>consume\<close> replaces those of SIGTERM and SIGINT on the main
  thread and puts back what it replaced, and the whole of \<open>consume\<close> with them.
\<close>

section \<open>Dispositions\<close>

text \<open>
  What a signal does, by its number: the default, nothing, a Python function (here a handler the program
  installed or the runtime's own), or a function that was not installed from Python, which
  \<open>signal.signal\<close> answers as \<open>None\<close>.
\<close>

datatype disposition = SigDefault | SigIgnore | Installed nat | OnShutdown | NotFromPython

type_synonym signal_table = "nat \<Rightarrow> disposition"

definition signal_signal :: "nat \<Rightarrow> disposition \<Rightarrow> signal_table \<Rightarrow> disposition option \<times> signal_table" where
  "signal_signal n h t = (case t n of NotFromPython \<Rightarrow> None | d \<Rightarrow> Some d, t(n := h))"

text \<open>SIGTERM and SIGINT.\<close>

definition SHUTDOWN_SIGNALS :: "nat list" where
  "SHUTDOWN_SIGNALS = [15, 2]"

text \<open>Both loops: \<open>previous[signum] = signal.signal(...)\<close>, and the way back.\<close>

fun install_each :: "nat list \<Rightarrow> signal_table \<Rightarrow> (nat \<times> disposition option) list \<times> signal_table" where
  "install_each [] t = ([], t)"
| "install_each (n # ns) t =
     (case signal_signal n OnShutdown t of
        (d, t1) \<Rightarrow> (case install_each ns t1 of (previous, t2) \<Rightarrow> ((n, d) # previous, t2)))"

definition install_signal_handlers :: "bool \<Rightarrow> signal_table \<Rightarrow> (nat \<times> disposition option) list \<times> signal_table" where
  "install_signal_handlers main_thread t = (if main_thread then install_each SHUTDOWN_SIGNALS t else ([], t))"

definition restore_signal_handlers :: "(nat \<times> disposition option) list \<Rightarrow> signal_table \<Rightarrow> signal_table" where
  "restore_signal_handlers previous t =
     fold (\<lambda>(n, h) t. snd (signal_signal n (case h of None \<Rightarrow> SigDefault | Some d \<Rightarrow> d) t)) previous t"

section \<open>The whole of consume\<close>

text \<open>
  The handlers are in place for the loop and its \<open>except\<close>; the \<open>finally\<close> restores them before it closes the
  transport. The state is that of the runtime and the table of the process.
\<close>

definition consume_with_signals ::
  "nat \<Rightarrow> 'w app \<Rightarrow> pystr option \<Rightarrow> nat option \<Rightarrow> bool \<Rightarrow> bool \<Rightarrow> 'w rt \<times> signal_table
     \<Rightarrow> (nat res \<times> 'w rt \<times> signal_table) option" where
  "consume_with_signals fuel a queue max_messages handle_signals main_thread =
     (\<lambda>(s, t).
        let target = (case queue of None \<Rightarrow> a_queue a | Some q \<Rightarrow> if q = [] then a_queue a else q);
            s0 = s\<lparr>rt_shared := (rt_shared s)\<lparr>sh_signalled := False, sh_deadline_hit := False\<rparr>\<rparr>;
            (previous, t1) = (if handle_signals then install_signal_handlers main_thread t else ([], t))
        in case consume_loop fuel a target max_messages 0 s0 of
             None \<Rightarrow> None
           | Some (ex, s1) \<Rightarrow>
               (case after_loop a ex s1 of
                  (res, s2) \<Rightarrow>
                    let t2 = restore_signal_handlers previous t1
                    in (case consume_finally a s2 of
                          (Inl e, s3) \<Rightarrow> Some (Inl e, s3, t2)
                        | (Inr x, s3) \<Rightarrow>
                            Some (case res of Inl e \<Rightarrow> Inl e | Inr y \<Rightarrow> Inr (ex_processed ex), s3, t2))))"

text \<open>On the runtime's state it is \<open>consume\<close>.\<close>

lemma consume_with_signals_eq:
  "map_option (\<lambda>(r, s, t). (r, s)) (consume_with_signals fuel a queue max_messages hs main (s, t))
     = consume fuel a queue max_messages s"
  by (simp add: consume_with_signals_def consume_def Let_def split: prod.split option.split sum.split)

section \<open>Properties\<close>

lemma installed:
  "snd (install_signal_handlers True t) = t(15 := OnShutdown, 2 := OnShutdown)"
  by (simp add: install_signal_handlers_def SHUTDOWN_SIGNALS_def signal_signal_def)

definition given_back :: "disposition \<Rightarrow> disposition" where
  "given_back d = (if d = NotFromPython then SigDefault else d)"

lemma given_back_answer: "(case fst (signal_signal n h t) of None \<Rightarrow> SigDefault | Some d \<Rightarrow> d) = given_back (t n)"
  by (cases "t n") (simp_all add: signal_signal_def given_back_def)

lemma signal_set [simp]: "snd (signal_signal n h t) = t(n := h)"
  by (simp add: signal_signal_def)

lemma restored:
  "restore_signal_handlers (fst (install_signal_handlers True t)) (snd (install_signal_handlers True t))
     = t(15 := given_back (t 15), 2 := given_back (t 2))"
  by (simp add: install_signal_handlers_def SHUTDOWN_SIGNALS_def restore_signal_handlers_def given_back_answer
      split_beta fun_upd_twist fun_eq_iff)

text \<open>
  C38: consume gives the process its signal handlers back. However \<open>consume\<close> ends, by a count, by an
  exception of the transport or a handler, by a signal, or by a close that raises, every handler the
  program had installed is in place again; only one that was not installed from Python is left at the
  default. Off the main thread nothing is touched.
\<close>

theorem consume_restores_signal_handlers:
  assumes "consume_with_signals fuel a queue max_messages handle_signals main_thread (s, t) = Some (r, s', t')"
  shows "t' n = (if handle_signals \<and> main_thread \<and> n \<in> set SHUTDOWN_SIGNALS \<and> t n = NotFromPython
                 then SigDefault else t n)"
proof -
  define p where "p = (if handle_signals then install_signal_handlers main_thread t else ([], t))"
  have "t' = restore_signal_handlers (fst p) (snd p)"
    using assms by (auto simp: consume_with_signals_def Let_def p_def [symmetric]
        split: option.splits prod.splits sum.splits)
  moreover have "restore_signal_handlers [] t = t" by (simp add: restore_signal_handlers_def)
  moreover have "install_signal_handlers False t = ([], t)" by (simp add: install_signal_handlers_def)
  ultimately show ?thesis
    using restored [of t] by (cases main_thread) (auto simp: p_def given_back_def SHUTDOWN_SIGNALS_def)
qed

end
