(* ===== verification/Adapters.thy ===== *)
theory Adapters
  imports Signals Witnesses
begin

text \<open>
  \<open>celery.py\<close> and \<open>django/\<close>: a runtime built from the settings of the framework, the consumer thread of a
  Celery worker and Django's process-wide runtime with its management command. The frameworks
  themselves are arguments: what their settings hold.
\<close>

section \<open>The constructor's defaults\<close>

definition default_app ::
  "(transport_kind \<Rightarrow> 'w shared transport) \<Rightarrow> pystr \<Rightarrow> 'w shared transport option \<Rightarrow> pystr option \<Rightarrow> pystr option
     \<Rightarrow> int option \<Rightarrow> bool option \<Rightarrow> pystr option \<Rightarrow> pystr option \<Rightarrow> (rat \<Rightarrow> rat \<Rightarrow> rat) \<Rightarrow> ('w shared \<Rightarrow> int)
     \<Rightarrow> 'w app res" where
  "default_app connect broker_url transport queue strategy max_attempts enabled dlq suffix uniform now_ms =
     init_app connect broker_url transport (case queue of None \<Rightarrow> u ''default'' | Some q \<Rightarrow> q)
       (case strategy of None \<Rightarrow> FAIL | Some x \<Rightarrow> x) (case max_attempts of None \<Rightarrow> 3 | Some n \<Rightarrow> n)
       (case enabled of None \<Rightarrow> False | Some b \<Rightarrow> b) dlq suffix 0 1 0 (u ''none'') 0 30 None uniform now_ms"

section \<open>Celery\<close>

text \<open>
  \<open>app.conf\<close>: its attribute \<open>broker_url\<close> and its method \<open>get\<close>, if it has one. An absent or empty URL counts
  as none.
\<close>

record celery_conf =
  cc_broker_url :: "pystr option"
  cc_get :: "(pystr \<Rightarrow> pystr option) option"

definition first_text :: "pystr option \<Rightarrow> pystr option \<Rightarrow> pystr option" where
  "first_text x y = (case x of None \<Rightarrow> y | Some s \<Rightarrow> if s = [] then y else Some s)"

definition broker_url :: "celery_conf option \<Rightarrow> pystr res" where
  "broker_url conf =
     (let url = (case conf of
                   None \<Rightarrow> None
                 | Some c \<Rightarrow>
                     first_text (cc_broker_url c)
                       (case cc_get c of
                          None \<Rightarrow> None
                        | Some get \<Rightarrow> first_text (get (u ''broker_url'')) (get (u ''BROKER_URL''))))
      in case first_text url None of
           None \<Rightarrow> Inl (Exc BabelQueueError
               (u ''The Celery app has no broker configured; set broker_url before calling from_celery().''))
         | Some s \<Rightarrow> Inr s)"

definition from_celery :: "celery_conf option \<Rightarrow> (pystr \<Rightarrow> 'w app res) \<Rightarrow> 'w app res" where
  "from_celery conf build = bind_res (broker_url conf) build"

text \<open>
  The thread of the worker step: one bounded \<open>consume\<close> after another, off the main thread, until the step is
  stopped; the number is of the iterations begun before that. What a \<open>consume\<close> raises ends the thread. The
  bound of each \<open>consume\<close> is enough (\<open>bounded_consume_returns\<close>).
\<close>

fun worker_loop :: "nat \<Rightarrow> 'w app \<Rightarrow> pystr option \<Rightarrow> 'w rt \<times> signal_table \<Rightarrow> (unit res \<times> 'w rt \<times> signal_table) option" where
  "worker_loop 0 a queue st = Some (Inr (), st)"
| "worker_loop (Suc n) a queue st =
     (case consume_with_signals 2 a queue (Some 1) True False st of
        None \<Rightarrow> None
      | Some (Inl e, st') \<Rightarrow> Some (Inl e, st')
      | Some (Inr k, st') \<Rightarrow> worker_loop n a queue st')"

section \<open>Django\<close>

text \<open>
  The \<open>BABELQUEUE\<close> setting: the broker and the seven options that are handed to the constructor, where
  they are given. \<open>dj_other\<close> are its other keys.
\<close>

record 'w django_settings =
  dj_broker_url :: "pystr option"
  dj_transport :: "'w shared transport option"
  dj_queue :: "pystr option"
  dj_on_unknown_urn :: "pystr option"
  dj_max_attempts :: "int option"
  dj_dead_letter :: "bool option"
  dj_dead_letter_queue :: "pystr option"
  dj_dead_letter_suffix :: "pystr option"
  dj_other :: "pystr list"

definition build_app ::
  "(transport_kind \<Rightarrow> 'w shared transport) \<Rightarrow> (rat \<Rightarrow> rat \<Rightarrow> rat) \<Rightarrow> ('w shared \<Rightarrow> int) \<Rightarrow> 'w django_settings \<Rightarrow> 'w app res" where
  "build_app connect uniform now_ms raw =
     default_app connect (case dj_broker_url raw of None \<Rightarrow> u ''memory://'' | Some b \<Rightarrow> b) (dj_transport raw) (dj_queue raw)
       (dj_on_unknown_urn raw) (dj_max_attempts raw) (dj_dead_letter raw) (dj_dead_letter_queue raw)
       (dj_dead_letter_suffix raw) uniform now_ms"

text \<open>The process-wide runtime: the application object and its state, which a new one starts afresh.\<close>

record 'w django =
  dj_app :: "'w app option"
  dj_rt :: "'w rt"
  dj_signals :: signal_table

definition get_app :: "('w django_settings \<Rightarrow> 'w app res) \<Rightarrow> 'w django_settings \<Rightarrow> ('w django, 'w app) op" where
  "get_app build settings =
     (\<lambda>s. case dj_app s of
            Some a \<Rightarrow> (Inr a, s)
          | None \<Rightarrow>
              (case build settings of
                 Inl e \<Rightarrow> (Inl e, s)
               | Inr a \<Rightarrow> (Inr a, s\<lparr>dj_app := Some a, dj_rt := init_rt (sh_env (rt_shared (dj_rt s)))\<rparr>)))"

definition reset_app :: "'w django \<Rightarrow> 'w django" where
  "reset_app s = s\<lparr>dj_app := None\<rparr>"

text \<open>\<open>@get_app().handler(urn)\<close>: the application object is updated in place.\<close>

definition django_register ::
  "('w django_settings \<Rightarrow> 'w app res) \<Rightarrow> 'w django_settings \<Rightarrow> pystr \<Rightarrow> 'w handler \<Rightarrow> ('w django, unit) op" where
  "django_register build settings key h =
     bind_op (get_app build settings) (\<lambda>a. modify (\<lambda>s. s\<lparr>dj_app := Some (register key h a)\<rparr>))"

definition on_runtime :: "('w shared, 'a) op \<Rightarrow> ('w django, 'a) op" where
  "on_runtime f =
     (\<lambda>s. case f (rt_shared (dj_rt s)) of (r, w) \<Rightarrow> (r, s\<lparr>dj_rt := (dj_rt s)\<lparr>rt_shared := w\<rparr>\<rparr>))"

definition django_publish ::
  "('w django_settings \<Rightarrow> 'w app res) \<Rightarrow> 'w django_settings \<Rightarrow> pystr \<Rightarrow> pyval dict \<Rightarrow> pystr option \<Rightarrow> pystr option
     \<Rightarrow> pystr \<Rightarrow> pystr \<Rightarrow> int \<Rightarrow> ('w django, pyval) op" where
  "django_publish build settings urn0 data queue trace_id fresh_trace fresh_id now_ms =
     bind_op (get_app build settings) (\<lambda>a.
       on_runtime (publish a urn0 data queue trace_id [] fresh_trace fresh_id now_ms))"

text \<open>\<open>manage.py babelqueue_worker\<close>: consume on the main thread and report the count.\<close>

definition worker_command ::
  "('w django_settings \<Rightarrow> 'w app res) \<Rightarrow> 'w django_settings \<Rightarrow> nat \<Rightarrow> pystr option \<Rightarrow> nat option \<Rightarrow> 'w django
     \<Rightarrow> (nat res \<times> 'w django) option" where
  "worker_command build settings fuel queue max_messages s =
     (case get_app build settings s of
        (Inl e, s1) \<Rightarrow> Some (Inl e, s1)
      | (Inr a, s1) \<Rightarrow>
          (case consume_with_signals fuel a queue max_messages True True (dj_rt s1, dj_signals s1) of
             None \<Rightarrow> None
           | Some (r, rt, signals) \<Rightarrow> Some (r, s1\<lparr>dj_rt := rt, dj_signals := signals\<rparr>)))"

section \<open>Properties\<close>

lemma bounded_consume_some:
  assumes "m < fuel"
  shows "\<exists>x. consume_with_signals fuel a queue (Some m) hs main (s, t) = Some x"
proof -
  obtain k where "fuel = Suc m + k" using assms less_iff_Suc_add by auto
  let ?target = "case queue of None \<Rightarrow> a_queue a | Some q \<Rightarrow> if q = [] then a_queue a else q"
  let ?s = "s\<lparr>rt_shared := (rt_shared s)\<lparr>sh_signalled := False, sh_deadline_hit := False\<rparr>\<rparr>"
  obtain ex s' where "consume_loop fuel a ?target (Some m) 0 ?s = Some (ex, s')"
    using consume_loop_ends [of m 0 fuel a ?target ?s] assms by auto
  then show ?thesis
    by (auto simp: consume_with_signals_def Let_def split: prod.split sum.split)
qed

theorem consume_restores_signal_handlers_witness:
  "\<exists>r s' t'. consume_with_signals 2 (demo_app (ret ()) FAIL 3) None (Some 1) True True
       (demo_state, Installed(2 := NotFromPython)) = Some (r, s', t')
     \<and> t' 15 = Installed 15 \<and> t' 2 = SigDefault"
proof -
  obtain r s' t' where run: "consume_with_signals 2 (demo_app (ret ()) FAIL 3) None (Some 1) True True
      (demo_state, Installed(2 := NotFromPython)) = Some (r, s', t')"
    using bounded_consume_some [of 1 2 "demo_app (ret ()) FAIL 3" None True True demo_state "Installed(2 := NotFromPython)"]
    by (auto simp: split_paired_all)
  from consume_restores_signal_handlers [OF run, of 15] consume_restores_signal_handlers [OF run, of 2] run
  show ?thesis by (auto simp: SHUTDOWN_SIGNALS_def)
qed


text \<open>
  Celery's own name for its AMQP broker, \<open>pyamqp://\<close>, is a scheme the runtime refuses, whatever the other
  arguments are.
\<close>

theorem celery_broker_refused:
  "map_sum exc_class_of id
     (from_celery (Some \<lparr>cc_broker_url = Some (u ''pyamqp://guest@localhost//''), cc_get = None\<rparr>)
        (\<lambda>url. default_app connect url None queue strategy n enabled dlq suffix uniform now_ms)) = Inl BabelQueueError"
proof -
  have "map_sum exc_class_of id (make_transport (u ''pyamqp://guest@localhost//'')) = Inl BabelQueueError"
    by code_simp
  moreover have "broker_url (Some \<lparr>cc_broker_url = Some (u ''pyamqp://guest@localhost//''), cc_get = None\<rparr>)
      = Inr (u ''pyamqp://guest@localhost//'')"
    by code_simp
  ultimately show ?thesis
    by (cases "make_transport (u ''pyamqp://guest@localhost//'')")
      (auto simp: from_celery_def default_app_def init_app_def bind_res_def)
qed

lemma get_app_again: "get_app build settings s = (Inr a, s') \<Longrightarrow> get_app build' settings' s' = (Inr a, s')"
  by (auto simp: get_app_def split: option.splits sum.splits)

text \<open>What happens in a Django process between two resets.\<close>

inductive django_step :: "('w django_settings \<Rightarrow> 'w app res) \<Rightarrow> 'w django \<Rightarrow> 'w django \<Rightarrow> bool" for build where
  looked_up: "django_step build s (snd (get_app build settings s))"
| registered: "django_step build s (snd (django_register build settings key h s))"
| published: "django_step build s (snd (django_publish build settings urn0 data queue trace_id ft fi now s))"
| worked: "worker_command build settings fuel queue m s = Some (r, s') \<Longrightarrow> django_step build s s'"

definition serves :: "pystr \<Rightarrow> 'w django \<Rightarrow> bool" where
  "serves key s \<longleftrightarrow> (\<exists>a. dj_app s = Some a \<and> dget (a_handlers a) key \<noteq> None)"

lemma serves_get: "serves key s \<Longrightarrow> \<exists>a. get_app build settings s = (Inr a, s) \<and> dget (a_handlers a) key \<noteq> None"
  by (auto simp: serves_def get_app_def)

lemma serves_step:
  assumes "django_step build s s'" "serves key s"
  shows "serves key s'"
  using assms(1)
proof cases
  case (looked_up settings)
  with serves_get [OF assms(2), of build settings] assms(2) show ?thesis by auto
next
  case (registered settings key' h)
  with serves_get [OF assms(2), of build settings] show ?thesis
    by (auto simp: serves_def django_register_def bind_op_def modify_def register_def)
next
  case (published settings urn0 data queue trace_id ft fi now)
  with serves_get [OF assms(2), of build settings] assms(2) show ?thesis
    by (auto simp: serves_def django_publish_def bind_op_def on_runtime_def split: prod.split)
next
  case (worked settings fuel queue m r)
  with serves_get [OF assms(2), of build settings] assms(2) show ?thesis
    by (auto simp: serves_def worker_command_def split: option.splits prod.splits)
qed

text \<open>
  A handler registered on the runtime of a Django process is one the worker command routes to, whatever was
  looked up, registered, published or consumed since, until the runtime is reset.
\<close>

theorem django_handler_is_served:
  assumes "django_register build settings key h s = (Inr (), s1)" and "(django_step build)\<^sup>*\<^sup>* s1 s2"
  shows "\<exists>a. get_app build settings' s2 = (Inr a, s2) \<and> dget (a_handlers a) key \<noteq> None"
proof -
  have "serves key s1"
    using assms(1) by (auto simp: django_register_def bind_op_def modify_def serves_def register_def
        split: prod.splits sum.splits)
  with assms(2) have "serves key s2" by (induction rule: rtranclp_induct) (auto intro: serves_step)
  then show ?thesis by (rule serves_get)
qed

end
