(* ===== verification/Spec2Isabelle.thy ===== *)
theory Spec2Isabelle
  imports Witnesses Outbox Idempotency Redrive Schema Gdpr KafkaDemo KafkaRecords KafkaRetryOrder
    RedisDemo RedisFrame BrokerCounts PulsarRoute OtelDemo LinksDemo Adapters
begin

text \<open>
  A model of the BabelQueue Python SDK (\<open>src/src/babelqueue/\<close>), a producer and consumer runtime for a
  message queue that several languages share through one JSON envelope.

  The program. \<open>codec.py\<close> builds, writes and reads the envelope; \<open>_envelope_shape.py\<close> decides whether a
  body is poison; \<open>dead_letter.py\<close> and \<open>_poison_record.py\<close> build what is written to a dead-letter queue.
  \<open>transport.py\<close> is the contract with a broker, with many optional capabilities, and holds the in-process
  transport. \<open>app.py\<close> is the runtime: it publishes, consumes, dispatches to handlers and settles every
  delivery (acknowledge, retry, dead-letter, release) through the transport. \<open>headers.py\<close> and
  \<open>replay.py\<close> carry out-of-band headers to a handler. Beside the runtime stand a transactional outbox
  (\<open>outbox.py\<close>), the deduplication of deliveries (\<open>idempotency.py\<close>), the replay of a dead-letter queue
  (\<open>redrive.py\<close>), the validation of message data (\<open>schema.py\<close>) and its field encryption (\<open>gdpr.py\<close>).

  The theories.
  \<^item> \<open>Prelude\<close>: Python strings as code point lists, dictionaries as association lists in insertion
    order, exceptions as values (\<open>exceptions.py\<close>), results. \<open>PyValue\<close>: the Python values a JSON text can
    become, with doubles as exact dyadic numbers. \<open>Json\<close>, \<open>JsonPrint\<close>: \<open>json.loads\<close> with its hooks and
    \<open>json.dumps\<close>, and that reading back what was printed gives the value. \<open>Utf8\<close>: UTF-8 with Python's
    error handlers, and base64. \<open>Effects\<close>: operations that change a state and may raise.
  \<^item> \<open>Codec\<close> (\<open>codec.py\<close>), \<open>EnvelopeShape\<close> (\<open>_envelope_shape.py\<close>), \<open>PoisonRecord\<close> (\<open>dead_letter.py\<close>,
    \<open>_poison_record.py\<close>): the definitions have the names of the functions; a method \<open>EnvelopeCodec.make\<close>
    is \<open>make_envelope\<close>. The lemmas give the round trips and the exact verdicts.
  \<^item> \<open>Transport\<close> (\<open>transport.py\<close>): a transport is a record of operations, an optional capability an
    optional field. The locale \<open>fifo\<close> is the contract of an in-process queue.
  \<^item> \<open>Runtime\<close>, \<open>Dispatch\<close> (\<open>app.py\<close>): configuration, settlement, dispatch, the consume loop, signals and
    publishing, one definition per method. Two history fields of the state record the calls made to the
    outside and the log records. \<open>Settlement\<close>, \<open>Behaviour\<close>, \<open>Retry\<close>, \<open>Lifecycle\<close> prove what they do;
    \<open>Witnesses\<close> runs them on a small application.
  \<^item> \<open>Headers\<close> (\<open>headers.py\<close>, \<open>replay.py\<close>), \<open>Outbox\<close>, \<open>Idempotency\<close>, \<open>Redrive\<close>, \<open>Schema\<close>, \<open>Gdpr\<close>: one
    theory per module. \<open>outbox_contract\<close>, \<open>idempotency_contract\<close> and \<open>schema_source\<close> are the interfaces of
    the stores and providers, interpreted on the ones the source ships.
  \<^item> \<open>Kafka\<close>, \<open>KafkaTransport\<close> (\<open>kafka_transport.py\<close>), \<open>KafkaRetry\<close> (\<open>kafka_retry.py\<close>): the values of a
    record, the transport with its books of records in flight and of deferred commits, and the consumer
    that moves a parked record back. The client library is a record of operations on its own world.
    \<open>KafkaOffsets\<close> and \<open>KafkaRetryOrder\<close> show, from laws of the broker's positions and commits, that no
    record is lost; \<open>KafkaDemo\<close> is a broker that keeps these laws; \<open>KafkaRecords\<close> treats the record's values.
  \<^item> \<open>Redis\<close> (\<open>redis_transport.py\<close>): the transport and its Lua scripts, one definition per script written
    over the server commands the script calls; the commands are a record of operations on the world of the
    server. \<open>RedisServer\<close> states the laws of these commands, \<open>RedisQueue\<close> shows from them that a reservation
    is settled at most once and that a lapsed one comes back, \<open>RedisDemo\<close> is a server that keeps the laws,
    \<open>RedisFrame\<close> treats the value that carries body and headers.
  \<^item> \<open>Sqs\<close>, \<open>Asb\<close>, \<open>Artemis\<close>, \<open>Pulsar\<close>, \<open>Pika\<close> (\<open>sqs_transport.py\<close>, \<open>asb_transport.py\<close>,
    \<open>artemis_transport.py\<close>, \<open>pulsar_transport.py\<close>, \<open>pika_transport.py\<close>): what each broker is given for an
    envelope, what a received message becomes, and how it is settled; the client library is again a record of
    operations. \<open>Endpoints\<close> holds what three of them share: a sender and a receiver for each queue, found again
    or opened, with the contract as a locale, and a step relation of all calls on a transport. \<open>Links\<close> shows
    from it that a delivery is settled where it was delivered, and that Artemis acknowledgements cannot tell
    deliveries apart; \<open>LinksDemo\<close> loses a message that way. \<open>BrokerCounts\<close> compares how they bring the broker's delivery count into the envelope;
    \<open>PulsarRoute\<close> shows that the reserved route of a gated delivery keeps its identity.
  \<^item> \<open>Trace\<close>, \<open>Otel\<close> (\<open>otel.py\<close>): the trace identifiers, and the spans and metrics around a handler and a publish;
    the OpenTelemetry API is a record of operations on its own state. \<open>OtelSpans\<close> shows that the
    instrumentation changes neither, \<open>OtelDemo\<close> runs it and shows two inputs on which it does.
  \<^item> \<open>Signals\<close> (\<open>app.py\<close>): the signal handlers \<open>consume\<close> installs and restores. \<open>Adapters\<close> (\<open>celery.py\<close>,
    \<open>django/\<close>): the runtime built from a framework's settings, the consumer thread of a Celery worker and the
    process-wide runtime of Django; what the frameworks' settings hold is an argument.

  Bounds. The parser and the printer take the nesting the interpreter allows (\<open>max_nesting\<close>, 1000) and
  raise \<open>RecursionError\<close> below it. \<open>consume\<close> and \<open>redrive\<close> take a bound on their iterations and answer
  \<open>None\<close> when it is reached, since an unbounded consume on an idle queue never returns; \<open>consume_loop\<close>
  with \<open>max_messages = m\<close> needs at most \<open>m + 1\<close> iterations, and a redrive of the in-process queue one
  more than it has messages.

  Not modelled: the client libraries of the brokers and the network (parameters where they are used) and
  the connections they open, with how these are configured; registering the worker
  step and the command with Celery and Django; the package surface and the protocols of \<open>contracts.py\<close>;
  threads and locks (an operation is atomic); the pauses; \<open>str\<close> of a list or a dictionary; the text of the
  messages the standard library puts into its exceptions.
\<close>

end
